theory Spec2Isabelle
  imports Complex_Main "HOL-Library.Char_ord" "HOL-Library.List_Lexorder"
begin

section \<open>Data model\<close>

text \<open>
  Token ids are Python integers. A tensor of ids of shape (B, T) is a list of B rows; a
  padding mask (shape (B, 1, 1, T)) is a list of B rows of booleans; a decoder mask
  (shape (B, T, T) or (B, 1, T, T)) is a list of B matrices. The decoder input of
  \<open>greedy_decode\<close> has exactly one row by construction (\<open>torch.empty(1,1)\<close>, grown along
  dimension 1 only): the model keeps that row, and wraps it in a one-row tensor where it
  is handed to the network. Device placement (\<open>.to(device)\<close>) does not change the
  values and is left out. The dtype cast of line 42 (\<open>type_as\<close> before \<open>fill_\<close>) keeps
  the id; the one of line 28 (\<open>fill_\<close> of a float32 tensor, then \<open>type_as\<close>) rounds
  it, see \<open>fill_float32\<close> below.
\<close>

type_synonym token = int
type_synonym ids = "token list list"
type_synonym mask = "bool list list"

datatype error =
  TypeError | IndexError | RuntimeError | ValueError | AssertionError | FileNotFoundError

text \<open>
  The tokenizer of the \<open>tokenizers\<close> library: \<open>token_to_id\<close> returns \<open>None\<close> for a
  token that is not in the vocabulary; \<open>decode_ids\<close> is its \<open>decode\<close> method (renamed,
  the network has a \<open>decode\<close> too).
\<close>

record tokenizer =
  token_to_id :: "string \<Rightarrow> token option"
  get_vocab_size :: nat
  decode_ids :: "token list \<Rightarrow> string"

text \<open>
  The network is an object with a state (its parameters, and the training flag that
  \<open>model.eval()\<close> and \<open>model.train()\<close> set) and three entry points, which read that
  state. The numeric computation inside the entry points is not part of this repository's
  train.py: it is a field of the record. \<open>'p\<close> is the type of the parameters, \<open>'e\<close> of
  the encoder output, \<open>'h\<close> of the decoder output at one position of one sequence. The
  projection layer acts on the last dimension, so it is a function of one position.
  Logits are real numbers: the rounding of floats and the value NaN are not modelled.
\<close>

record ('p, 'e, 'h) model =
  state_dict :: 'p
  training :: bool
  encode_forward :: "'p \<Rightarrow> bool \<Rightarrow> ids \<Rightarrow> mask \<Rightarrow> 'e"
  decode_forward :: "'p \<Rightarrow> bool \<Rightarrow> 'e \<Rightarrow> mask \<Rightarrow> ids \<Rightarrow> mask list \<Rightarrow> 'h list list"
  projection_forward :: "'p \<Rightarrow> bool \<Rightarrow> 'h \<Rightarrow> real list"

definition encode :: "('p, 'e, 'h) model \<Rightarrow> ids \<Rightarrow> mask \<Rightarrow> 'e" where
  "encode m source source_mask = encode_forward m (state_dict m) (training m) source source_mask"

definition decode ::
  "('p, 'e, 'h) model \<Rightarrow> 'e \<Rightarrow> mask \<Rightarrow> ids \<Rightarrow> mask list \<Rightarrow> 'h list list" where
  "decode m encoder_output source_mask tgt tgt_mask =
     decode_forward m (state_dict m) (training m) encoder_output source_mask tgt tgt_mask"

definition projection :: "('p, 'e, 'h) model \<Rightarrow> 'h \<Rightarrow> real list" where
  "projection m x = projection_forward m (state_dict m) (training m) x"

text \<open>
  What a validation run does besides returning values is kept in a trace: every call of an
  entry point of the network, every exit of the decoding loop and every line printed, in
  order, each with the gradient mode (\<open>torch.is_grad_enabled()\<close>) in force at that
  moment. No branch of the program reads the trace. \<open>Print_model_out\<close> is line 70, which
  prints the tensor itself.
\<close>

datatype ('e, 'h) event =
    Encode ids mask
  | Decode 'e mask ids "mask list"
  | Projection "'h list"
  | Break_max_len
  | Break_eos
  | Print_model_out "token list"
  | Print string
  | Print_msg string

record ('e, 'h) world =
  grad_enabled :: bool
  trace :: "(bool \<times> ('e, 'h) event) list"

definition emit :: "('e, 'h) event \<Rightarrow> ('e, 'h) world \<Rightarrow> ('e, 'h) world" where
  "emit ev w = w\<lparr>trace := trace w @ [(grad_enabled w, ev)]\<rparr>"

section \<open>Causal mask\<close>

text \<open>
  Modelled from the spec: \<open>causal_mask\<close> is imported from \<open>bilingual_dataset\<close>, which is
  not among the sources. The spec (section 3): an L\<times>L boolean matrix where position (i, j)
  is allowed iff j \<le> i; strictly upper-triangular is forbidden.
\<close>

definition strictly_upper :: "nat \<Rightarrow> nat \<Rightarrow> bool" where
  "strictly_upper i j = (i < j)"

definition causal_mask :: "nat \<Rightarrow> mask" where
  "causal_mask L = map (\<lambda>i. map (\<lambda>j. \<not> strictly_upper i j) [0..<L]) [0..<L]"

section \<open>Greedy decoding\<close>

text \<open>
  The tensor operations of the loop body. \<open>out[:, -1]\<close> takes the last position of every
  row and raises IndexError when there is no position. \<open>torch.max(prob, dim=-1)\<close> gives,
  for every row, the maximal value and the index of its first occurrence, and raises on
  rows of length 0; \<open>max_from v i k xs\<close> scans \<open>xs\<close>, whose first element has index
  \<open>k\<close>, with \<open>v\<close> at index \<open>i\<close> the best so far. \<open>item()\<close> raises unless the tensor has
  exactly one element.
\<close>

definition select_last :: "'h list list \<Rightarrow> error + 'h list" where
  "select_last out = (if [] \<in> set out then Inl IndexError else Inr (map last out))"

fun max_from :: "real \<Rightarrow> nat \<Rightarrow> nat \<Rightarrow> real list \<Rightarrow> real \<times> nat" where
  "max_from v i k [] = (v, i)"
| "max_from v i k (x # xs) = (if v < x then max_from x k (Suc k) xs else max_from v i (Suc k) xs)"

fun max_row :: "real list \<Rightarrow> real \<times> nat" where
  "max_row [] = (0, 0)"
| "max_row (x # xs) = max_from x 0 1 xs"

definition torch_max :: "real list list \<Rightarrow> error + real list \<times> nat list" where
  "torch_max prob =
     (if [] \<in> set prob then Inl IndexError
      else Inr (map (\<lambda>row. fst (max_row row)) prob, map (\<lambda>row. snd (max_row row)) prob))"

fun item :: "nat list \<Rightarrow> error + nat" where
  "item [x] = Inr x"
| "item xs = Inl RuntimeError"

text \<open>
  Lines 33-41 and the \<open>next_word.item()\<close> of line 42: one pass through the network,
  giving the index of the next token or the exception raised, and the world it leaves.
\<close>

definition decode_step ::
  "('p, 'e, 'h) model \<Rightarrow> 'e \<Rightarrow> mask \<Rightarrow> token list \<Rightarrow> ('e, 'h) world
     \<Rightarrow> (error + nat) \<times> ('e, 'h) world" where
  "decode_step m encoder_output source_mask decoder_input w =
     (let decoder_mask = [causal_mask (length decoder_input)];
          out = decode m encoder_output source_mask [decoder_input] decoder_mask;
          w1 = emit (Decode encoder_output source_mask [decoder_input] decoder_mask) w
      in case select_last out of
           Inl e \<Rightarrow> (Inl e, w1)
         | Inr h \<Rightarrow>
             let prob = map (projection m) h;
                 w2 = emit (Projection h) w1
             in case torch_max prob of
                  Inl e \<Rightarrow> (Inl e, w2)
                | Inr (_, next_word) \<Rightarrow> (item next_word, w2))"

text \<open>
  The loop of \<open>greedy_decode\<close> (lines 29-45). It need not terminate, so it is a partial
  function: \<open>None\<close> is a run that never returns. A run that returns gives the value or
  the exception raised, and the world it leaves. \<open>next_word == eos_idx\<close> is false when
  \<open>eos_idx\<close> is \<open>None\<close>.
\<close>

partial_function (option) greedy_loop ::
  "('p, 'e, 'h) model \<Rightarrow> 'e \<Rightarrow> mask \<Rightarrow> token option \<Rightarrow> int \<Rightarrow> token list \<Rightarrow> ('e, 'h) world
     \<Rightarrow> ((error + token list) \<times> ('e, 'h) world) option" where
  "greedy_loop m encoder_output source_mask eos_idx max_len decoder_input w =
     (if int (length decoder_input) = max_len
      then Some (Inr decoder_input, emit Break_max_len w)
      else case decode_step m encoder_output source_mask decoder_input w of
             (Inl e, w') \<Rightarrow> Some (Inl e, w')
           | (Inr next_word, w') \<Rightarrow>
               if Some (int next_word) = eos_idx
               then Some (Inr (decoder_input @ [int next_word]), emit Break_eos w')
               else greedy_loop m encoder_output source_mask eos_idx max_len
                      (decoder_input @ [int next_word]) w')"

text \<open>
  Line 28, \<open>torch.empty(1, 1).fill_(sos_idx).type_as(source)\<close>: the tensor that is filled
  has the default dtype float32, and is cast to the dtype of \<open>source\<close> (int64)
  afterwards. A float32 has a significand of 24 bits: \<open>float32_round n\<close> is the float32
  nearest to the integer \<open>n\<close> (ties to the even significand), itself an integer;
  \<open>bit_length\<close> is the number of binary digits. \<open>fill_\<close> raises RuntimeError on a
  Python integer outside the range of int64; the cast of a float that int64 cannot hold
  (\<open>2 ^ 63\<close>, to which the largest int64 values round) gives the least int64. The
  ids of the \<open>tokenizers\<close> library are unsigned 32-bit numbers, inside that range;
  those below \<open>2 ^ 24\<close> are stored unchanged.
\<close>

function bit_length :: "nat \<Rightarrow> nat" where
  "bit_length n = (if n = 0 then 0 else Suc (bit_length (n div 2)))"
  by pat_completeness auto
termination
  by (relation "measure (\<lambda>n. n)") auto

declare bit_length.simps [simp del]

definition float32_round :: "int \<Rightarrow> int" where
  "float32_round n =
     (let a = nat \<bar>n\<bar>;
          dropped = bit_length a - 24
      in if dropped = 0 then n
         else let q = a div 2 ^ dropped;
                  r = a mod 2 ^ dropped;
                  half = 2 ^ (dropped - 1);
                  q' = (if half < r \<or> (r = half \<and> odd q) then q + 1 else q)
              in sgn n * int (q' * 2 ^ dropped))"

definition fill_float32 :: "int \<Rightarrow> error + token" where
  "fill_float32 n =
     (if n < - (2 ^ 63) \<or> 2 ^ 63 \<le> n then Inl RuntimeError
      else let r = float32_round n
           in Inr (if 2 ^ 63 \<le> r then - (2 ^ 63) else r))"

text \<open>
  \<open>greedy_decode\<close> (lines 21-47). \<open>fill_(sos_idx)\<close> raises TypeError when the target
  vocabulary has no \<open>[SOS]\<close>. \<open>tokenizer_src\<close> is a parameter that the body never uses.
\<close>

definition greedy_decode ::
  "('p, 'e, 'h) model \<Rightarrow> ids \<Rightarrow> mask \<Rightarrow> tokenizer \<Rightarrow> tokenizer \<Rightarrow> int \<Rightarrow> ('e, 'h) world
     \<Rightarrow> ((error + token list) \<times> ('e, 'h) world) option" where
  "greedy_decode m source source_mask tokenizer_src tokenizer_tgt max_len w =
     (let sos_idx = token_to_id tokenizer_tgt ''[SOS]'';
          eos_idx = token_to_id tokenizer_tgt ''[EOS]'';
          encoder_output = encode m source source_mask;
          w1 = emit (Encode source source_mask) w
      in case sos_idx of
           None \<Rightarrow> Some (Inl TypeError, w1)
         | Some sos \<Rightarrow>
             (case fill_float32 sos of
                Inl e \<Rightarrow> Some (Inl e, w1)
              | Inr first \<Rightarrow>
                  greedy_loop m encoder_output source_mask eos_idx max_len [first] w1))"

text \<open>
  The variant that the spec (section 4.4) contrasts with the code: the encoder state is
  recomputed at every step instead of once before the loop. It differs from
  \<open>greedy_loop\<close> and \<open>greedy_decode\<close> in the place of the \<open>encode\<close> call only.
\<close>

partial_function (option) greedy_loop_recompute ::
  "('p, 'e, 'h) model \<Rightarrow> ids \<Rightarrow> mask \<Rightarrow> token option \<Rightarrow> int \<Rightarrow> token list \<Rightarrow> ('e, 'h) world
     \<Rightarrow> ((error + token list) \<times> ('e, 'h) world) option" where
  "greedy_loop_recompute m source source_mask eos_idx max_len decoder_input w =
     (if int (length decoder_input) = max_len
      then Some (Inr decoder_input, emit Break_max_len w)
      else case decode_step m (encode m source source_mask) source_mask decoder_input
                  (emit (Encode source source_mask) w) of
             (Inl e, w') \<Rightarrow> Some (Inl e, w')
           | (Inr next_word, w') \<Rightarrow>
               if Some (int next_word) = eos_idx
               then Some (Inr (decoder_input @ [int next_word]), emit Break_eos w')
               else greedy_loop_recompute m source source_mask eos_idx max_len
                      (decoder_input @ [int next_word]) w')"

definition greedy_decode_recompute ::
  "('p, 'e, 'h) model \<Rightarrow> ids \<Rightarrow> mask \<Rightarrow> tokenizer \<Rightarrow> tokenizer \<Rightarrow> int \<Rightarrow> ('e, 'h) world
     \<Rightarrow> ((error + token list) \<times> ('e, 'h) world) option" where
  "greedy_decode_recompute m source source_mask tokenizer_src tokenizer_tgt max_len w =
     (let sos_idx = token_to_id tokenizer_tgt ''[SOS]'';
          eos_idx = token_to_id tokenizer_tgt ''[EOS]''
      in case sos_idx of
           None \<Rightarrow> Some (Inl TypeError, w)
         | Some sos \<Rightarrow>
             (case fill_float32 sos of
                Inl e \<Rightarrow> Some (Inl e, w)
              | Inr first \<Rightarrow>
                  greedy_loop_recompute m source source_mask eos_idx max_len [first] w))"

text \<open>Readings of a trace: the events after a given world, and what kind an event is.\<close>

definition new_events :: "('e, 'h) world \<Rightarrow> ('e, 'h) world \<Rightarrow> (bool \<times> ('e, 'h) event) list" where
  "new_events w w' = drop (length (trace w)) (trace w')"

fun is_Encode :: "('e, 'h) event \<Rightarrow> bool" where
  "is_Encode (Encode s k) = True"
| "is_Encode ev = False"

fun is_Decode :: "('e, 'h) event \<Rightarrow> bool" where
  "is_Decode (Decode e k t tm) = True"
| "is_Decode ev = False"

fun is_Print_msg :: "('e, 'h) event \<Rightarrow> bool" where
  "is_Print_msg (Print_msg s) = True"
| "is_Print_msg ev = False"

fun decode_uses :: "'e \<Rightarrow> ('e, 'h) event \<Rightarrow> bool" where
  "decode_uses e (Decode e' k t tm) = (e' = e)"
| "decode_uses e ev = True"

definition iterations :: "(bool \<times> ('e, 'h) event) list \<Rightarrow> nat" where
  "iterations evs = length (filter (\<lambda>x. is_Decode (snd x)) evs)"

fun loop_event :: "'e \<Rightarrow> mask \<Rightarrow> ('e, 'h) event \<Rightarrow> bool" where
  "loop_event e k (Decode e' k' t tm) = (e' = e \<and> k' = k)"
| "loop_event e k (Projection h) = True"
| "loop_event e k Break_max_len = True"
| "loop_event e k Break_eos = True"
| "loop_event e k ev = False"

fun encode_calls :: "(bool \<times> ('e, 'h) event) list \<Rightarrow> (ids \<times> mask) list" where
  "encode_calls [] = []"
| "encode_calls ((g, Encode s k) # evs) = (s, k) # encode_calls evs"
| "encode_calls (x # evs) = encode_calls evs"

fun printed_msgs :: "(bool \<times> ('e, 'h) event) list \<Rightarrow> string list" where
  "printed_msgs [] = []"
| "printed_msgs ((g, Print_msg s) # evs) = s # printed_msgs evs"
| "printed_msgs (x # evs) = printed_msgs evs"

section \<open>Validation\<close>

text \<open>
  A batch is the dictionary that the data loader yields: the stacked tensors of its
  examples and the lists of their texts. The fields carry the prefix \<open>batch_\<close>, the
  dictionary keys being names of local variables of the program too.
\<close>

record batch =
  batch_encoder_input :: ids
  batch_decoder_input :: ids
  batch_encoder_mask :: mask
  batch_decoder_mask :: "mask list"
  batch_label :: ids
  batch_src_text :: "string list"
  batch_tgt_text :: "string list"

text \<open>
  The body of the loop of \<open>run_validation\<close> after \<open>count += 1\<close> (lines 64-92).
  \<open>encoder_input.size(0)\<close> is the number of rows. \<open>batch['src_text'][0]\<close> raises
  IndexError on an empty list. \<open>print_msg\<close> is a parameter of the source (the caller
  passes a function that writes the line to the progress bar): a call of it is the event
  \<open>Print_msg\<close>.
\<close>

definition validation_body ::
  "('p, 'e, 'h) model \<Rightarrow> batch \<Rightarrow> tokenizer \<Rightarrow> tokenizer \<Rightarrow> int \<Rightarrow> ('e, 'h) world
     \<Rightarrow> ((error + unit) \<times> ('e, 'h) world) option" where
  "validation_body m b tokenizer_src tokenizer_tgt max_len w =
     (let encoder_input = batch_encoder_input b;
          encoder_mask = batch_encoder_mask b
      in if length encoder_input \<noteq> 1 then Some (Inl AssertionError, w)
         else case greedy_decode m encoder_input encoder_mask tokenizer_src tokenizer_tgt max_len w of
                None \<Rightarrow> None
              | Some (Inl e, w1) \<Rightarrow> Some (Inl e, w1)
              | Some (Inr model_out, w1) \<Rightarrow>
                  let w2 = emit (Print_model_out model_out) w1
                  in case batch_src_text b of
                       [] \<Rightarrow> Some (Inl IndexError, w2)
                     | source_text # _ \<Rightarrow>
                         (case batch_tgt_text b of
                            [] \<Rightarrow> Some (Inl IndexError, w2)
                          | tgt_text # _ \<Rightarrow>
                              let model_out_text = decode_ids tokenizer_tgt model_out;
                                  w3 = emit (Print (''Decoded Text: '' @ model_out_text)) w2;
                                  w4 = emit (Print_msg (replicate 80 CHR ''-'')) w3;
                                  w5 = emit (Print_msg (''Source Text: '' @ source_text)) w4;
                                  w6 = emit (Print_msg (''Target Text: '' @ tgt_text)) w5;
                                  w7 = emit (Print_msg (''Predicted Text: '' @ model_out_text)) w6
                              in Some (Inr (), w7)))"

text \<open>
  The \<open>for\<close> loop of \<open>run_validation\<close> (lines 62-95) over the batches that the loader
  yields, with the local variable \<open>count\<close>. On normal exit it gives the final \<open>count\<close>
  and the batches that were not taken from the loader.
\<close>

fun validation_loop ::
  "('p, 'e, 'h) model \<Rightarrow> batch list \<Rightarrow> tokenizer \<Rightarrow> tokenizer \<Rightarrow> int \<Rightarrow> int \<Rightarrow> int
     \<Rightarrow> ('e, 'h) world \<Rightarrow> ((error + int \<times> batch list) \<times> ('e, 'h) world) option" where
  "validation_loop m [] tokenizer_src tokenizer_tgt max_len num_examples count w =
     Some (Inr (count, []), w)"
| "validation_loop m (b # rest) tokenizer_src tokenizer_tgt max_len num_examples count w =
     (case validation_body m b tokenizer_src tokenizer_tgt max_len w of
        None \<Rightarrow> None
      | Some (Inl e, w') \<Rightarrow> Some (Inl e, w')
      | Some (Inr u, w') \<Rightarrow>
          if count + 1 = num_examples then Some (Inr (count + 1, rest), w')
          else validation_loop m rest tokenizer_src tokenizer_tgt max_len num_examples
                 (count + 1) w')"

text \<open>
  \<open>run_validation\<close> (lines 50-95): \<open>model.eval()\<close> clears the training flag;
  \<open>torch.no_grad()\<close> switches the gradient mode off for the loop and restores it on the
  way out, also when the loop raises. The result is the outcome, the model and the world.
  The parameters \<open>device\<close>, \<open>global_state\<close> and \<open>writer\<close> are not used by the body
  in a way that matters here and are left out; \<open>num_examples\<close> has the default 2.
\<close>

definition run_validation ::
  "('p, 'e, 'h) model \<Rightarrow> batch list \<Rightarrow> tokenizer \<Rightarrow> tokenizer \<Rightarrow> int \<Rightarrow> int \<Rightarrow> ('e, 'h) world
     \<Rightarrow> ((error + unit) \<times> ('p, 'e, 'h) model \<times> ('e, 'h) world) option" where
  "run_validation m validation_ds tokenizer_src tokenizer_tgt max_len num_examples w =
     (let m' = m\<lparr>training := False\<rparr>;
          prev = grad_enabled w
      in case validation_loop m' validation_ds tokenizer_src tokenizer_tgt max_len num_examples 0
                (w\<lparr>grad_enabled := False\<rparr>) of
           None \<Rightarrow> None
         | Some (Inl e, w') \<Rightarrow> Some (Inl e, m', w'\<lparr>grad_enabled := prev\<rparr>)
         | Some (Inr r, w') \<Rightarrow> Some (Inr (), m', w'\<lparr>grad_enabled := prev\<rparr>))"

definition default_num_examples :: int where
  "default_num_examples = 2"

section \<open>Data loaders\<close>

text \<open>
  Modelled from the spec: an item of \<open>BilingualDataset\<close> (module \<open>bilingual_dataset\<close>,
  not among the sources) is the encoded example of section 3 of the spec.
\<close>

record example =
  ex_encoder_input :: "token list"
  ex_decoder_input :: "token list"
  ex_encoder_mask :: "bool list"
  ex_decoder_mask :: mask
  ex_label :: "token list"
  ex_src_text :: string
  ex_tgt_text :: string

text \<open>
  \<open>torch.utils.data.DataLoader\<close>: the constructor refuses a batch size that is not
  positive, and with \<open>shuffle\<close> set (a \<open>RandomSampler\<close>) an empty dataset, both with
  ValueError; an iteration takes the examples in the order that the sampler gives
  (\<open>order\<close>, a permutation drawn afresh for every iteration when \<open>shuffle\<close> is set),
  cuts them into runs of \<open>batch_size\<close> (the last one may be shorter) and stacks each run.
\<close>

record data_loader =
  loader_dataset :: "example list"
  loader_batch_size :: nat
  loader_shuffle :: bool

definition DataLoader :: "example list \<Rightarrow> int \<Rightarrow> bool \<Rightarrow> error + data_loader" where
  "DataLoader ds batch_size shuffle =
     (if shuffle \<and> ds = [] then Inl ValueError
      else if batch_size \<le> 0 then Inl ValueError
      else Inr \<lparr>loader_dataset = ds, loader_batch_size = nat batch_size, loader_shuffle = shuffle\<rparr>)"

definition collate :: "example list \<Rightarrow> batch" where
  "collate exs =
     \<lparr>batch_encoder_input = map ex_encoder_input exs,
      batch_decoder_input = map ex_decoder_input exs,
      batch_encoder_mask = map ex_encoder_mask exs,
      batch_decoder_mask = map ex_decoder_mask exs,
      batch_label = map ex_label exs,
      batch_src_text = map ex_src_text exs,
      batch_tgt_text = map ex_tgt_text exs\<rparr>"

function chunks :: "nat \<Rightarrow> 'a list \<Rightarrow> 'a list list" where
  "chunks n xs = (if n = 0 \<or> xs = [] then [] else take n xs # chunks n (drop n xs))"
  by pat_completeness auto
termination
  by (relation "measure (\<lambda>(n, xs). length xs)") auto

declare chunks.simps [simp del]

definition iterate :: "data_loader \<Rightarrow> (example list \<Rightarrow> example list) \<Rightarrow> batch list" where
  "iterate dl order =
     map collate (chunks (loader_batch_size dl)
       (if loader_shuffle dl then order (loader_dataset dl) else loader_dataset dl))"

text \<open>
  The two loaders of \<open>get_ds\<close> (lines 148-151). What comes before in \<open>get_ds\<close> is calls
  of libraries (the download, the tokenizers, the random split, the encoding of the two
  parts): their results are the parameters \<open>train_ds\<close>, \<open>val_ds\<close>, \<open>tokenizer_src\<close>
  and \<open>tokenizer_tgt\<close>; \<open>batch_size\<close> is \<open>config['batch_size']\<close>.
\<close>

definition get_ds ::
  "int \<Rightarrow> example list \<Rightarrow> example list \<Rightarrow> tokenizer \<Rightarrow> tokenizer
     \<Rightarrow> error + data_loader \<times> data_loader \<times> tokenizer \<times> tokenizer" where
  "get_ds batch_size train_ds val_ds tokenizer_src tokenizer_tgt =
     (case DataLoader train_ds batch_size True of
        Inl e \<Rightarrow> Inl e
      | Inr train_data_loader \<Rightarrow>
          (case DataLoader val_ds 1 True of
             Inl e \<Rightarrow> Inl e
           | Inr val_data_loader \<Rightarrow>
               Inr (train_data_loader, val_data_loader, tokenizer_src, tokenizer_tgt)))"

text \<open>
  The four lines that \<open>run_validation\<close> hands to \<open>print_msg\<close> for a batch (lines 89-92),
  given the text decoded from the prediction. The batch has one source and one target
  text at least where this is used.
\<close>

definition report :: "batch \<Rightarrow> string \<Rightarrow> string list" where
  "report b model_out_text =
     [replicate 80 CHR ''-'',
      ''Source Text: '' @ hd (batch_src_text b),
      ''Target Text: '' @ hd (batch_tgt_text b),
      ''Predicted Text: '' @ model_out_text]"

section \<open>The training loss\<close>

text \<open>
  \<open>nn.CrossEntropyLoss(ignore_index, label_smoothing)\<close> of PyTorch with its default
  reduction \<open>'mean'\<close>, on logits of shape (N, C) and N class indices: the rows whose
  target is \<open>ignore_index\<close> are left out, and the loss is the mean over the rows that
  are kept of the smoothed negative log-likelihood of the row. It raises when the two
  batch sizes differ and when a target that is kept is not a class index. With no row
  kept the mean is 0/0, the float NaN: that result is \<open>None\<close>. The logits are reals:
  rounding is not modelled. The constructor stores \<open>ignore_index\<close> as it is given; an
  \<open>ignore_index\<close> that is \<open>None\<close> makes every call of the loss raise TypeError, before
  the shapes are looked at.
\<close>

definition log_softmax :: "real list \<Rightarrow> nat \<Rightarrow> real" where
  "log_softmax x c = x ! c - ln (\<Sum>v\<leftarrow>x. exp v)"

definition token_loss :: "real \<Rightarrow> real list \<Rightarrow> nat \<Rightarrow> real" where
  "token_loss label_smoothing x y =
     (1 - label_smoothing) * (- log_softmax x y) +
     label_smoothing / real (length x) * (\<Sum>c\<leftarrow>[0..<length x]. - log_softmax x c)"

definition CrossEntropyLoss ::
  "token option \<Rightarrow> real \<Rightarrow> real list list \<Rightarrow> token list \<Rightarrow> error + real option" where
  "CrossEntropyLoss ignore_index label_smoothing input target =
     (case ignore_index of
        None \<Rightarrow> Inl TypeError
      | Some ignored \<Rightarrow>
          if length input \<noteq> length target then Inl ValueError
          else
            let kept = filter (\<lambda>(x, y). y \<noteq> ignored) (zip input target)
            in if list_ex (\<lambda>(x, y). y < 0 \<or> int (length x) \<le> y) kept then Inl IndexError
               else if kept = [] then Inr None
               else Inr (Some ((\<Sum>(x, y)\<leftarrow>kept. token_loss label_smoothing x (nat y))
                                / real (length kept))))"

text \<open>
  \<open>t.view(-1, V)\<close> on a tensor of three dimensions: its elements in order, in rows of
  \<open>V\<close>; it raises when they do not fill rows of \<open>V\<close>.
\<close>

definition view2 :: "real list list list \<Rightarrow> nat \<Rightarrow> error + real list list" where
  "view2 t V =
     (let flat = concat (concat t)
      in if V = 0 \<or> length flat mod V \<noteq> 0 then Inl RuntimeError else Inr (chunks V flat))"

text \<open>
  Line 191: the loss function of the training loop. Its \<open>ignore_index\<close> is what
  \<open>token_to_id('[PAD]')\<close> gives in the vocabulary of the source language, \<open>None\<close> when
  that vocabulary has no \<open>[PAD]\<close>.
\<close>

definition loss_fn_of :: "tokenizer \<Rightarrow> real list list \<Rightarrow> token list \<Rightarrow> error + real option" where
  "loss_fn_of tokenizer_src = CrossEntropyLoss (token_to_id tokenizer_src ''[PAD]'') (1 / 10)"

text \<open>Lines 199-207: the forward pass on a batch, and lines 210-213: its loss.\<close>

definition proj_output_of :: "('p, 'e, 'h) model \<Rightarrow> batch \<Rightarrow> real list list list" where
  "proj_output_of m b =
     (let encoder_input = batch_encoder_input b;
          decoder_input = batch_decoder_input b;
          encoder_mask = batch_encoder_mask b;
          decoder_mask = batch_decoder_mask b;
          encoder_output = encode m encoder_input encoder_mask;
          decoder_output = decode m encoder_output encoder_mask decoder_input decoder_mask
      in map (map (projection m)) decoder_output)"

definition forward_loss ::
  "('p, 'e, 'h) model \<Rightarrow> (real list list \<Rightarrow> token list \<Rightarrow> error + real option) \<Rightarrow> tokenizer
     \<Rightarrow> batch \<Rightarrow> error + real option" where
  "forward_loss m loss_fn tokenizer_tgt b =
     (let proj_output = proj_output_of m b;
          label = batch_label b
      in case view2 proj_output (get_vocab_size tokenizer_tgt) of
           Inl e \<Rightarrow> Inl e
         | Inr rows \<Rightarrow> loss_fn rows (concat label))"

section \<open>Checkpoints and the training loop\<close>

text \<open>
  The dictionary that \<open>torch.save\<close> writes at the end of an epoch (lines 234-239), with
  its four keys. The files under the model folder are an association list from paths to
  checkpoints: \<open>torch.save\<close> replaces the file of that path or creates it, \<open>torch.load\<close>
  raises when there is no such file.
\<close>

record ('p, 'o) checkpoint =
  ckpt_epoch :: int
  ckpt_model_state_dict :: 'p
  ckpt_optimizer_state_dict :: 'o
  ckpt_global_step :: int

type_synonym ('p, 'o) files = "(string \<times> ('p, 'o) checkpoint) list"

definition torch_save :: "('p, 'o) checkpoint \<Rightarrow> string \<Rightarrow> ('p, 'o) files \<Rightarrow> ('p, 'o) files" where
  "torch_save obj f fs = (f, obj) # filter (\<lambda>entry. fst entry \<noteq> f) fs"

definition torch_load :: "('p, 'o) files \<Rightarrow> string \<Rightarrow> error + ('p, 'o) checkpoint" where
  "torch_load fs f = (case map_of fs f of None \<Rightarrow> Inl FileNotFoundError | Some obj \<Rightarrow> Inr obj)"

text \<open>
  The configuration: the keys that train.py reads, and the two parts of the path pattern
  of the spec (section 6) that it names, \<open>model_basename\<close> and the extension.
\<close>

record config =
  batch_size :: int
  num_epochs :: int
  lr :: real
  seq_len :: int
  d_model :: int
  datasource :: string
  lang_src :: string
  lang_tgt :: string
  model_folder :: string
  model_basename :: string
  model_ext :: string
  preload :: "string option"
  tokenizer_file :: string
  experiment_name :: string

text \<open>
  Python's \<open>f"{epoch:02d}"\<close> (line 233): the decimal digits of the number, with a zero
  in front of a single digit; a negative number has its sign and its digits.
\<close>

function digits :: "nat \<Rightarrow> string" where
  "digits n = (if n < 10 then [''0123456789'' ! n]
               else digits (n div 10) @ [''0123456789'' ! (n mod 10)])"
  by pat_completeness auto
termination
  by (relation "measure id") auto

declare digits.simps [simp del]

definition format_02d :: "int \<Rightarrow> string" where
  "format_02d e =
     (if e < 0 then CHR ''-'' # digits (nat (- e))
      else if e < 10 then CHR ''0'' # digits (nat e)
      else digits (nat e))"

text \<open>
  Modelled from the spec: \<open>get_weights_file_path\<close> and \<open>latest_weights_file_path\<close> are
  imported from \<open>config\<close>, which is not among the sources. The spec (section 6): the
  path pattern is \<open>{datasource}_{model_folder}/{model_basename}{epoch:02d}.{ext}\<close>, the
  second argument being the epoch as train.py has formatted it; "latest" is the
  checkpoint with the lexicographically greatest epoch suffix found under the model
  folder. The files of the pattern differ in the suffix only, so that is the greatest of
  their paths; with no such file there is no checkpoint to name (\<open>None\<close>).
\<close>

definition get_weights_file_path :: "config \<Rightarrow> string \<Rightarrow> string" where
  "get_weights_file_path cfg epoch =
     datasource cfg @ ''_'' @ model_folder cfg @ ''/'' @ model_basename cfg @ epoch @
       ''.'' @ model_ext cfg"

definition is_weights_file :: "config \<Rightarrow> string \<Rightarrow> bool" where
  "is_weights_file cfg f =
     (let pre = datasource cfg @ ''_'' @ model_folder cfg @ ''/'' @ model_basename cfg;
          ext = ''.'' @ model_ext cfg
      in length pre + length ext \<le> length f \<and> take (length pre) f = pre \<and>
         drop (length f - length ext) f = ext)"

definition latest_weights_file_path :: "config \<Rightarrow> ('p, 'o) files \<Rightarrow> string option" where
  "latest_weights_file_path cfg fs =
     (case filter (is_weights_file cfg) (map fst fs) of
        [] \<Rightarrow> None
      | f # rest \<Rightarrow> Some (foldr max rest f))"

text \<open>
  The numeric library: \<open>loss.backward()\<close> gives the gradient of the loss, as a function
  of the parameters, at the current parameters; \<open>optimizer.step()\<close> gives the new
  parameters and the new state of the optimizer; \<open>torch.optim.Adam\<close> gives the initial
  state of the optimizer. \<open>'o\<close> is the type of the optimizer state, \<open>'g\<close> of gradients.
\<close>

record ('p, 'o, 'g) torch =
  autograd :: "('p \<Rightarrow> error + real option) \<Rightarrow> 'p \<Rightarrow> 'g"
  optimizer_step :: "'o \<Rightarrow> 'p \<Rightarrow> 'g \<Rightarrow> 'p \<times> 'o"
  Adam :: "'p \<Rightarrow> real \<Rightarrow> 'o"

text \<open>
  What the training loop changes: the model, the optimizer, the step counter, the files
  and the world. Logging to the summary writer and the progress bar is left out.
\<close>

record ('p, 'e, 'h, 'o) session =
  s_model :: "('p, 'e, 'h) model"
  s_optimizer :: 'o
  s_global_step :: int
  s_files :: "('p, 'o) files"
  s_world :: "('e, 'h) world"

text \<open>Lines 199-227: one batch.\<close>

definition train_step ::
  "('p, 'o, 'g) torch \<Rightarrow> (real list list \<Rightarrow> token list \<Rightarrow> error + real option) \<Rightarrow> tokenizer
     \<Rightarrow> batch \<Rightarrow> ('p, 'e, 'h, 'o) session \<Rightarrow> (error + unit) \<times> ('p, 'e, 'h, 'o) session" where
  "train_step T loss_fn tokenizer_tgt b st =
     (let m = s_model st
      in case forward_loss m loss_fn tokenizer_tgt b of
           Inl e \<Rightarrow> (Inl e, st)
         | Inr loss \<Rightarrow>
             let grads = autograd T (\<lambda>p. forward_loss (m\<lparr>state_dict := p\<rparr>) loss_fn tokenizer_tgt b)
                           (state_dict m);
                 (p', o') = optimizer_step T (s_optimizer st) (state_dict m) grads
             in (Inr (), st\<lparr>s_model := m\<lparr>state_dict := p'\<rparr>, s_optimizer := o',
                            s_global_step := s_global_step st + 1\<rparr>))"

fun train_batches ::
  "('p, 'o, 'g) torch \<Rightarrow> (real list list \<Rightarrow> token list \<Rightarrow> error + real option) \<Rightarrow> tokenizer
     \<Rightarrow> batch list \<Rightarrow> ('p, 'e, 'h, 'o) session \<Rightarrow> (error + unit) \<times> ('p, 'e, 'h, 'o) session" where
  "train_batches T loss_fn tokenizer_tgt [] st = (Inr (), st)"
| "train_batches T loss_fn tokenizer_tgt (b # bs) st =
     (case train_step T loss_fn tokenizer_tgt b st of
        (Inl e, st') \<Rightarrow> (Inl e, st')
      | (Inr u, st') \<Rightarrow> train_batches T loss_fn tokenizer_tgt bs st')"

text \<open>
  Lines 194-239: one epoch, on the batches that the two loaders yield in it. The
  checkpoint is written last.
\<close>

definition train_epoch ::
  "('p, 'o, 'g) torch \<Rightarrow> config \<Rightarrow> (real list list \<Rightarrow> token list \<Rightarrow> error + real option)
     \<Rightarrow> tokenizer \<Rightarrow> tokenizer \<Rightarrow> batch list \<Rightarrow> batch list \<Rightarrow> int \<Rightarrow> ('p, 'e, 'h, 'o) session
     \<Rightarrow> ((error + unit) \<times> ('p, 'e, 'h, 'o) session) option" where
  "train_epoch T cfg loss_fn tokenizer_src tokenizer_tgt train_bs val_bs epoch st =
     (case train_batches T loss_fn tokenizer_tgt train_bs
             (st\<lparr>s_model := (s_model st)\<lparr>training := True\<rparr>\<rparr>) of
        (Inl e, st1) \<Rightarrow> Some (Inl e, st1)
      | (Inr u, st1) \<Rightarrow>
          (case run_validation (s_model st1) val_bs tokenizer_src tokenizer_tgt (seq_len cfg)
                  default_num_examples (s_world st1) of
             None \<Rightarrow> None
           | Some (Inl e, m', w') \<Rightarrow> Some (Inl e, st1\<lparr>s_model := m', s_world := w'\<rparr>)
           | Some (Inr u', m', w') \<Rightarrow>
               let st2 = st1\<lparr>s_model := m', s_world := w'\<rparr>;
                   model_filename = get_weights_file_path cfg (format_02d epoch)
               in Some (Inr (),
                    st2\<lparr>s_files :=
                      torch_save
                        \<lparr>ckpt_epoch = epoch,
                         ckpt_model_state_dict = state_dict (s_model st2),
                         ckpt_optimizer_state_dict = s_optimizer st2,
                         ckpt_global_step = s_global_step st2\<rparr>
                        model_filename (s_files st2)\<rparr>)))"

text \<open>
  Line 193: \<open>for epoch in range(initial_epoch, config['num_epochs'])\<close>. \<open>train_order\<close>
  and \<open>val_order\<close> give the order in which the samplers of the two loaders take the
  examples in an epoch.
\<close>

function train_epochs ::
  "('p, 'o, 'g) torch \<Rightarrow> config \<Rightarrow> (real list list \<Rightarrow> token list \<Rightarrow> error + real option)
     \<Rightarrow> tokenizer \<Rightarrow> tokenizer \<Rightarrow> data_loader \<Rightarrow> data_loader
     \<Rightarrow> (int \<Rightarrow> example list \<Rightarrow> example list) \<Rightarrow> (int \<Rightarrow> example list \<Rightarrow> example list)
     \<Rightarrow> int \<Rightarrow> ('p, 'e, 'h, 'o) session
     \<Rightarrow> ((error + unit) \<times> ('p, 'e, 'h, 'o) session) option" where
  "train_epochs T cfg loss_fn tokenizer_src tokenizer_tgt train_dl val_dl train_order val_order
       epoch st =
     (if num_epochs cfg \<le> epoch then Some (Inr (), st)
      else case train_epoch T cfg loss_fn tokenizer_src tokenizer_tgt
                  (iterate train_dl (train_order epoch)) (iterate val_dl (val_order epoch))
                  epoch st of
             None \<Rightarrow> None
           | Some (Inl e, st') \<Rightarrow> Some (Inl e, st')
           | Some (Inr u, st') \<Rightarrow>
               train_epochs T cfg loss_fn tokenizer_src tokenizer_tgt train_dl val_dl
                 train_order val_order (epoch + 1) st')"
  by pat_completeness auto
termination
  by (relation "measure (\<lambda>(T, cfg, loss_fn, ts, tt, tdl, vdl, to, vo, epoch, st).
                  nat (num_epochs cfg - epoch))") auto

declare train_epochs.simps [simp del]

text \<open>
  Lines 179-189: the checkpoint to start from, if any, and the state in which the loop
  starts: the epoch at which it starts and the session.
\<close>

definition model_filename_of :: "config \<Rightarrow> ('p, 'o) files \<Rightarrow> string option" where
  "model_filename_of cfg fs =
     (case preload cfg of
        None \<Rightarrow> None
      | Some s \<Rightarrow>
          if s = ''latest'' then latest_weights_file_path cfg fs
          else if s \<noteq> [] then Some (get_weights_file_path cfg s)
          else None)"

definition load_session ::
  "config \<Rightarrow> ('p, 'e, 'h, 'o) session \<Rightarrow> error + int \<times> ('p, 'e, 'h, 'o) session" where
  "load_session cfg st =
     (case model_filename_of cfg (s_files st) of
        None \<Rightarrow> Inr (0, st)
      | Some model_filename \<Rightarrow>
          if model_filename = [] then Inr (0, st)
          else case torch_load (s_files st) model_filename of
                 Inl e \<Rightarrow> Inl e
               | Inr state \<Rightarrow>
                   Inr (ckpt_epoch state + 1,
                        st\<lparr>s_model := (s_model st)\<lparr>state_dict := ckpt_model_state_dict state\<rparr>,
                           s_optimizer := ckpt_optimizer_state_dict state,
                           s_global_step := ckpt_global_step state\<rparr>))"

text \<open>
  \<open>train_model\<close> (lines 159-239). The model that \<open>get_model\<close> builds, the encoded parts
  of the dataset and the tokenizers come from libraries and from modules that are not
  among the sources: they are the parameters \<open>model0\<close>, \<open>train_ds\<close>, \<open>val_ds\<close>,
  \<open>tokenizer_src\<close> and \<open>tokenizer_tgt\<close>. \<open>fs\<close> is the files at the start, \<open>w\<close> the
  world at the start.
\<close>

definition train_model ::
  "('p, 'o, 'g) torch \<Rightarrow> config \<Rightarrow> ('p, 'e, 'h) model \<Rightarrow> example list \<Rightarrow> example list
     \<Rightarrow> tokenizer \<Rightarrow> tokenizer
     \<Rightarrow> (int \<Rightarrow> example list \<Rightarrow> example list) \<Rightarrow> (int \<Rightarrow> example list \<Rightarrow> example list)
     \<Rightarrow> ('p, 'o) files \<Rightarrow> ('e, 'h) world
     \<Rightarrow> ((error + unit) \<times> ('p, 'e, 'h, 'o) session) option" where
  "train_model T cfg model0 train_ds val_ds tokenizer_src tokenizer_tgt train_order val_order fs w =
     (let st0 = \<lparr>s_model = model0, s_optimizer = Adam T (state_dict model0) (lr cfg),
                 s_global_step = 0, s_files = fs, s_world = w\<rparr>
      in case get_ds (batch_size cfg) train_ds val_ds tokenizer_src tokenizer_tgt of
           Inl e \<Rightarrow> Some (Inl e, st0)
         | Inr (train_data_loader, val_data_loader, ts, tt) \<Rightarrow>
             (case load_session cfg st0 of
                Inl e \<Rightarrow> Some (Inl e, st0)
              | Inr (initial_epoch, st1) \<Rightarrow>
                  let loss_fn = loss_fn_of ts
                  in train_epochs T cfg loss_fn ts tt train_data_loader val_data_loader
                       train_order val_order initial_epoch st1))"

text \<open>
  Readings: the checkpoint that a path holds in a session, if any; the positions of a
  label row that are not \<open>pad\<close>; and the value of a loss that has one (0 where the call
  raises or gives NaN).
\<close>

definition saved :: "string \<Rightarrow> ('p, 'e, 'h, 'o) session \<Rightarrow> ('p, 'o) checkpoint option" where
  "saved f st = map_of (s_files st) f"

definition non_pad_positions :: "token \<Rightarrow> token list \<Rightarrow> nat list" where
  "non_pad_positions pad label = filter (\<lambda>i. label ! i \<noteq> pad) [0..<length label]"

fun loss_value :: "error + real option \<Rightarrow> real" where
  "loss_value (Inr (Some l)) = l"
| "loss_value r = 0"

section \<open>Concrete inputs\<close>

text \<open>
  A vocabulary with the four special tokens in the order in which \<open>get_or_build_tokenizer\<close>
  lists them for the trainer, and one word; a network with one parameter \<open>n\<close>, which
  answers the word while the decoder input is shorter than \<open>n\<close> and \<open>[EOS]\<close> from then
  on; a network that never answers \<open>[EOS]\<close>. The decoder output at a position is the
  number of that position.
\<close>

definition toy_tokenizer :: tokenizer where
  "toy_tokenizer =
     \<lparr>token_to_id = [''[UNK]'' \<mapsto> 0, ''[PAD]'' \<mapsto> 1, ''[SOS]'' \<mapsto> 2, ''[EOS]'' \<mapsto> 3, ''a'' \<mapsto> 4],
      get_vocab_size = 5,
      decode_ids = map (\<lambda>t. if t = 4 then CHR ''a'' else CHR ''_'')\<rparr>"

definition toy_model :: "nat \<Rightarrow> (nat, ids, nat) model" where
  "toy_model n =
     \<lparr>state_dict = n,
      training = True,
      encode_forward = (\<lambda>p t source source_mask. source),
      decode_forward = (\<lambda>p t e k tgt tm. map (\<lambda>row. [1..<Suc (length row)]) tgt),
      projection_forward = (\<lambda>p t h. if h < p then [0, 0, 0, 0, 1] else [0, 0, 0, 1, 0])\<rparr>"

definition babbler :: "(nat, ids, nat) model" where
  "babbler =
     \<lparr>state_dict = 0,
      training = True,
      encode_forward = (\<lambda>p t source source_mask. source),
      decode_forward = (\<lambda>p t e k tgt tm. map (\<lambda>row. [1..<Suc (length row)]) tgt),
      projection_forward = (\<lambda>p t h. [0, 0, 0, 0, 1])\<rparr>"

text \<open>
  A network whose logits are the same at every position, with the greatest value at
  \<open>[UNK]\<close> (id 0) and at \<open>[EOS]\<close> (id 3) alike; and a vocabulary in which \<open>[SOS]\<close>
  has the id \<open>2 ^ 24 + 1\<close>, the least positive integer that float32 does not hold.
\<close>

definition tie_model :: "(nat, ids, nat) model" where
  "tie_model =
     \<lparr>state_dict = 0,
      training = True,
      encode_forward = (\<lambda>p t source source_mask. source),
      decode_forward = (\<lambda>p t e k tgt tm. map (\<lambda>row. [1..<Suc (length row)]) tgt),
      projection_forward = (\<lambda>p t h. [1, 0, 0, 1, 0])\<rparr>"

definition high_sos_tokenizer :: tokenizer where
  "high_sos_tokenizer =
     \<lparr>token_to_id = [''[UNK]'' \<mapsto> 0, ''[PAD]'' \<mapsto> 1, ''[EOS]'' \<mapsto> 3, ''a'' \<mapsto> 4,
                     ''[SOS]'' \<mapsto> 16777217],
      get_vocab_size = 16777218,
      decode_ids = map (\<lambda>t. if t = 4 then CHR ''a'' else CHR ''_'')\<rparr>"

definition w0 :: "(ids, nat) world" where
  "w0 = \<lparr>grad_enabled = True, trace = []\<rparr>"

definition toy_batch :: "token list \<Rightarrow> string \<Rightarrow> string \<Rightarrow> batch" where
  "toy_batch src s t =
     \<lparr>batch_encoder_input = [src],
      batch_decoder_input = [[2]],
      batch_encoder_mask = [map (\<lambda>x. x \<noteq> 1) src],
      batch_decoder_mask = [[[True]]],
      batch_label = [[3]],
      batch_src_text = [s],
      batch_tgt_text = [t]\<rparr>"

definition toy_batches :: "batch list" where
  "toy_batches =
     [toy_batch [4] ''a'' ''b'', toy_batch [4, 4] ''c'' ''d'', toy_batch [4] ''e'' ''f'',
      toy_batch [4, 1] ''g'' ''h'', toy_batch [4] ''i'' ''j'']"

definition toy_example :: "token list \<Rightarrow> string \<Rightarrow> string \<Rightarrow> example" where
  "toy_example src s t =
     \<lparr>ex_encoder_input = src,
      ex_decoder_input = [2],
      ex_encoder_mask = map (\<lambda>x. x \<noteq> 1) src,
      ex_decoder_mask = [[True]],
      ex_label = [3],
      ex_src_text = s,
      ex_tgt_text = t\<rparr>"

text \<open>
  A training batch of one example with one padded position: the target sentence is the
  word alone, and the label row is the word, \<open>[EOS]\<close> and \<open>[PAD]\<close>.
\<close>

definition toy_train_batch :: batch where
  "toy_train_batch =
     \<lparr>batch_encoder_input = [[2, 4, 3]],
      batch_decoder_input = [[2, 4, 1]],
      batch_encoder_mask = [[True, True, True]],
      batch_decoder_mask = [[[True, False, False], [True, True, False], [False, False, False]]],
      batch_label = [[4, 3, 1]],
      batch_src_text = [''a''],
      batch_tgt_text = [''a'']\<rparr>"

text \<open>
  A configuration; a numeric library for the network with one parameter, whose optimizer
  step adds one to the parameter and counts the steps; samplers that keep the order of
  the dataset; and a checkpoint of epoch 0 that an earlier run has left.
\<close>

definition toy_config :: config where
  "toy_config =
     \<lparr>batch_size = 8, num_epochs = 1, lr = 1 / 10000, seq_len = 10, d_model = 512,
      datasource = ''opus_books'', lang_src = ''en'', lang_tgt = ''it'',
      model_folder = ''weights'', model_basename = ''tmodel_'', model_ext = ''pt'',
      preload = None, tokenizer_file = ''tokenizer_{0}.json'',
      experiment_name = ''runs/tmodel''\<rparr>"

definition toy_torch :: "(nat, nat, unit) torch" where
  "toy_torch =
     \<lparr>autograd = (\<lambda>loss p. ()),
      optimizer_step = (\<lambda>state p g. (Suc p, Suc state)),
      Adam = (\<lambda>p rate. 0)\<rparr>"

definition no_shuffle :: "int \<Rightarrow> example list \<Rightarrow> example list" where
  "no_shuffle epoch exs = exs"

definition old_checkpoint :: "(nat, nat) checkpoint" where
  "old_checkpoint =
     \<lparr>ckpt_epoch = 0, ckpt_model_state_dict = 7, ckpt_optimizer_state_dict = 5,
      ckpt_global_step = 40\<rparr>"

definition old_files :: "(nat, nat) files" where
  "old_files = [(''opus_books_weights/tmodel_00.pt'', old_checkpoint)]"

section \<open>Properties of the decoding loop\<close>

lemma trace_emit [simp]: "trace (emit ev w) = trace w @ [(grad_enabled w, ev)]"
  by (simp add: emit_def)

lemma grad_enabled_emit [simp]: "grad_enabled (emit ev w) = grad_enabled w"
  by (simp add: emit_def)

lemma iterations_append [simp]: "iterations (xs @ ys) = iterations xs + iterations ys"
  by (simp add: iterations_def)

lemma iterations_Nil [simp]: "iterations [] = 0"
  by (simp add: iterations_def)

lemma iterations_Cons [simp]:
  "iterations (x # xs) = (if is_Decode (snd x) then Suc (iterations xs) else iterations xs)"
  by (simp add: iterations_def)

lemma decode_step_world:
  assumes "decode_step m enc sm dec w = (r, w1)"
  shows "grad_enabled w1 = grad_enabled w \<and>
         (trace w1 = trace w @ [(grad_enabled w, Decode enc sm [dec] [causal_mask (length dec)])] \<or>
          (\<exists>h. trace w1 = trace w @ [(grad_enabled w, Decode enc sm [dec] [causal_mask (length dec)]),
                                    (grad_enabled w, Projection h)]))"
  using assms
  by (auto simp: decode_step_def Let_def split: sum.splits prod.splits)

lemma greedy_loop_rule:
  assumes run: "greedy_loop m enc sm eos max_len dec w = Some (res, w')"
    and init: "I dec w"
    and exit_len: "\<And>d v. I d v \<Longrightarrow> int (length d) = max_len \<Longrightarrow> Q (Inr d) (emit Break_max_len v)"
    and exit_err: "\<And>d v e v1. I d v \<Longrightarrow> int (length d) \<noteq> max_len
                     \<Longrightarrow> decode_step m enc sm d v = (Inl e, v1) \<Longrightarrow> Q (Inl e) v1"
    and exit_eos: "\<And>d v i v1. I d v \<Longrightarrow> int (length d) \<noteq> max_len
                     \<Longrightarrow> decode_step m enc sm d v = (Inr i, v1) \<Longrightarrow> Some (int i) = eos
                     \<Longrightarrow> Q (Inr (d @ [int i])) (emit Break_eos v1)"
    and step: "\<And>d v i v1. I d v \<Longrightarrow> int (length d) \<noteq> max_len
                     \<Longrightarrow> decode_step m enc sm d v = (Inr i, v1) \<Longrightarrow> Some (int i) \<noteq> eos
                     \<Longrightarrow> I (d @ [int i]) v1"
  shows "Q res w'"
proof -
  let ?P = "\<lambda>m' enc' sm' eos' ml' d v y.
       m' = m \<longrightarrow> enc' = enc \<longrightarrow> sm' = sm \<longrightarrow> eos' = eos \<longrightarrow> ml' = max_len \<longrightarrow> I d v
         \<longrightarrow> Q (fst y) (snd y)"
  have "?P m enc sm eos max_len dec w (res, w')"
  proof (rule greedy_loop.raw_induct[where P = ?P, OF _ run])
    fix f m' enc' sm' eos' ml' d v y
    assume IH: "\<And>a b c d e g h z. f a b c d e g h = Some z \<Longrightarrow> ?P a b c d e g h z"
    assume body: "(if int (length d) = ml'
      then Some (Inr d, emit Break_max_len v)
      else case decode_step m' enc' sm' d v of
             (Inl e, w') \<Rightarrow> Some (Inl e, w')
           | (Inr next_word, w') \<Rightarrow>
               if Some (int next_word) = eos'
               then Some (Inr (d @ [int next_word]), emit Break_eos w')
               else f m' enc' sm' eos' ml' (d @ [int next_word]) w') = Some y"
    show "?P m' enc' sm' eos' ml' d v y"
    proof (intro impI)
      assume eqs: "m' = m" "enc' = enc" "sm' = sm" "eos' = eos" "ml' = max_len" and inv: "I d v"
      show "Q (fst y) (snd y)"
      proof (cases "int (length d) = max_len")
        case True
        with body eqs have "y = (Inr d, emit Break_max_len v)" by simp
        with exit_len[OF inv True] show ?thesis by simp
      next
        case ne: False
        obtain r v1 where ds: "decode_step m enc sm d v = (r, v1)"
          by (cases "decode_step m enc sm d v")
        show ?thesis
        proof (cases r)
          case (Inl e)
          with body eqs ne ds have "y = (Inl e, v1)" by simp
          with exit_err[OF inv ne ds[unfolded Inl]] show ?thesis by simp
        next
          case (Inr i)
          show ?thesis
          proof (cases "Some (int i) = eos")
            case True
            with body eqs ne ds Inr have "y = (Inr (d @ [int i]), emit Break_eos v1)" by simp
            with exit_eos[OF inv ne ds[unfolded Inr] True] show ?thesis by simp
          next
            case False
            with body eqs ne ds Inr have "f m enc sm eos max_len (d @ [int i]) v1 = Some y"
              by simp
            from IH[OF this] step[OF inv ne ds[unfolded Inr] False] show ?thesis by simp
          qed
        qed
      qed
    qed
  qed
  with init show ?thesis by simp
qed

lemma greedy_loop_terminates:
  assumes "int (length dec) \<le> max_len"
  shows "\<exists>y. greedy_loop m enc sm eos max_len dec w = Some y"
  using assms
proof (induction "nat (max_len - int (length dec))" arbitrary: dec w)
  case 0
  then have "int (length dec) = max_len" by simp
  then show ?case by (subst greedy_loop.simps) simp
next
  case (Suc n)
  then have ne: "int (length dec) \<noteq> max_len" by linarith
  have IH: "\<exists>y. greedy_loop m enc sm eos max_len (dec @ [t]) v = Some y" for t v
    using Suc by (intro Suc(1)) auto
  show ?case
    using ne IH by (subst greedy_loop.simps) (auto split: sum.splits prod.splits)
qed

lemma greedy_loop_value:
  fixes w :: "('e, 'h) world"
  assumes run: "greedy_loop m enc sm eos max_len dec w = Some (Inr r, w')"
  shows "\<exists>app. r = dec @ app \<and> (\<forall>t\<in>set (butlast app). Some t \<noteq> eos) \<and>
           (int (length dec) \<le> max_len \<longrightarrow> int (length r) \<le> max_len)"
proof -
  define I where "I = (\<lambda>d (v::('e, 'h) world). \<exists>app. d = dec @ app \<and> (\<forall>t\<in>set app. Some t \<noteq> eos) \<and>
           (int (length dec) \<le> max_len \<longrightarrow> int (length d) \<le> max_len))"
  define Q where "Q = (\<lambda>(res::error + token list) (v::('e, 'h) world). case res of Inl e \<Rightarrow> True
     | Inr r \<Rightarrow> \<exists>app. r = dec @ app \<and> (\<forall>t\<in>set (butlast app). Some t \<noteq> eos) \<and>
           (int (length dec) \<le> max_len \<longrightarrow> int (length r) \<le> max_len))"
  have "Q (Inr r) w'"
  proof (rule greedy_loop_rule[where I = I and Q = Q, OF run])
    show "I dec w" by (simp add: I_def)
  next
    fix d v assume "I d v" "int (length d) = max_len"
    then show "Q (Inr d) (emit Break_max_len v)"
      by (auto simp: I_def Q_def dest: in_set_butlastD)
  next
    fix d v e v1 show "Q (Inl e) v1" by (simp add: Q_def)
  next
    fix d v i v1
    assume "I d v" and ne: "int (length d) \<noteq> max_len"
    then obtain app where app: "d = dec @ app" "\<forall>t\<in>set app. Some t \<noteq> eos"
      "int (length dec) \<le> max_len \<longrightarrow> int (length d) \<le> max_len" unfolding I_def by blast
    have "d @ [int i] = dec @ (app @ [int i])" using app by simp
    moreover have "\<forall>t\<in>set (butlast (app @ [int i])). Some t \<noteq> eos" using app by simp
    moreover have "int (length dec) \<le> max_len \<longrightarrow> int (length (d @ [int i])) \<le> max_len"
      using app ne by auto
    ultimately show "Q (Inr (d @ [int i])) (emit Break_eos v1)"
      unfolding Q_def sum.case by blast
  next
    fix d v i v1
    assume "I d v" and ne: "int (length d) \<noteq> max_len" and neos: "Some (int i) \<noteq> eos"
    then obtain app where app: "d = dec @ app" "\<forall>t\<in>set app. Some t \<noteq> eos"
      "int (length dec) \<le> max_len \<longrightarrow> int (length d) \<le> max_len" unfolding I_def by blast
    have "d @ [int i] = dec @ (app @ [int i])" using app by simp
    moreover have "\<forall>t\<in>set (app @ [int i]). Some t \<noteq> eos" using app neos by auto
    moreover have "int (length dec) \<le> max_len \<longrightarrow> int (length (d @ [int i])) \<le> max_len"
      using app ne by auto
    ultimately show "I (d @ [int i]) v1" unfolding I_def by blast
  qed
  then show ?thesis by (simp add: Q_def)
qed


lemma decode_step_iterations:
  assumes "decode_step m enc sm d v = (r, v1)"
  shows "iterations (trace v1) = Suc (iterations (trace v))" "trace v1 \<noteq> []"
  using decode_step_world[OF assms] by auto

lemma greedy_loop_count:
  fixes w :: "('e, 'h) world"
  assumes run: "greedy_loop m enc sm eos max_len dec w = Some (res, w')"
  shows "case res of
      Inl e \<Rightarrow> (int (length dec) \<le> max_len \<longrightarrow>
                 int (iterations (trace w')) + int (length dec) \<le> int (iterations (trace w)) + max_len)
    | Inr r \<Rightarrow> iterations (trace w') + length dec = iterations (trace w) + length r \<and>
        trace w' \<noteq> [] \<and>
        (snd (last (trace w')) = Break_eos \<and> length dec < length r \<and> Some (last r) = eos
         \<or> snd (last (trace w')) = Break_max_len \<and> int (length r) = max_len \<and>
            (\<forall>t\<in>set (drop (length dec) r). Some t \<noteq> eos))"
proof -
  define I where "I = (\<lambda>d (v::('e, 'h) world).
     iterations (trace v) + length dec = iterations (trace w) + length d \<and>
     length dec \<le> length d \<and>
     (int (length dec) \<le> max_len \<longrightarrow> int (length d) \<le> max_len) \<and>
     (\<forall>t\<in>set (drop (length dec) d). Some t \<noteq> eos))"
  define Q where "Q = (\<lambda>(res::error + token list) (w'::('e, 'h) world). case res of
      Inl e \<Rightarrow> (int (length dec) \<le> max_len \<longrightarrow>
                 int (iterations (trace w')) + int (length dec) \<le> int (iterations (trace w)) + max_len)
    | Inr r \<Rightarrow> iterations (trace w') + length dec = iterations (trace w) + length r \<and>
        trace w' \<noteq> [] \<and>
        (snd (last (trace w')) = Break_eos \<and> length dec < length r \<and> Some (last r) = eos
         \<or> snd (last (trace w')) = Break_max_len \<and> int (length r) = max_len \<and>
            (\<forall>t\<in>set (drop (length dec) r). Some t \<noteq> eos)))"
  have "Q res w'"
  proof (rule greedy_loop_rule[where I = I and Q = Q, OF run])
    show "I dec w" by (simp add: I_def)
  next
    fix d v assume "I d v" "int (length d) = max_len"
    then show "Q (Inr d) (emit Break_max_len v)"
      by (simp add: I_def Q_def)
  next
    fix d v e v1
    assume "I d v" "int (length d) \<noteq> max_len" "decode_step m enc sm d v = (Inl e, v1)"
    then show "Q (Inl e) v1"
      using decode_step_iterations(1)[of m enc sm d v "Inl e" v1]
      by (auto simp: I_def Q_def)
  next
    fix d v i v1
    assume "I d v" "int (length d) \<noteq> max_len" "decode_step m enc sm d v = (Inr i, v1)"
      "Some (int i) = eos"
    then show "Q (Inr (d @ [int i])) (emit Break_eos v1)"
      using decode_step_iterations(1)[of m enc sm d v "Inr i" v1]
      by (auto simp: I_def Q_def)
  next
    fix d v i v1
    assume "I d v" "int (length d) \<noteq> max_len" "decode_step m enc sm d v = (Inr i, v1)"
      "Some (int i) \<noteq> eos"
    then show "I (d @ [int i]) v1"
      using decode_step_iterations(1)[of m enc sm d v "Inr i" v1]
      by (auto simp: I_def)
  qed
  then show ?thesis by (simp add: Q_def)
qed

lemma greedy_loop_events:
  fixes w :: "('e, 'h) world"
  assumes run: "greedy_loop m enc sm eos max_len dec w = Some (res, w')"
  shows "grad_enabled w' = grad_enabled w \<and>
         (\<exists>evs. trace w' = trace w @ map (Pair (grad_enabled w)) evs \<and>
                (\<forall>ev\<in>set evs. loop_event enc sm ev))"
proof -
  define I where "I = (\<lambda>(d::token list) (v::('e, 'h) world). grad_enabled v = grad_enabled w \<and>
         (\<exists>evs. trace v = trace w @ map (Pair (grad_enabled w)) evs \<and>
                (\<forall>ev\<in>set evs. loop_event enc sm ev)))"
  define Q where "Q = (\<lambda>(res::error + token list) (v::('e, 'h) world). I [] v)"
  have ext: "I d' (emit ev v)" if "I d v" "loop_event enc sm ev" for d d' v ev
  proof -
    from that obtain evs where g: "grad_enabled v = grad_enabled w"
      and evs: "trace v = trace w @ map (Pair (grad_enabled w)) evs" "\<forall>ev\<in>set evs. loop_event enc sm ev"
      unfolding I_def by blast
    have "trace (emit ev v) = trace w @ map (Pair (grad_enabled w)) (evs @ [ev])"
      using g evs by simp
    moreover have "\<forall>x\<in>set (evs @ [ev]). loop_event enc sm x" using evs that(2) by simp
    ultimately show ?thesis unfolding I_def using g by (metis grad_enabled_emit)
  qed
  have stepI: "I d' v1" if "I d v" "decode_step m enc sm d v = (r, v1)" for d d' v r v1
  proof -
    from that obtain evs where g: "grad_enabled v = grad_enabled w"
      and evs: "trace v = trace w @ map (Pair (grad_enabled w)) evs" "\<forall>ev\<in>set evs. loop_event enc sm ev"
      unfolding I_def by blast
    from decode_step_world[OF that(2)] have g1: "grad_enabled v1 = grad_enabled v"
      and tr: "trace v1 = trace v @ [(grad_enabled v, Decode enc sm [d] [causal_mask (length d)])] \<or>
          (\<exists>h. trace v1 = trace v @ [(grad_enabled v, Decode enc sm [d] [causal_mask (length d)]),
                                    (grad_enabled v, Projection h)])" by auto
    from tr show ?thesis
    proof
      assume "trace v1 = trace v @ [(grad_enabled v, Decode enc sm [d] [causal_mask (length d)])]"
      then have "trace v1 = trace w @ map (Pair (grad_enabled w))
                   (evs @ [Decode enc sm [d] [causal_mask (length d)]])"
        using g evs by simp
      moreover have "\<forall>x\<in>set (evs @ [Decode enc sm [d] [causal_mask (length d)]]). loop_event enc sm x"
        using evs by simp
      ultimately show ?thesis unfolding I_def using g g1 by metis
    next
      assume "\<exists>h. trace v1 = trace v @ [(grad_enabled v, Decode enc sm [d] [causal_mask (length d)]),
                                    (grad_enabled v, Projection h)]"
      then obtain h where "trace v1 = trace v @ [(grad_enabled v, Decode enc sm [d] [causal_mask (length d)]),
                                    (grad_enabled v, Projection h)]" by blast
      then have "trace v1 = trace w @ map (Pair (grad_enabled w))
                   (evs @ [Decode enc sm [d] [causal_mask (length d)], Projection h])"
        using g evs by simp
      moreover have "\<forall>x\<in>set (evs @ [Decode enc sm [d] [causal_mask (length d)], Projection h]).
                       loop_event enc sm x"
        using evs by simp
      ultimately show ?thesis unfolding I_def using g g1 by metis
    qed
  qed
  have "Q res w'"
  proof (rule greedy_loop_rule[where I = I and Q = Q, OF run])
    show "I dec w" unfolding I_def by (intro conjI exI[of _ "[]"]) simp_all
  next
    fix d v assume "I d v"
    then show "Q (Inr d) (emit Break_max_len v)" unfolding Q_def by (rule ext) simp
  next
    fix d v e v1
    assume "I d v" "decode_step m enc sm d v = (Inl e, v1)"
    then show "Q (Inl e) v1" unfolding Q_def by (rule stepI)
  next
    fix d v i v1
    assume "I d v" "decode_step m enc sm d v = (Inr i, v1)"
    then have "I d v1" by (rule stepI)
    then show "Q (Inr (d @ [int i])) (emit Break_eos v1)" unfolding Q_def by (rule ext) simp
  next
    fix d v i v1
    assume "I d v" "decode_step m enc sm d v = (Inr i, v1)"
    then show "I (d @ [int i]) v1" by (rule stepI)
  qed
  then show ?thesis by (simp add: Q_def I_def)
qed

lemma greedy_loop_diverges:
  fixes w :: "('e, 'h) world"
  assumes stp: "\<And>d (v::('e, 'h) world). d \<noteq> [] \<Longrightarrow>
                  \<exists>i v1. decode_step m enc sm d v = (Inr i, v1) \<and> Some (int i) \<noteq> eos"
    and "max_len \<le> 0" "dec \<noteq> []"
  shows "greedy_loop m enc sm eos max_len dec w = None"
proof (rule ccontr)
  assume "greedy_loop m enc sm eos max_len dec w \<noteq> None"
  then obtain res w' where run: "greedy_loop m enc sm eos max_len dec w = Some (res, w')" by auto
  define I where "I = (\<lambda>(d::token list) (v::('e, 'h) world). d \<noteq> [])"
  define Q where "Q = (\<lambda>(res::error + token list) (v::('e, 'h) world). False)"
  have "Q res w'"
  proof (rule greedy_loop_rule[where I = I and Q = Q, OF run])
    show "I dec w" using assms by (simp add: I_def)
  next
    fix d v assume "I d v" "int (length d) = max_len"
    then show "Q (Inr d) (emit Break_max_len v)" using assms(2) by (cases d) (auto simp: I_def)
  next
    fix d v e v1
    assume "I d v" "decode_step m enc sm d v = (Inl e, v1)"
    then show "Q (Inl e) v1" using stp[of d v] by (auto simp: I_def)
  next
    fix d v i v1
    assume "I d v" "decode_step m enc sm d v = (Inr i, v1)" "Some (int i) = eos"
    then show "Q (Inr (d @ [int i])) (emit Break_eos v1)" using stp[of d v] by (auto simp: I_def)
  next
    fix d v i v1
    show "I (d @ [int i]) v1" by (simp add: I_def)
  qed
  then show False by (simp add: Q_def)
qed

lemma greedy_decode_unfold:
  "greedy_decode m s k ts tt L w =
     (case token_to_id tt ''[SOS]'' of
        None \<Rightarrow> Some (Inl TypeError, emit (Encode s k) w)
      | Some sos \<Rightarrow>
          (case fill_float32 sos of
             Inl e \<Rightarrow> Some (Inl e, emit (Encode s k) w)
           | Inr first \<Rightarrow> greedy_loop m (encode m s k) k (token_to_id tt ''[EOS]'') L [first]
                            (emit (Encode s k) w)))"
  by (simp add: greedy_decode_def Let_def)

lemma greedy_decode_cases:
  obtains (stop) e where "greedy_decode m s k ts tt L w = Some (Inl e, emit (Encode s k) w)"
  | (loop) sos first where "token_to_id tt ''[SOS]'' = Some sos" "fill_float32 sos = Inr first"
      "greedy_decode m s k ts tt L w =
         greedy_loop m (encode m s k) k (token_to_id tt ''[EOS]'') L [first] (emit (Encode s k) w)"
proof (cases "token_to_id tt ''[SOS]''")
  case None
  then show ?thesis using stop[of TypeError] by (simp add: greedy_decode_unfold)
next
  case (Some sos)
  show ?thesis
  proof (cases "fill_float32 sos")
    case (Inl e)
    with Some show ?thesis using stop[of e] by (simp add: greedy_decode_unfold)
  next
    case (Inr first)
    with Some show ?thesis using loop[of sos first] by (simp add: greedy_decode_unfold)
  qed
qed

text \<open>Line 28 keeps an id that a float32 holds exactly.\<close>

lemma bit_length_le: "n < 2 ^ k \<Longrightarrow> bit_length n \<le> k"
proof (induction k arbitrary: n)
  case 0
  then show ?case by (simp add: bit_length.simps)
next
  case (Suc k)
  show ?case
  proof (cases "n = 0")
    case True
    then show ?thesis by (simp add: bit_length.simps)
  next
    case False
    from Suc.prems have "n div 2 < 2 ^ k" by simp
    from Suc.IH[OF this] False show ?thesis by (subst bit_length.simps) simp
  qed
qed

lemma float32_round_exact: "\<bar>n\<bar> < 2 ^ 24 \<Longrightarrow> float32_round n = n"
proof -
  assume "\<bar>n\<bar> < 2 ^ 24"
  then have "nat \<bar>n\<bar> < 2 ^ 24" by simp
  from bit_length_le[OF this] show ?thesis by (simp add: float32_round_def Let_def)
qed

lemma fill_float32_exact: "\<bar>n\<bar> < 2 ^ 24 \<Longrightarrow> fill_float32 n = Inr n"
proof -
  assume small: "\<bar>n\<bar> < 2 ^ 24"
  then have "\<not> n < - (2 ^ 63)" "\<not> (2::int) ^ 63 \<le> n" by simp_all
  with small show ?thesis by (simp add: fill_float32_def float32_round_exact Let_def)
qed

lemma new_events_append: "trace w' = trace w @ evs \<Longrightarrow> new_events w w' = evs"
  by (simp add: new_events_def)

lemma greedy_decode_world:
  fixes w :: "('e, 'h) world"
  assumes run: "greedy_decode m s k ts tt L w = Some (res, w')"
  shows "grad_enabled w' = grad_enabled w \<and>
         (\<exists>evs. trace w' = trace w @ map (Pair (grad_enabled w)) (Encode s k # evs) \<and>
                (\<forall>ev\<in>set evs. loop_event (encode m s k) k ev))"
proof (cases rule: greedy_decode_cases[of m s k ts tt L w])
  case (stop e)
  with run have "w' = emit (Encode s k) w" by simp
  then show ?thesis by (intro conjI exI[of _ "[]"]) simp_all
next
  case (loop sos first)
  with run have "greedy_loop m (encode m s k) k (token_to_id tt ''[EOS]'') L [first]
                   (emit (Encode s k) w) = Some (res, w')"
    by simp
  from greedy_loop_events[OF this] obtain evs where
    "grad_enabled w' = grad_enabled w"
    "trace w' = trace w @ map (Pair (grad_enabled w)) (Encode s k # evs)"
    "\<forall>ev\<in>set evs. loop_event (encode m s k) k ev"
    by auto
  then show ?thesis by blast
qed

lemma greedy_decode_value:
  fixes w :: "('e, 'h) world"
  assumes run: "greedy_decode m s k ts tt L w = Some (Inr r, w')"
  shows "\<exists>sos first app. token_to_id tt ''[SOS]'' = Some sos \<and> fill_float32 sos = Inr first \<and>
           r = first # app \<and>
           iterations (new_events w w') = length app \<and>
           (\<forall>t\<in>set (butlast app). Some t \<noteq> token_to_id tt ''[EOS]'') \<and>
           (1 \<le> L \<longrightarrow> int (length r) \<le> L) \<and>
           (snd (last (trace w')) = Break_eos \<and> app \<noteq> [] \<and>
              Some (last app) = token_to_id tt ''[EOS]''
            \<or> snd (last (trace w')) = Break_max_len \<and> int (length r) = L \<and>
              (\<forall>t\<in>set app. Some t \<noteq> token_to_id tt ''[EOS]''))"
proof (cases rule: greedy_decode_cases[of m s k ts tt L w])
  case (stop e)
  with run show ?thesis by simp
next
  case (loop sos first)
  let ?eos = "token_to_id tt ''[EOS]''"
  let ?w1 = "emit (Encode s k) w"
  from loop run have loop': "greedy_loop m (encode m s k) k ?eos L [first] ?w1 = Some (Inr r, w')"
    by simp
  from greedy_loop_value[OF loop'] obtain app where app: "r = [first] @ app"
    "\<forall>t\<in>set (butlast app). Some t \<noteq> ?eos" "int (length [first]) \<le> L \<longrightarrow> int (length r) \<le> L"
    by blast
  from greedy_loop_count[OF loop'] have cnt:
    "iterations (trace w') + length [first] = iterations (trace ?w1) + length r"
    "snd (last (trace w')) = Break_eos \<and> length [first] < length r \<and> Some (last r) = ?eos
     \<or> snd (last (trace w')) = Break_max_len \<and> int (length r) = L \<and>
        (\<forall>t\<in>set (drop (length [first]) r). Some t \<noteq> ?eos)"
    by simp_all
  from greedy_decode_world[OF run] obtain evs where
    tr: "trace w' = trace w @ map (Pair (grad_enabled w)) (Encode s k # evs)" by blast
  have "iterations (trace w') = iterations (trace w) + iterations (new_events w w')"
    using tr by (simp add: new_events_def)
  with cnt(1) app(1) have it: "iterations (new_events w w') = length app" by simp
  have ex: "snd (last (trace w')) = Break_eos \<and> app \<noteq> [] \<and> Some (last app) = ?eos
            \<or> snd (last (trace w')) = Break_max_len \<and> int (length r) = L \<and>
              (\<forall>t\<in>set app. Some t \<noteq> ?eos)"
    using cnt(2) app(1) by auto
  show ?thesis
    using loop(1,2) app it ex by auto
qed


lemma greedy_decode_returns:
  assumes "1 \<le> L"
  shows "\<exists>y. greedy_decode m s k ts tt L w = Some y"
proof (cases rule: greedy_decode_cases[of m s k ts tt L w])
  case (stop e)
  then show ?thesis by simp
next
  case (loop sos first)
  then show ?thesis
    using greedy_loop_terminates[of "[first]" L] assms by simp
qed

lemma decode_step_fst:
  "fst (decode_step m e k d v) = fst (decode_step m e k d v')"
  by (simp add: decode_step_def Let_def split: sum.splits prod.splits)

lemma decode_step_other_world:
  assumes "decode_step m e k d v = (r, v1)"
  shows "\<exists>u1. decode_step m e k d u = (r, u1)"
proof -
  have "fst (decode_step m e k d u) = r" using decode_step_fst[of m e k d u v] assms by simp
  then show ?thesis by (cases "decode_step m e k d u") simp
qed

lemma greedy_loop_to_recompute:
  fixes w :: "('e, 'h) world"
  assumes run: "greedy_loop m enc k eos L d w = Some (res, w')" and enc: "enc = encode m s k"
  shows "\<exists>u'. greedy_loop_recompute m s k eos L d u = Some (res, u')"
proof -
  let ?P = "\<lambda>m' enc' k' eos' L' d' (v::('e, 'h) world) (y::(error + token list) \<times> ('e, 'h) world).
       m' = m \<longrightarrow> enc' = encode m s k \<longrightarrow> k' = k \<longrightarrow> eos' = eos \<longrightarrow> L' = L \<longrightarrow>
       (\<forall>u. \<exists>u'. greedy_loop_recompute m s k eos L d' u = Some (fst y, u'))"
  have "?P m enc k eos L d w (res, w')"
  proof (rule greedy_loop.raw_induct[where P = ?P, OF _ run])
    fix f m' enc' k' eos' L' d' v y
    assume IH: "\<And>a b c d e g h z. f a b c d e g h = Some z \<Longrightarrow> ?P a b c d e g h z"
    assume body: "(if int (length d') = L'
      then Some (Inr d', emit Break_max_len v)
      else case decode_step m' enc' k' d' v of
             (Inl e, w') \<Rightarrow> Some (Inl e, w')
           | (Inr next_word, w') \<Rightarrow>
               if Some (int next_word) = eos'
               then Some (Inr (d' @ [int next_word]), emit Break_eos w')
               else f m' enc' k' eos' L' (d' @ [int next_word]) w') = Some y"
    show "?P m' enc' k' eos' L' d' v y"
    proof (intro impI allI)
      fix u :: "('e, 'h) world"
      assume eqs: "m' = m" "enc' = encode m s k" "k' = k" "eos' = eos" "L' = L"
      show "\<exists>u'. greedy_loop_recompute m s k eos L d' u = Some (fst y, u')"
      proof (cases "int (length d') = L")
        case True
        with body eqs have "fst y = Inr d'" by auto
        with True show ?thesis by (subst greedy_loop_recompute.simps) simp
      next
        case ne: False
        obtain r v1 where ds: "decode_step m (encode m s k) k d' v = (r, v1)"
          by (cases "decode_step m (encode m s k) k d' v")
        from decode_step_other_world[OF ds] obtain u1 where
          du: "decode_step m (encode m s k) k d' (emit (Encode s k) u) = (r, u1)" by blast
        show ?thesis
        proof (cases r)
          case (Inl e)
          with body eqs ne ds have "fst y = Inl e" by auto
          with ne du Inl show ?thesis by (subst greedy_loop_recompute.simps) simp
        next
          case (Inr i)
          show ?thesis
          proof (cases "Some (int i) = eos")
            case True
            with body eqs ne ds Inr have "fst y = Inr (d' @ [int i])" by auto
            with ne du Inr True show ?thesis by (subst greedy_loop_recompute.simps) simp
          next
            case False
            with body eqs ne ds Inr have "f m (encode m s k) k eos L (d' @ [int i]) v1 = Some y"
              by simp
            from IH[OF this] obtain u' where
              "greedy_loop_recompute m s k eos L (d' @ [int i]) u1 = Some (fst y, u')" by blast
            with ne du Inr False show ?thesis by (subst greedy_loop_recompute.simps) simp
          qed
        qed
      qed
    qed
  qed
  with enc show ?thesis by simp
qed

lemma greedy_loop_from_recompute:
  fixes u :: "('e, 'h) world"
  assumes run: "greedy_loop_recompute m s k eos L d u = Some (res, u')"
  shows "\<exists>w'. greedy_loop m (encode m s k) k eos L d w = Some (res, w')"
proof -
  let ?P = "\<lambda>m' s' k' eos' L' d' (v::('e, 'h) world) (y::(error + token list) \<times> ('e, 'h) world).
       m' = m \<longrightarrow> s' = s \<longrightarrow> k' = k \<longrightarrow> eos' = eos \<longrightarrow> L' = L \<longrightarrow>
       (\<forall>w. \<exists>w'. greedy_loop m (encode m s k) k eos L d' w = Some (fst y, w'))"
  have "?P m s k eos L d u (res, u')"
  proof (rule greedy_loop_recompute.raw_induct[where P = ?P, OF _ run])
    fix f m' s' k' eos' L' d' v y
    assume IH: "\<And>a b c d e g h z. f a b c d e g h = Some z \<Longrightarrow> ?P a b c d e g h z"
    assume body: "(if int (length d') = L'
      then Some (Inr d', emit Break_max_len v)
      else case decode_step m' (encode m' s' k') k' d' (emit (Encode s' k') v) of
             (Inl e, w') \<Rightarrow> Some (Inl e, w')
           | (Inr next_word, w') \<Rightarrow>
               if Some (int next_word) = eos'
               then Some (Inr (d' @ [int next_word]), emit Break_eos w')
               else f m' s' k' eos' L' (d' @ [int next_word]) w') = Some y"
    show "?P m' s' k' eos' L' d' v y"
    proof (intro impI allI)
      fix w :: "('e, 'h) world"
      assume eqs: "m' = m" "s' = s" "k' = k" "eos' = eos" "L' = L"
      show "\<exists>w'. greedy_loop m (encode m s k) k eos L d' w = Some (fst y, w')"
      proof (cases "int (length d') = L")
        case True
        with body eqs have "fst y = Inr d'" by auto
        with True show ?thesis by (subst greedy_loop.simps) simp
      next
        case ne: False
        obtain r v1 where ds: "decode_step m (encode m s k) k d' (emit (Encode s k) v) = (r, v1)"
          by (cases "decode_step m (encode m s k) k d' (emit (Encode s k) v)")
        from decode_step_other_world[OF ds] obtain w1 where
          dw: "decode_step m (encode m s k) k d' w = (r, w1)" by blast
        show ?thesis
        proof (cases r)
          case (Inl e)
          with body eqs ne ds have "fst y = Inl e" by auto
          with ne dw Inl show ?thesis by (subst greedy_loop.simps) simp
        next
          case (Inr i)
          show ?thesis
          proof (cases "Some (int i) = eos")
            case True
            with body eqs ne ds Inr have "fst y = Inr (d' @ [int i])" by auto
            with ne dw Inr True show ?thesis by (subst greedy_loop.simps) simp
          next
            case False
            with body eqs ne ds Inr have "f m s k eos L (d' @ [int i]) v1 = Some y"
              by simp
            from IH[OF this] obtain w' where
              "greedy_loop m (encode m s k) k eos L (d' @ [int i]) w1 = Some (fst y, w')" by blast
            with ne dw Inr False show ?thesis by (subst greedy_loop.simps) simp
          qed
        qed
      qed
    qed
  qed
  then show ?thesis by simp
qed

lemma greedy_loop_recompute_value:
  fixes w u :: "('e, 'h) world"
  shows "map_option fst (greedy_loop m (encode m s k) k eos L d w) =
         map_option fst (greedy_loop_recompute m s k eos L d u)"
proof (cases "greedy_loop m (encode m s k) k eos L d w")
  case None
  have "greedy_loop_recompute m s k eos L d u = None"
  proof (rule ccontr)
    assume "greedy_loop_recompute m s k eos L d u \<noteq> None"
    then obtain res u' where "greedy_loop_recompute m s k eos L d u = Some (res, u')" by auto
    from greedy_loop_from_recompute[OF this, of w] None show False by simp
  qed
  with None show ?thesis by simp
next
  case (Some y)
  obtain res w' where y: "y = (res, w')" by (cases y)
  from greedy_loop_to_recompute[OF Some[unfolded y] refl, of u] y Some show ?thesis by auto
qed

lemma greedy_decode_recompute_value:
  fixes w u :: "('e, 'h) world"
  shows "map_option fst (greedy_decode m s k ts tt L w) =
         map_option fst (greedy_decode_recompute m s k ts tt L u)"
  using greedy_loop_recompute_value[of m s k "token_to_id tt ''[EOS]''" L _ "emit (Encode s k) w" u]
  by (simp add: greedy_decode_unfold greedy_decode_recompute_def Let_def
           split: option.splits sum.splits)

section \<open>Readings of traces\<close>

lemma loop_event_kind:
  "loop_event e k ev \<Longrightarrow> \<not> is_Encode ev \<and> decode_uses e ev \<and> \<not> is_Print_msg ev"
  by (cases ev) simp_all

lemma encode_calls_append [simp]: "encode_calls (xs @ ys) = encode_calls xs @ encode_calls ys"
  by (induction xs rule: encode_calls.induct) simp_all

lemma printed_msgs_append [simp]: "printed_msgs (xs @ ys) = printed_msgs xs @ printed_msgs ys"
  by (induction xs rule: printed_msgs.induct) simp_all

lemma loop_events_calls:
  "\<forall>ev\<in>set evs. loop_event e k ev \<Longrightarrow>
     encode_calls (map (Pair g) evs) = [] \<and> printed_msgs (map (Pair g) evs) = []"
proof (induction evs)
  case Nil
  then show ?case by simp
next
  case (Cons ev evs)
  then have "loop_event e k ev" by simp
  with Cons show ?case by (cases ev) simp_all
qed

section \<open>Runs on the concrete inputs\<close>

lemma toy_encode [simp]: "encode (toy_model n) s k = s"
  by (simp add: encode_def toy_model_def)

lemma babbler_encode [simp]: "encode babbler s k = s"
  by (simp add: encode_def babbler_def)

lemma toy_step: "d \<noteq> [] \<Longrightarrow> decode_step (toy_model n) e k d v =
   (Inr (if length d < n then 4 else 3),
    emit (Projection [length d]) (emit (Decode e k [d] [causal_mask (length d)]) v))"
  by (cases d) (simp_all add: decode_step_def decode_def projection_def toy_model_def
      select_last_def torch_max_def Let_def)


lemma toy_sos [simp]: "token_to_id toy_tokenizer ''[SOS]'' = Some 2"
  by (simp add: toy_tokenizer_def)

lemma toy_eos [simp]: "token_to_id toy_tokenizer ''[EOS]'' = Some 3"
  by (simp add: toy_tokenizer_def)

lemma toy_run_3_10:
  "greedy_decode (toy_model 3) [[4]] [[True]] toy_tokenizer toy_tokenizer 10 w0 =
     Some (Inr [2, 4, 4, 3],
       \<lparr>grad_enabled = True, trace = map (Pair True)
         [Encode [[4]] [[True]],
          Decode [[4]] [[True]] [[2]] [causal_mask 1], Projection [1],
          Decode [[4]] [[True]] [[2, 4]] [causal_mask 2], Projection [2],
          Decode [[4]] [[True]] [[2, 4, 4]] [causal_mask 3], Projection [3],
          Break_eos]\<rparr>)"
  by (simp add: greedy_decode_unfold fill_float32_exact greedy_loop.simps toy_step w0_def emit_def
      eval_nat_numeral)


lemma toy_run_1_2:
  "greedy_decode (toy_model 1) [[4]] [[True]] toy_tokenizer toy_tokenizer 2 w0 =
     Some (Inr [2, 3],
       \<lparr>grad_enabled = True, trace = map (Pair True)
         [Encode [[4]] [[True]],
          Decode [[4]] [[True]] [[2]] [causal_mask 1], Projection [1],
          Break_eos]\<rparr>)"
  by (simp add: greedy_decode_unfold fill_float32_exact greedy_loop.simps toy_step w0_def emit_def
      eval_nat_numeral)


lemma tie_encode [simp]: "encode tie_model s k = s"
  by (simp add: encode_def tie_model_def)

lemma tie_step: "d \<noteq> [] \<Longrightarrow> decode_step tie_model e k d v =
   (Inr 0, emit (Projection [length d]) (emit (Decode e k [d] [causal_mask (length d)]) v))"
  by (cases d) (simp_all add: decode_step_def decode_def projection_def tie_model_def
      select_last_def torch_max_def Let_def)

lemma tie_run_3:
  "greedy_decode tie_model [[4]] [[True]] toy_tokenizer toy_tokenizer 3 w0 =
     Some (Inr [2, 0, 0],
       \<lparr>grad_enabled = True, trace = map (Pair True)
         [Encode [[4]] [[True]],
          Decode [[4]] [[True]] [[2]] [causal_mask 1], Projection [1],
          Decode [[4]] [[True]] [[2, 0]] [causal_mask 2], Projection [2],
          Break_max_len]\<rparr>)"
  by (simp add: greedy_decode_unfold fill_float32_exact greedy_loop.simps tie_step w0_def emit_def
      eval_nat_numeral)

lemma bit_length_high: "bit_length 16777217 = 25"
  by (simp add: bit_length.simps)

lemma fill_float32_high: "fill_float32 16777217 = Inr 16777216"
  by (simp add: fill_float32_def float32_round_def bit_length_high Let_def)

lemma high_sos [simp]: "token_to_id high_sos_tokenizer ''[SOS]'' = Some 16777217"
  by (simp add: high_sos_tokenizer_def)

lemma high_eos [simp]: "token_to_id high_sos_tokenizer ''[EOS]'' = Some 3"
  by (simp add: high_sos_tokenizer_def)

lemma high_sos_run:
  "greedy_decode (toy_model 1) [[4]] [[True]] toy_tokenizer high_sos_tokenizer 2 w0 =
     Some (Inr [16777216, 3],
       \<lparr>grad_enabled = True, trace = map (Pair True)
         [Encode [[4]] [[True]],
          Decode [[4]] [[True]] [[16777216]] [causal_mask 1], Projection [1],
          Break_eos]\<rparr>)"
  by (simp add: greedy_decode_unfold fill_float32_high greedy_loop.simps toy_step w0_def emit_def
      eval_nat_numeral)

lemma toy_training [simp]: "toy_model n\<lparr>training := True\<rparr> = toy_model n"
  by (simp add: toy_model_def)

lemma toy_eval_encode [simp]: "encode (toy_model n\<lparr>training := f\<rparr>) s k = s"
  by (simp add: encode_def toy_model_def)

lemma toy_eval_step: "d \<noteq> [] \<Longrightarrow> decode_step (toy_model n\<lparr>training := f\<rparr>) e k d v =
   (Inr (if length d < n then 4 else 3),
    emit (Projection [length d]) (emit (Decode e k [d] [causal_mask (length d)]) v))"
  by (cases d) (simp_all add: decode_step_def decode_def projection_def toy_model_def
      select_last_def torch_max_def Let_def)

lemma toy_eval_body:
  "validation_body (toy_model (Suc 0)\<lparr>training := f\<rparr>) (toy_batch src s t) toy_tokenizer toy_tokenizer
     10 v =
   Some (Inr (),
     emit (Print_msg (''Predicted Text: __''))
       (emit (Print_msg (''Target Text: '' @ t))
       (emit (Print_msg (''Source Text: '' @ s))
       (emit (Print_msg (replicate 80 CHR ''-''))
       (emit (Print ''Decoded Text: __'')
       (emit (Print_model_out [2, 3])
       (emit Break_eos
       (emit (Projection [1])
       (emit (Decode [src] [map (\<lambda>x. x \<noteq> 1) src] [[2]] [causal_mask 1])
       (emit (Encode [src] [map (\<lambda>x. x \<noteq> 1) src]) v))))))))))"
  by (simp add: validation_body_def toy_batch_def greedy_decode_unfold fill_float32_exact
      greedy_loop.simps toy_eval_step toy_tokenizer_def Let_def)

section \<open>The causal mask\<close>

text \<open>
  C3. For every sequence length L (so for every L \<ge> 1), the causal mask is an L\<times>L
  boolean matrix: it has L rows, every row has L entries, and entry (i, j) is allowed if
  and only if j \<le> i. It is lower-triangular with the diagonal, and every position
  strictly above the diagonal is forbidden.
\<close>

theorem causal_mask_lower_triangular:
  "length (causal_mask L) = L \<and>
   (\<forall>i<L. length (causal_mask L ! i) = L \<and> (\<forall>j<L. causal_mask L ! i ! j = (j \<le> i)))"
  by (auto simp: causal_mask_def strictly_upper_def)

theorem causal_mask_lower_triangular_witness:
  "length (causal_mask 3) = 3 \<and> length (causal_mask 3 ! 1) = 3 \<and>
   causal_mask 3 ! 1 ! 0 \<and> causal_mask 3 ! 1 ! 1 \<and> \<not> causal_mask 3 ! 1 ! 2"
  using causal_mask_lower_triangular[of 3] by simp

section \<open>Termination of greedy decoding\<close>





section \<open>A first answer that is the end marker\<close>

text \<open>
  \<open>torch.max\<close> gives the first index at which the row is greatest: an index that is
  greatest and has only smaller values before it.
\<close>

lemma max_from_first:
  assumes "i < k" "v = row ! i" "xs = drop k row" "k \<le> length row"
    "\<forall>j<k. row ! j \<le> row ! i" "\<forall>j<i. row ! j < row ! i"
  shows "\<exists>i'. max_from v i k xs = (row ! i', i') \<and> i' < length row \<and>
              (\<forall>j<length row. row ! j \<le> row ! i') \<and> (\<forall>j<i'. row ! j < row ! i')"
  using assms
proof (induction xs arbitrary: v i k)
  case Nil
  then have "k = length row" by simp
  with Nil show ?case by auto
next
  case (Cons x xs)
  from Cons.prems(3) have k: "k < length row"
    by (metis drop_all leI list.distinct(1))
  from Cons.prems(3) k have x: "x = row ! k" and xs: "xs = drop (Suc k) row"
    by (metis Cons_nth_drop_Suc list.inject)+
  show ?case
  proof (cases "v < x")
    case True
    have le: "\<forall>j<Suc k. row ! j \<le> row ! k"
      using Cons.prems(2,5) True x by (auto simp: less_Suc_eq intro: less_imp_le order.trans)
    have lt: "\<forall>j<k. row ! j < row ! k"
      using Cons.prems(2,5) True x by (auto intro: le_less_trans)
    from Cons.IH[of k "Suc k" x, OF _ x xs _ le lt] k True show ?thesis by simp
  next
    case False
    have le: "\<forall>j<Suc k. row ! j \<le> row ! i"
      using Cons.prems(2,5) False x by (auto simp: less_Suc_eq)
    from Cons.IH[of i "Suc k" v, OF _ Cons.prems(2) xs _ le Cons.prems(6)] Cons.prems(1) k False
    show ?thesis by simp
  qed
qed

lemma max_row_first:
  assumes "e < length row" "\<forall>j<length row. row ! j \<le> row ! e" "\<forall>j<e. row ! j < row ! e"
  shows "max_row row = (row ! e, e)"
proof (cases row)
  case Nil
  with assms show ?thesis by simp
next
  case (Cons x xs)
  have "\<exists>i'. max_from x 0 1 xs = (row ! i', i') \<and> i' < length row \<and>
              (\<forall>j<length row. row ! j \<le> row ! i') \<and> (\<forall>j<i'. row ! j < row ! i')"
    by (rule max_from_first) (simp_all add: Cons)
  then obtain i' where i': "max_from x 0 1 xs = (row ! i', i')" "i' < length row"
    "\<forall>j<length row. row ! j \<le> row ! i'" "\<forall>j<i'. row ! j < row ! i'"
    by blast
  have "i' = e"
  proof (rule ccontr)
    assume "i' \<noteq> e"
    then consider "i' < e" | "e < i'" by linarith
    then show False
    proof cases
      case 1
      with assms(3) i'(2,3) assms(1) show False by (meson not_le)
    next
      case 2
      with i'(4) assms(1,2) i'(2) show False by (meson not_le)
    qed
  qed
  with i'(1) Cons show ?thesis by simp
qed

text \<open>
  The claim has the logits attain their maximum at the id of \<open>[EOS]\<close>. They may attain
  it at a smaller id too, and that one is the answer of \<open>torch.max\<close>: on a network
  whose logits are greatest at the ids 0 and 3 alike, the decoder appends the id 0, does
  not stop at the test of line 44, and with \<open>max_len = 3\<close> returns \<open>[SOS, 0, 0]\<close>
  through the length test.
\<close>

theorem greedy_decode_eos_tie:
  "token_to_id toy_tokenizer ''[SOS]'' = Some 2 \<and> token_to_id toy_tokenizer ''[EOS]'' = Some 3 \<and>
   decode tie_model (encode tie_model [[4]] [[True]]) [[True]] [[2]] [causal_mask 1] = [[1]] \<and>
   projection tie_model 1 = [1, 0, 0, 1, 0] \<and>
   Max (set (projection tie_model 1)) = projection tie_model 1 ! 3 \<and>
   (2::int) \<le> 3 \<and>
   greedy_decode tie_model [[4]] [[True]] toy_tokenizer toy_tokenizer 3 w0 =
     Some (Inr [2, 0, 0],
       \<lparr>grad_enabled = True, trace = map (Pair True)
         [Encode [[4]] [[True]],
          Decode [[4]] [[True]] [[2]] [causal_mask 1], Projection [1],
          Decode [[4]] [[True]] [[2, 0]] [causal_mask 2], Projection [2],
          Break_max_len]\<rparr>)"
proof -
  have a: "decode tie_model (encode tie_model [[4]] [[True]]) [[True]] [[2]] [causal_mask 1] = [[1]]"
    by (simp add: decode_def tie_model_def)
  have b: "projection tie_model 1 = [1, 0, 0, 1, 0]"
    by (simp add: projection_def tie_model_def)
  have c: "Max (set (projection tie_model 1)) = projection tie_model 1 ! 3"
    unfolding b by simp
  show ?thesis using a b c tie_run_3 by simp
qed

text \<open>
  C4, amended. Let the id of \<open>[EOS]\<close> be the first index at which the logits that the
  network projects, at its first decoding step, for the last position are greatest (they
  are nowhere greater, and smaller at every smaller index); let the network answer that
  step with one sequence of positions, as it does on a single-sequence input; let line
  28 store the id of \<open>[SOS]\<close> unchanged; and let \<open>max_len \<ge> 2\<close>. Then
  \<open>greedy_decode\<close> returns exactly \<open>[SOS, EOS]\<close>, after one pass through the network,
  and leaves the loop through the test of line 44 (the last event is \<open>Break_eos\<close>): the
  length test of line 30 is made once, on a decoder input of length 1, and fails.
\<close>

theorem greedy_decode_eos_first:
  fixes w :: "('e, 'h) world"
  assumes sos: "token_to_id tokenizer_tgt ''[SOS]'' = Some sos"
    and stored: "fill_float32 sos = Inr sos"
    and eos: "token_to_id tokenizer_tgt ''[EOS]'' = Some (int e)"
    and out: "decode m (encode m source source_mask) source_mask [[sos]] [causal_mask 1] = [hs]"
             "hs \<noteq> []"
    and logits: "projection m (last hs) = row"
    and top: "e < length row" "\<forall>j<length row. row ! j \<le> row ! e" "\<forall>j<e. row ! j < row ! e"
    and len: "2 \<le> max_len"
  shows "greedy_decode m source source_mask tokenizer_src tokenizer_tgt max_len w =
           Some (Inr [sos, int e],
             emit Break_eos (emit (Projection [last hs])
               (emit (Decode (encode m source source_mask) source_mask [[sos]] [causal_mask 1])
                 (emit (Encode source source_mask) w))))"
proof -
  have "max_row row = (row ! e, e)" using top by (rule max_row_first)
  moreover have "row \<noteq> []" using top(1) by auto
  ultimately have "decode_step m (encode m source source_mask) source_mask [sos] u =
          (Inr e, emit (Projection [last hs])
             (emit (Decode (encode m source source_mask) source_mask [[sos]] [causal_mask 1]) u))"
    for u :: "('e, 'h) world"
    using out logits by (simp add: decode_step_def select_last_def torch_max_def Let_def)
  with sos stored eos len show ?thesis
    by (auto simp add: greedy_decode_unfold greedy_loop.simps)
qed

theorem greedy_decode_eos_first_witness:
  "token_to_id toy_tokenizer ''[SOS]'' = Some 2 \<and> fill_float32 2 = Inr 2 \<and>
   token_to_id toy_tokenizer ''[EOS]'' = Some (int 3) \<and>
   decode (toy_model 1) (encode (toy_model 1) [[4]] [[True]]) [[True]] [[2]] [causal_mask 1]
     = [[1]] \<and>
   projection (toy_model 1) (last [1]) = [0, 0, 0, 1, 0] \<and>
   (3::nat) < length [0, 0, 0, 1, 0 :: real] \<and>
   list_all (\<lambda>x. x \<le> [0, 0, 0, 1, 0 :: real] ! 3) [0, 0, 0, 1, 0] \<and>
   list_all (\<lambda>x. x < [0, 0, 0, 1, 0 :: real] ! 3) (take 3 [0, 0, 0, 1, 0]) \<and>
   (2::int) \<le> 5 \<and>
   greedy_decode (toy_model 1) [[4]] [[True]] toy_tokenizer toy_tokenizer 5 w0 =
     Some (Inr [2, 3],
       emit Break_eos (emit (Projection [1])
         (emit (Decode [[4]] [[True]] [[2]] [causal_mask 1])
           (emit (Encode [[4]] [[True]]) w0))))"
proof -
  have a: "decode (toy_model 1) (encode (toy_model 1) [[4]] [[True]]) [[True]] [[2]] [causal_mask 1]
             = [[1]]"
    by (simp add: decode_def toy_model_def)
  have b: "projection (toy_model 1) (last [1]) = [0, 0, 0, 1, 0]"
    by (simp add: projection_def toy_model_def)
  have c: "\<forall>j<length [0, 0, 0, 1, 0 :: real]. [0, 0, 0, 1, 0 :: real] ! j \<le> [0, 0, 0, 1, 0] ! 3"
    by (simp add: All_less_Suc eval_nat_numeral)
  have d: "\<forall>j<3. [0, 0, 0, 1, 0 :: real] ! j < [0, 0, 0, 1, 0] ! 3"
    by (simp add: All_less_Suc eval_nat_numeral)
  have f: "fill_float32 2 = Inr 2" by (simp add: fill_float32_exact)
  have g: "token_to_id toy_tokenizer ''[EOS]'' = Some (int 3)" by simp
  have "greedy_decode (toy_model 1) [[4]] [[True]] toy_tokenizer toy_tokenizer 5 w0 =
     Some (Inr [2, int 3],
       emit Break_eos (emit (Projection [last [1]])
         (emit (Decode (encode (toy_model 1) [[4]] [[True]]) [[True]] [[2]] [causal_mask 1])
           (emit (Encode [[4]] [[True]]) w0))))"
    using greedy_decode_eos_first[where m = "toy_model 1" and source = "[[4]]"
        and source_mask = "[[True]]" and tokenizer_tgt = toy_tokenizer and sos = 2 and e = 3
        and hs = "[1]" and row = "[0, 0, 0, 1, 0]" and max_len = 5
        and tokenizer_src = toy_tokenizer and w = w0, OF toy_sos f g a _ b _ c d]
    by simp
  then show ?thesis using a b f by simp
qed

section \<open>Where the start and end markers stand\<close>

text \<open>
  What holds of every sequence that \<open>greedy_decode\<close> returns: its first token is the
  id of \<open>[SOS]\<close> as line 28 stores it, and if that token is not the id of \<open>[EOS]\<close>,
  the id of \<open>[EOS]\<close> occurs at most once, and only as the last element.
\<close>

lemma greedy_decode_stored_sos_first:
  fixes w :: "('e, 'h) world"
  assumes run: "greedy_decode m source source_mask tokenizer_src tokenizer_tgt max_len w
                  = Some (Inr r, w')"
  shows "r \<noteq> [] \<and>
         (\<exists>sos. token_to_id tokenizer_tgt ''[SOS]'' = Some sos \<and> fill_float32 sos = Inr (hd r)) \<and>
         (Some (hd r) \<noteq> token_to_id tokenizer_tgt ''[EOS]'' \<longrightarrow>
            (\<forall>i<length r. Some (r ! i) = token_to_id tokenizer_tgt ''[EOS]'' \<longrightarrow> Suc i = length r) \<and>
            length (filter (\<lambda>t. Some t = token_to_id tokenizer_tgt ''[EOS]'') r) \<le> 1)"
proof -
  let ?eos = "token_to_id tokenizer_tgt ''[EOS]''"
  from greedy_decode_value[OF run] obtain sos first app where
    v: "token_to_id tokenizer_tgt ''[SOS]'' = Some sos" "fill_float32 sos = Inr first"
       "r = first # app" "\<forall>t\<in>set (butlast app). Some t \<noteq> ?eos"
    by blast
  have rest: "(\<forall>i<length r. Some (r ! i) = ?eos \<longrightarrow> Suc i = length r) \<and>
              length (filter (\<lambda>t. Some t = ?eos) r) \<le> 1"
    if ne: "Some (hd r) \<noteq> ?eos"
  proof -
    have bl: "\<forall>t\<in>set (butlast r). Some t \<noteq> ?eos"
      using v ne by (cases app) auto
    have idx: "Suc i = length r" if "i < length r" "Some (r ! i) = ?eos" for i
    proof (rule ccontr)
      assume "Suc i \<noteq> length r"
      with that(1) have "i < length (butlast r)" by simp
      then have "butlast r ! i \<in> set (butlast r)" by (rule nth_mem)
      moreover have "butlast r ! i = r ! i"
        using \<open>i < length (butlast r)\<close> by (simp add: nth_butlast)
      ultimately show False using bl that(2) by auto
    qed
    have "r = butlast r @ [last r]" using v(3) by simp
    then have "filter (\<lambda>t. Some t = ?eos) r = filter (\<lambda>t. Some t = ?eos) (butlast r @ [last r])"
      by simp
    also have "\<dots> = filter (\<lambda>t. Some t = ?eos) [last r]"
      using bl by (simp add: filter_empty_conv)
    finally have "length (filter (\<lambda>t. Some t = ?eos) r) \<le> 1" by simp
    with idx show ?thesis by auto
  qed
  from v rest show ?thesis by auto
qed

text \<open>
  C10. The claim has the returned sequence begin with the id of \<open>[SOS]\<close>. Line 28 fills
  a float32 tensor with that id and casts it to the dtype of the source afterwards, where
  line 42 casts first and fills then. On a vocabulary that gives \<open>[SOS]\<close> the id
  \<open>2 ^ 24 + 1 = 16777217\<close> the tensor holds \<open>16777216\<close>: the sequence that the decoder
  returns, on a network whose first answer is \<open>[EOS]\<close>, is \<open>[16777216, 3]\<close>, and its
  first token is not the id of \<open>[SOS]\<close>.
\<close>

theorem greedy_decode_rounds_sos:
  "token_to_id high_sos_tokenizer ''[SOS]'' = Some 16777217 \<and>
   fill_float32 16777217 = Inr 16777216 \<and>
   greedy_decode (toy_model 1) [[4]] [[True]] toy_tokenizer high_sos_tokenizer 2 w0 =
     Some (Inr [16777216, 3],
       \<lparr>grad_enabled = True, trace = map (Pair True)
         [Encode [[4]] [[True]],
          Decode [[4]] [[True]] [[16777216]] [causal_mask 1], Projection [1],
          Break_eos]\<rparr>) \<and>
   Some (hd [16777216 :: token, 3]) \<noteq> token_to_id high_sos_tokenizer ''[SOS]''"
  using high_sos_run fill_float32_high by simp

section \<open>One call of the encoder\<close>

text \<open>
  C7. In every call of \<open>greedy_decode\<close> that returns, \<open>model.encode\<close> is called
  exactly once, as the first event of the call and so before the loop, and every call of
  \<open>model.decode\<close> is given the result of that call as its encoder state. The
  entry point \<open>encode\<close> being a function of the parameters and its arguments, the
  outcome of \<open>greedy_decode\<close> (the sequence, the exception, or no return) is that of the
  variant that calls \<open>encode\<close> again at every step.
\<close>

theorem greedy_decode_encodes_once:
  fixes w u :: "('e, 'h) world"
  shows "(\<forall>res w'.
            greedy_decode m source source_mask tokenizer_src tokenizer_tgt max_len w = Some (res, w')
            \<longrightarrow> encode_calls (new_events w w') = [(source, source_mask)] \<and>
                (\<exists>evs. new_events w w' = (grad_enabled w, Encode source source_mask) # evs \<and>
                   (\<forall>x\<in>set evs. \<not> is_Encode (snd x) \<and>
                                 decode_uses (encode m source source_mask) (snd x)))) \<and>
         map_option fst (greedy_decode m source source_mask tokenizer_src tokenizer_tgt max_len w) =
         map_option fst
           (greedy_decode_recompute m source source_mask tokenizer_src tokenizer_tgt max_len u)"
proof (intro conjI allI impI)
  fix res w'
  assume run: "greedy_decode m source source_mask tokenizer_src tokenizer_tgt max_len w
                 = Some (res, w')"
  from greedy_decode_world[OF run] obtain evs where
    tr: "trace w' = trace w @ map (Pair (grad_enabled w)) (Encode source source_mask # evs)"
    and le: "\<forall>ev\<in>set evs. loop_event (encode m source source_mask) source_mask ev"
    by blast
  from tr have ne: "new_events w w' =
      (grad_enabled w, Encode source source_mask) # map (Pair (grad_enabled w)) evs"
    by (simp add: new_events_def)
  show "encode_calls (new_events w w') = [(source, source_mask)]"
    using ne loop_events_calls[OF le] by simp
  have "\<forall>x\<in>set (map (Pair (grad_enabled w)) evs).
          \<not> is_Encode (snd x) \<and> decode_uses (encode m source source_mask) (snd x)"
    using le loop_event_kind by fastforce
  with ne show "\<exists>evs. new_events w w' = (grad_enabled w, Encode source source_mask) # evs \<and>
       (\<forall>x\<in>set evs. \<not> is_Encode (snd x) \<and> decode_uses (encode m source source_mask) (snd x))"
    by blast
next
  show "map_option fst (greedy_decode m source source_mask tokenizer_src tokenizer_tgt max_len w) =
        map_option fst
          (greedy_decode_recompute m source source_mask tokenizer_src tokenizer_tgt max_len u)"
    by (rule greedy_decode_recompute_value)
qed

theorem greedy_decode_encodes_once_witness:
  "encode_calls (new_events w0
     \<lparr>grad_enabled = True, trace = map (Pair True)
         [Encode [[4]] [[True]],
          Decode [[4]] [[True]] [[2]] [causal_mask 1], Projection [1],
          Decode [[4]] [[True]] [[2, 4]] [causal_mask 2], Projection [2],
          Decode [[4]] [[True]] [[2, 4, 4]] [causal_mask 3], Projection [3],
          Break_eos]\<rparr>) = [([[4]], [[True]])] \<and>
   map_option fst
     (greedy_decode_recompute (toy_model 3) [[4]] [[True]] toy_tokenizer toy_tokenizer 10 w0)
     = Some (Inr [2, 4, 4, 3])"
  using greedy_decode_encodes_once[of "toy_model 3" "[[4]]" "[[True]]" toy_tokenizer
      toy_tokenizer 10 w0 w0] toy_run_3_10
  by simp

section \<open>Properties of the validation loop\<close>

lemma greedy_decode_calls:
  fixes w :: "('e, 'h) world"
  assumes run: "greedy_decode m s k ts tt L w = Some (res, w')"
  shows "grad_enabled w' = grad_enabled w \<and>
         (\<exists>evs. trace w' = trace w @ map (Pair (grad_enabled w)) evs \<and>
                encode_calls (map (Pair (grad_enabled w)) evs) = [(s, k)] \<and>
                printed_msgs (map (Pair (grad_enabled w)) evs) = [])"
proof -
  from greedy_decode_world[OF run] obtain evs where
    g: "grad_enabled w' = grad_enabled w"
    and tr: "trace w' = trace w @ map (Pair (grad_enabled w)) (Encode s k # evs)"
    and le: "\<forall>ev\<in>set evs. loop_event (encode m s k) k ev"
    by blast
  from loop_events_calls[OF le, of "grad_enabled w"]
  have "encode_calls (map (Pair (grad_enabled w)) (Encode s k # evs)) = [(s, k)]"
       "printed_msgs (map (Pair (grad_enabled w)) (Encode s k # evs)) = []"
    by simp_all
  with g tr show ?thesis by blast
qed

lemma validation_body_world:
  fixes w :: "('e, 'h) world"
  assumes run: "validation_body m b ts tt L w = Some (res, w')"
  shows "grad_enabled w' = grad_enabled w \<and>
         (\<exists>evs. trace w' = trace w @ map (Pair (grad_enabled w)) evs)"
proof (cases "length (batch_encoder_input b) = 1")
  case False
  with run have "w' = w" by (simp add: validation_body_def)
  then show ?thesis by (intro conjI exI[of _ "[]"]) simp_all
next
  case True
  with run obtain r w1 where
    gd: "greedy_decode m (batch_encoder_input b) (batch_encoder_mask b) ts tt L w = Some (r, w1)"
    by (auto simp: validation_body_def split: option.splits)
  from greedy_decode_calls[OF gd] obtain evs where
    g1: "grad_enabled w1 = grad_enabled w"
    and t1: "trace w1 = trace w @ map (Pair (grad_enabled w)) evs" by blast
  have "\<exists>evs'. trace w' = trace w @ map (Pair (grad_enabled w)) (evs @ evs') \<and>
          grad_enabled w' = grad_enabled w"
  proof (cases r)
    case (Inl e)
    with run True gd have "w' = w1" by (simp add: validation_body_def)
    with g1 t1 show ?thesis by (intro exI[of _ "[]"]) simp
  next
    case (Inr out)
    show ?thesis
    proof (cases "batch_src_text b = [] \<or> batch_tgt_text b = []")
      case True
      with run \<open>length (batch_encoder_input b) = 1\<close> gd Inr
      have "w' = emit (Print_model_out out) w1"
        by (auto simp: validation_body_def Let_def split: list.splits)
      with g1 t1 show ?thesis by (intro exI[of _ "[Print_model_out out]"]) simp
    next
      case False
      then obtain s ss t tts where st: "batch_src_text b = s # ss" "batch_tgt_text b = t # tts"
        by (cases "batch_src_text b"; cases "batch_tgt_text b") auto
      with run \<open>length (batch_encoder_input b) = 1\<close> gd Inr
      have "w' = emit (Print_msg (''Predicted Text: '' @ decode_ids tt out))
                  (emit (Print_msg (''Target Text: '' @ t))
                  (emit (Print_msg (''Source Text: '' @ s))
                  (emit (Print_msg (replicate 80 CHR ''-''))
                  (emit (Print (''Decoded Text: '' @ decode_ids tt out))
                  (emit (Print_model_out out) w1)))))"
        by (simp add: validation_body_def Let_def)
      with g1 t1 show ?thesis
        by (intro exI[of _ "[Print_model_out out, Print (''Decoded Text: '' @ decode_ids tt out),
              Print_msg (replicate 80 CHR ''-''), Print_msg (''Source Text: '' @ s),
              Print_msg (''Target Text: '' @ t),
              Print_msg (''Predicted Text: '' @ decode_ids tt out)]"]) simp
    qed
  qed
  then obtain evs' where "trace w' = trace w @ map (Pair (grad_enabled w)) (evs @ evs')"
    "grad_enabled w' = grad_enabled w" by blast
  then show ?thesis by blast
qed

lemma validation_body_success:
  fixes w :: "('e, 'h) world"
  assumes run: "validation_body m b ts tt L w = Some (Inr u, w')"
  shows "length (batch_encoder_input b) = 1 \<and> batch_src_text b \<noteq> [] \<and> batch_tgt_text b \<noteq> [] \<and>
         (\<exists>out w1 evs.
            greedy_decode m (batch_encoder_input b) (batch_encoder_mask b) ts tt L w
              = Some (Inr out, w1) \<and>
            trace w' = trace w @ evs \<and>
            encode_calls evs = [(batch_encoder_input b, batch_encoder_mask b)] \<and>
            printed_msgs evs = report b (decode_ids tt out))"
proof -
  have one: "length (batch_encoder_input b) = 1"
    using run by (auto simp: validation_body_def Let_def split: if_splits)
  with run obtain out w1 where
    gd: "greedy_decode m (batch_encoder_input b) (batch_encoder_mask b) ts tt L w
           = Some (Inr out, w1)"
    by (auto simp: validation_body_def split: option.splits sum.splits)
  from run one gd obtain s ss t tts where
    st: "batch_src_text b = s # ss" "batch_tgt_text b = t # tts"
    by (auto simp: validation_body_def Let_def split: list.splits)
  with run one gd
  have w': "w' = emit (Print_msg (''Predicted Text: '' @ decode_ids tt out))
                  (emit (Print_msg (''Target Text: '' @ t))
                  (emit (Print_msg (''Source Text: '' @ s))
                  (emit (Print_msg (replicate 80 CHR ''-''))
                  (emit (Print (''Decoded Text: '' @ decode_ids tt out))
                  (emit (Print_model_out out) w1)))))"
    by (simp add: validation_body_def Let_def)
  from greedy_decode_calls[OF gd] obtain evs where
    g1: "grad_enabled w1 = grad_enabled w"
    and t1: "trace w1 = trace w @ map (Pair (grad_enabled w)) evs"
    and e1: "encode_calls (map (Pair (grad_enabled w)) evs)
               = [(batch_encoder_input b, batch_encoder_mask b)]"
    and p1: "printed_msgs (map (Pair (grad_enabled w)) evs) = []"
    by blast
  let ?evs = "map (Pair (grad_enabled w)) evs @
     map (Pair (grad_enabled w)) [Print_model_out out, Print (''Decoded Text: '' @ decode_ids tt out),
              Print_msg (replicate 80 CHR ''-''), Print_msg (''Source Text: '' @ s),
              Print_msg (''Target Text: '' @ t),
              Print_msg (''Predicted Text: '' @ decode_ids tt out)]"
  have tr: "trace w' = trace w @ ?evs" using w' g1 t1 by simp
  have ec: "encode_calls ?evs = [(batch_encoder_input b, batch_encoder_mask b)]"
    using e1 by simp
  have pm: "printed_msgs ?evs = report b (decode_ids tt out)"
    using p1 st by (simp add: report_def)
  show ?thesis
  proof (intro conjI exI)
    show "length (batch_encoder_input b) = 1" by fact
    show "batch_src_text b \<noteq> []" "batch_tgt_text b \<noteq> []" using st by simp_all
    show "greedy_decode m (batch_encoder_input b) (batch_encoder_mask b) ts tt L w
            = Some (Inr out, w1)" by fact
    show "trace w' = trace w @ ?evs" by fact
    show "encode_calls ?evs = [(batch_encoder_input b, batch_encoder_mask b)]" by fact
    show "printed_msgs ?evs = report b (decode_ids tt out)" by fact
  qed
qed

lemma validation_body_returns:
  assumes "1 \<le> L"
  shows "\<exists>y. validation_body m b ts tt L w = Some y"
proof -
  from greedy_decode_returns[OF assms] obtain r w1 where
    "greedy_decode m (batch_encoder_input b) (batch_encoder_mask b) ts tt L w = Some (r, w1)"
    by (metis surj_pair)
  then show ?thesis
    by (cases r) (simp_all add: validation_body_def Let_def split: list.splits)
qed

lemma babbler_eval_step: "d \<noteq> [] \<Longrightarrow> decode_step (babbler\<lparr>training := f\<rparr>) e k d v =
   (Inr 4, emit (Projection [length d]) (emit (Decode e k [d] [causal_mask (length d)]) v))"
  by (cases d) (simp_all add: decode_step_def decode_def projection_def babbler_def
      select_last_def torch_max_def Let_def)

lemma babbler_eval_never_returns:
  "validation_body (babbler\<lparr>training := f\<rparr>) (toy_batch src s t) toy_tokenizer toy_tokenizer 0 v
     = None"
proof -
  have "greedy_loop (babbler\<lparr>training := f\<rparr>) enc k (Some 3) 0 [2] u = None"
    for enc k and u :: "(ids, nat) world"
    by (rule greedy_loop_diverges) (simp_all add: babbler_eval_step)
  then show ?thesis
    by (simp add: validation_body_def toy_batch_def greedy_decode_unfold fill_float32_exact)
qed

lemma validation_body_assert:
  "length (batch_encoder_input b) \<noteq> 1 \<Longrightarrow>
     validation_body m b ts tt L w = Some (Inl AssertionError, w)"
  by (simp add: validation_body_def)

lemma validation_loop_world:
  fixes w :: "('e, 'h) world"
  assumes "validation_loop m bs ts tt L n c w = Some (res, w')"
  shows "grad_enabled w' = grad_enabled w \<and>
         (\<exists>evs. trace w' = trace w @ map (Pair (grad_enabled w)) evs)"
  using assms
proof (induction bs arbitrary: c w)
  case Nil
  then have "w' = w" by simp
  then show ?case by (intro conjI exI[of _ "[]"]) simp_all
next
  case (Cons b bs)
  from Cons.prems obtain r w1 where
    vb: "validation_body m b ts tt L w = Some (r, w1)"
    by (auto split: option.splits)
  from validation_body_world[OF vb] obtain evs where
    g1: "grad_enabled w1 = grad_enabled w"
    and t1: "trace w1 = trace w @ map (Pair (grad_enabled w)) evs" by blast
  have "w' = w1 \<or> validation_loop m bs ts tt L n (c + 1) w1 = Some (res, w')"
    using Cons.prems vb by (auto split: sum.splits if_splits)
  then show ?case
  proof
    assume "w' = w1"
    with g1 t1 show ?thesis by blast
  next
    assume "validation_loop m bs ts tt L n (c + 1) w1 = Some (res, w')"
    from Cons.IH[OF this] obtain evs' where
      "grad_enabled w' = grad_enabled w1" "trace w' = trace w1 @ map (Pair (grad_enabled w1)) evs'"
      by blast
    with g1 t1 have "grad_enabled w' = grad_enabled w"
      "trace w' = trace w @ map (Pair (grad_enabled w)) (evs @ evs')" by simp_all
    then show ?thesis by blast
  qed
qed


lemma validation_loop_processes:
  fixes w :: "('e, 'h) world"
  assumes "c < n" and "nat (n - c) \<le> length bs"
    and ok: "\<forall>b\<in>set (take (nat (n - c)) bs). \<forall>v. \<exists>v'. validation_body m b ts tt L v = Some (Inr (), v')"
  shows "\<exists>w' evs outs.
           validation_loop m bs ts tt L n c w = Some (Inr (n, drop (nat (n - c)) bs), w') \<and>
           validation_loop m (take (nat (n - c)) bs) ts tt L n c w = Some (Inr (n, []), w') \<and>
           trace w' = trace w @ evs \<and>
           encode_calls evs =
             map (\<lambda>b. (batch_encoder_input b, batch_encoder_mask b)) (take (nat (n - c)) bs) \<and>
           length outs = nat (n - c) \<and>
           printed_msgs evs =
             concat (map2 (\<lambda>b out. report b (decode_ids tt out)) (take (nat (n - c)) bs) outs) \<and>
           list_all2 (\<lambda>b out. \<exists>v v'. greedy_decode m (batch_encoder_input b)
                        (batch_encoder_mask b) ts tt L v = Some (Inr out, v'))
             (take (nat (n - c)) bs) outs"
  using assms
proof (induction bs arbitrary: c w)
  case Nil
  then show ?case by simp
next
  case (Cons b bs)
  let ?k = "nat (n - c)"
  from Cons.prems(1) obtain k' where k: "?k = Suc k'" by (cases ?k) auto
  have tk: "take ?k (b # bs) = b # take k' bs" "drop ?k (b # bs) = drop k' bs"
    using k by simp_all
  from Cons.prems(3) tk obtain w1 where vb: "validation_body m b ts tt L w = Some (Inr (), w1)"
    by fastforce
  from validation_body_success[OF vb] obtain out v1 evs1 where
    gd: "greedy_decode m (batch_encoder_input b) (batch_encoder_mask b) ts tt L w
           = Some (Inr out, v1)"
    and t1: "trace w1 = trace w @ evs1"
    and e1: "encode_calls evs1 = [(batch_encoder_input b, batch_encoder_mask b)]"
    and p1: "printed_msgs evs1 = report b (decode_ids tt out)"
    by blast
  show ?case
  proof (cases "c + 1 = n")
    case True
    then have k0: "k' = 0" using k by simp
    have l1: "validation_loop m (b # bs) ts tt L n c w = Some (Inr (n, drop ?k (b # bs)), w1)"
      using vb True tk k0 by simp
    have l2: "validation_loop m (take ?k (b # bs)) ts tt L n c w = Some (Inr (n, []), w1)"
      using vb True tk k0 by simp
    show ?thesis
    proof (intro exI conjI)
      show "validation_loop m (b # bs) ts tt L n c w = Some (Inr (n, drop ?k (b # bs)), w1)"
        by fact
      show "validation_loop m (take ?k (b # bs)) ts tt L n c w = Some (Inr (n, []), w1)" by fact
      show "trace w1 = trace w @ evs1" by fact
      show "encode_calls evs1 =
              map (\<lambda>b. (batch_encoder_input b, batch_encoder_mask b)) (take ?k (b # bs))"
        using e1 tk k0 by simp
      show "length [out] = ?k" using k k0 by simp
      show "printed_msgs evs1 =
              concat (map2 (\<lambda>b out. report b (decode_ids tt out)) (take ?k (b # bs)) [out])"
        using p1 tk k0 by simp
      show "list_all2 (\<lambda>b out. \<exists>v v'. greedy_decode m (batch_encoder_input b)
                        (batch_encoder_mask b) ts tt L v = Some (Inr out, v'))
             (take ?k (b # bs)) [out]"
        using gd tk k0 by auto
    qed
  next
    case False
    with Cons.prems(1) have lt: "c + 1 < n" by simp
    have k': "nat (n - (c + 1)) = k'" using k by simp
    have le: "nat (n - (c + 1)) \<le> length bs" using Cons.prems(2) k k' by simp
    have ok': "\<forall>b\<in>set (take (nat (n - (c + 1))) bs). \<forall>v. \<exists>v'.
                 validation_body m b ts tt L v = Some (Inr (), v')"
      using Cons.prems(3) tk k' by simp
    from Cons.IH[OF lt le ok', of w1] obtain w' evs outs where
      r1: "validation_loop m bs ts tt L n (c + 1) w1 = Some (Inr (n, drop k' bs), w')"
      and r2: "validation_loop m (take k' bs) ts tt L n (c + 1) w1 = Some (Inr (n, []), w')"
      and t2: "trace w' = trace w1 @ evs"
      and e2: "encode_calls evs =
                 map (\<lambda>b. (batch_encoder_input b, batch_encoder_mask b)) (take k' bs)"
      and lo: "length outs = k'"
      and p2: "printed_msgs evs =
                 concat (map2 (\<lambda>b out. report b (decode_ids tt out)) (take k' bs) outs)"
      and a2: "list_all2 (\<lambda>b out. \<exists>v v'. greedy_decode m (batch_encoder_input b)
                        (batch_encoder_mask b) ts tt L v = Some (Inr out, v'))
             (take k' bs) outs"
      unfolding k' by blast
    show ?thesis
    proof (intro exI conjI)
      show "validation_loop m (b # bs) ts tt L n c w = Some (Inr (n, drop ?k (b # bs)), w')"
        using vb False r1 tk by simp
      show "validation_loop m (take ?k (b # bs)) ts tt L n c w = Some (Inr (n, []), w')"
        using vb False r2 tk by simp
      show "trace w' = trace w @ (evs1 @ evs)" using t1 t2 by simp
      show "encode_calls (evs1 @ evs) =
              map (\<lambda>b. (batch_encoder_input b, batch_encoder_mask b)) (take ?k (b # bs))"
        using e1 e2 tk by simp
      show "length (out # outs) = ?k" using lo k by simp
      show "printed_msgs (evs1 @ evs) =
              concat (map2 (\<lambda>b out. report b (decode_ids tt out)) (take ?k (b # bs)) (out # outs))"
        using p1 p2 tk by simp
      show "list_all2 (\<lambda>b out. \<exists>v v'. greedy_decode m (batch_encoder_input b)
                        (batch_encoder_mask b) ts tt L v = Some (Inr out, v'))
             (take ?k (b # bs)) (out # outs)"
        using gd a2 tk by auto
    qed
  qed
qed

lemma validation_loop_append:
  fixes w :: "('e, 'h) world"
  assumes "validation_loop m good ts tt L n c w = Some (Inr r, w')"
    and "n \<le> c \<or> c + int (length good) < n"
  shows "validation_loop m (good @ xs) ts tt L n c w =
         validation_loop m xs ts tt L n (c + int (length good)) w'"
  using assms
proof (induction good arbitrary: c w)
  case Nil
  then show ?case by simp
next
  case (Cons b good)
  from Cons.prems(1) obtain u w1 where vb: "validation_body m b ts tt L w = Some (Inr u, w1)"
    by (auto split: option.splits sum.splits)
  have ne: "c + 1 \<noteq> n" using Cons.prems(2) by auto
  with Cons.prems(1) vb have r: "validation_loop m good ts tt L n (c + 1) w1 = Some (Inr r, w')"
    by simp
  have "n \<le> c + 1 \<or> (c + 1) + int (length good) < n" using Cons.prems(2) by auto
  from Cons.IH[OF r this]
  have "validation_loop m (good @ xs) ts tt L n (c + 1) w1 =
        validation_loop m xs ts tt L n (c + 1 + int (length good)) w'" .
  moreover have "c + 1 + int (length good) = c + int (length (b # good))" by simp
  ultimately show ?case using vb ne by simp
qed

lemma chunks_Nil [simp]: "chunks n [] = []"
  by (simp add: chunks.simps)

lemma chunks_one_Cons [simp]: "chunks (Suc 0) (x # xs) = [x] # chunks (Suc 0) xs"
  by (subst chunks.simps) simp

lemma chunks_one: "c \<in> set (chunks 1 xs) \<Longrightarrow> length c = 1"
  by (induction xs) auto

lemma run_validation_unfold:
  "run_validation m ds ts tt L n w =
     (case validation_loop (m\<lparr>training := False\<rparr>) ds ts tt L n 0 (w\<lparr>grad_enabled := False\<rparr>) of
        None \<Rightarrow> None
      | Some (res, w') \<Rightarrow>
          Some (map_sum id (\<lambda>r. ()) res, m\<lparr>training := False\<rparr>,
                w'\<lparr>grad_enabled := grad_enabled w\<rparr>))"
proof (cases "validation_loop (m\<lparr>training := False\<rparr>) ds ts tt L n 0 (w\<lparr>grad_enabled := False\<rparr>)")
  case None
  then show ?thesis by (simp add: run_validation_def)
next
  case (Some y)
  obtain res w' where y: "y = (res, w')" by (cases y)
  show ?thesis using Some y by (cases res) (simp_all add: run_validation_def)
qed


lemma DataLoader_one:
  "ds \<noteq> [] \<Longrightarrow> DataLoader ds 1 sh = Inr \<lparr>loader_dataset = ds, loader_batch_size = 1, loader_shuffle = sh\<rparr>"
  by (simp add: DataLoader_def)

lemma iterate_one:
  assumes "loader_batch_size dl = 1" and "b \<in> set (iterate dl order)"
  shows "length (batch_encoder_input b) = 1"
proof -
  from assms obtain c where
    c: "c \<in> set (chunks 1 (if loader_shuffle dl then order (loader_dataset dl)
                            else loader_dataset dl))" "b = collate c"
    by (auto simp: iterate_def)
  from chunks_one[OF c(1)] c(2) show ?thesis by (simp add: collate_def)
qed

section \<open>How many batches a validation run takes\<close>

text \<open>
  With \<open>num_examples = 0\<close> the test of line 94 never succeeds, \<open>count\<close> being 1 at
  least when it is made: the run takes every batch of the loader. Here the decoder is
  called on both batches. And with \<open>max_len = 0\<close> (and \<open>num_examples = 1\<close>) the run
  need not halt at all: on a network that never answers \<open>[EOS]\<close> the decoding of the
  first batch does not return, though no batch raises.
\<close>

theorem run_validation_zero_examples:
  "map_option (encode_calls \<circ> trace \<circ> snd \<circ> snd)
     (run_validation (toy_model 1) [toy_batch [4] ''a'' ''b'', toy_batch [4, 4] ''c'' ''d'']
        toy_tokenizer toy_tokenizer 10 0 w0)
   = Some [([[4]], [[True]]), ([[4, 4]], [[True, True]])] \<and>
   run_validation babbler [toy_batch [4] ''a'' ''b'', toy_batch [4, 4] ''c'' ''d'']
     toy_tokenizer toy_tokenizer 0 1 w0 = None"
  by (simp add: run_validation_unfold toy_eval_body babbler_eval_never_returns w0_def emit_def)

text \<open>
  C6, for \<open>num_examples = n \<ge> 1\<close> and \<open>max_len \<ge> 1\<close>. Over a loader that yields \<open>n\<close>
  batches at least, none of the first \<open>n\<close> raising an exception, \<open>run_validation\<close>
  returns, normally, and has taken exactly the first \<open>n\<close> batches: the loop ends with
  \<open>count = n\<close> and leaves the batches after the \<open>n\<close>-th in the loader; the run is the
  run on the first \<open>n\<close> batches alone; the encoder calls of the run are those of the
  first \<open>n\<close> batches, one for each, in order; and the lines handed to \<open>print_msg\<close>
  are, for each of these batches in order, the rule, the source text, the target text
  and the text decoded from what the greedy decoder returned for that batch.
\<close>

theorem run_validation_processes_n:
  fixes w :: "('e, 'h) world"
  assumes n: "1 \<le> n" "nat n \<le> length bs"
    and L: "1 \<le> L"
    and ok: "\<forall>b\<in>set (take (nat n) bs). \<forall>v e v'.
               validation_body (m\<lparr>training := False\<rparr>) b tokenizer_src tokenizer_tgt L v
                 \<noteq> Some (Inl e, v')"
  shows "\<exists>w' v outs.
           run_validation m bs tokenizer_src tokenizer_tgt L n w
             = Some (Inr (), m\<lparr>training := False\<rparr>, w') \<and>
           run_validation m (take (nat n) bs) tokenizer_src tokenizer_tgt L n w
             = Some (Inr (), m\<lparr>training := False\<rparr>, w') \<and>
           validation_loop (m\<lparr>training := False\<rparr>) bs tokenizer_src tokenizer_tgt L n 0
               (w\<lparr>grad_enabled := False\<rparr>)
             = Some (Inr (n, drop (nat n) bs), v) \<and>
           w' = v\<lparr>grad_enabled := grad_enabled w\<rparr> \<and>
           encode_calls (new_events w w') =
             map (\<lambda>b. (batch_encoder_input b, batch_encoder_mask b)) (take (nat n) bs) \<and>
           length outs = nat n \<and>
           printed_msgs (new_events w w') =
             concat (map2 (\<lambda>b out. report b (decode_ids tokenizer_tgt out)) (take (nat n) bs) outs) \<and>
           list_all2 (\<lambda>b out. \<exists>v v'. greedy_decode (m\<lparr>training := False\<rparr>)
                        (batch_encoder_input b) (batch_encoder_mask b)
                        tokenizer_src tokenizer_tgt L v = Some (Inr out, v'))
             (take (nat n) bs) outs"
proof -
  let ?m = "m\<lparr>training := False\<rparr>"
  let ?w = "w\<lparr>grad_enabled := False\<rparr>"
  have c: "(0::int) < n" "nat (n - 0) \<le> length bs" using n by simp_all
  have ok0: "\<forall>b\<in>set (take (nat (n - 0)) bs). \<forall>v. \<exists>v'.
               validation_body ?m b tokenizer_src tokenizer_tgt L v = Some (Inr (), v')"
  proof (intro ballI allI)
    fix b and v :: "('e, 'h) world"
    assume b: "b \<in> set (take (nat (n - 0)) bs)"
    from validation_body_returns[OF L] obtain r v' where
      y: "validation_body ?m b tokenizer_src tokenizer_tgt L v = Some (r, v')"
      by (metis surj_pair)
    from ok b y have "\<forall>e. r \<noteq> Inl e" by auto
    then have "r = Inr ()" by (cases r) auto
    with y show "\<exists>v'. validation_body ?m b tokenizer_src tokenizer_tgt L v = Some (Inr (), v')"
      by blast
  qed
  from validation_loop_processes[OF c ok0, of ?w] obtain v evs outs where
    l1: "validation_loop ?m bs tokenizer_src tokenizer_tgt L n 0 ?w
           = Some (Inr (n, drop (nat n) bs), v)"
    and l2: "validation_loop ?m (take (nat n) bs) tokenizer_src tokenizer_tgt L n 0 ?w
           = Some (Inr (n, []), v)"
    and tr: "trace v = trace ?w @ evs"
    and ec: "encode_calls evs =
               map (\<lambda>b. (batch_encoder_input b, batch_encoder_mask b)) (take (nat n) bs)"
    and lo: "length outs = nat n"
    and pm: "printed_msgs evs =
               concat (map2 (\<lambda>b out. report b (decode_ids tokenizer_tgt out)) (take (nat n) bs) outs)"
    and la: "list_all2 (\<lambda>b out. \<exists>v v'. greedy_decode ?m (batch_encoder_input b)
                        (batch_encoder_mask b) tokenizer_src tokenizer_tgt L v = Some (Inr out, v'))
             (take (nat n) bs) outs"
    by auto
  let ?w' = "v\<lparr>grad_enabled := grad_enabled w\<rparr>"
  have ne: "new_events w ?w' = evs" using tr by (simp add: new_events_def)
  show ?thesis
  proof (intro exI conjI)
    show "run_validation m bs tokenizer_src tokenizer_tgt L n w = Some (Inr (), ?m, ?w')"
      using l1 by (simp add: run_validation_unfold)
    show "run_validation m (take (nat n) bs) tokenizer_src tokenizer_tgt L n w
            = Some (Inr (), ?m, ?w')"
      using l2 by (simp add: run_validation_unfold)
    show "validation_loop ?m bs tokenizer_src tokenizer_tgt L n 0 ?w
            = Some (Inr (n, drop (nat n) bs), v)" by fact
    show "?w' = v\<lparr>grad_enabled := grad_enabled w\<rparr>" by simp
    show "encode_calls (new_events w ?w') =
            map (\<lambda>b. (batch_encoder_input b, batch_encoder_mask b)) (take (nat n) bs)"
      using ne ec by simp
    show "length outs = nat n" by fact
    show "printed_msgs (new_events w ?w') =
            concat (map2 (\<lambda>b out. report b (decode_ids tokenizer_tgt out)) (take (nat n) bs) outs)"
      using ne pm by simp
    show "list_all2 (\<lambda>b out. \<exists>v v'. greedy_decode ?m (batch_encoder_input b)
                        (batch_encoder_mask b) tokenizer_src tokenizer_tgt L v = Some (Inr out, v'))
             (take (nat n) bs) outs" by fact
  qed
qed

theorem run_validation_processes_n_witness:
  "1 \<le> default_num_examples \<and> nat default_num_examples \<le> length toy_batches \<and>
   length toy_batches = 5 \<and> (1::int) \<le> 10 \<and>
   run_validation (toy_model 1) toy_batches toy_tokenizer toy_tokenizer 10 default_num_examples w0
     = run_validation (toy_model 1) (take 2 toy_batches) toy_tokenizer toy_tokenizer 10
         default_num_examples w0 \<and>
   map_option (fst \<circ> snd)
     (run_validation (toy_model 1) toy_batches toy_tokenizer toy_tokenizer 10
        default_num_examples w0)
     = Some (toy_model 1\<lparr>training := False\<rparr>) \<and>
   map_option (encode_calls \<circ> trace \<circ> snd \<circ> snd)
     (run_validation (toy_model 1) toy_batches toy_tokenizer toy_tokenizer 10
        default_num_examples w0)
     = Some [([[4]], [[True]]), ([[4, 4]], [[True, True]])]"
proof -
  have h1: "1 \<le> default_num_examples" by (simp add: default_num_examples_def)
  have h2: "nat default_num_examples \<le> length toy_batches"
    by (simp add: default_num_examples_def toy_batches_def)
  have h3: "\<forall>b\<in>set (take (nat default_num_examples) toy_batches). \<forall>v e v'.
              validation_body (toy_model 1\<lparr>training := False\<rparr>) b toy_tokenizer toy_tokenizer 10 v
                \<noteq> Some (Inl e, v')"
    by (simp add: default_num_examples_def toy_batches_def toy_eval_body)
  have h4: "(1::int) \<le> 10" by simp
  have n2: "nat default_num_examples = 2" by (simp add: default_num_examples_def)
  from run_validation_processes_n[OF h1 h2 h4 h3, of w0] obtain w' where
    r: "run_validation (toy_model 1) toy_batches toy_tokenizer toy_tokenizer 10
          default_num_examples w0 = Some (Inr (), toy_model 1\<lparr>training := False\<rparr>, w')"
       "run_validation (toy_model 1) (take (nat default_num_examples) toy_batches) toy_tokenizer
          toy_tokenizer 10 default_num_examples w0
          = Some (Inr (), toy_model 1\<lparr>training := False\<rparr>, w')"
       "encode_calls (new_events w0 w') =
          map (\<lambda>b. (batch_encoder_input b, batch_encoder_mask b))
            (take (nat default_num_examples) toy_batches)"
    by blast
  have "new_events w0 w' = trace w'" by (simp add: new_events_def w0_def)
  with r(3) have "encode_calls (trace w') = [([[4]], [[True]]), ([[4, 4]], [[True, True]])]"
    by (simp add: n2 toy_batches_def toy_batch_def)
  with r(1,2) h1 h2 show ?thesis by (simp add: n2) (simp add: toy_batches_def)
qed

section \<open>Validation batches have one example\<close>

text \<open>
  C5. The validation loader of \<open>get_ds\<close> is built with batch size 1, so every batch
  that an iteration over it yields, in whatever order the sampler takes the examples,
  has exactly one row. And \<open>run_validation\<close> stops with an AssertionError at a batch
  whose tensor \<open>encoder_input\<close> has a number of rows other than 1, before it calls the
  greedy decoder on it: when the batches \<open>good\<close> before it are processed normally
  without reaching \<open>num_examples\<close>, the run on \<open>good\<close>, the bad batch and any further
  batches raises AssertionError and leaves the model and the world (its trace of network
  calls and printed lines) exactly as the run on \<open>good\<close> alone leaves them.
\<close>

theorem validation_batch_size_one:
  fixes w :: "('e, 'h) world"
  shows "(get_ds batch_sz train_ds val_ds tokenizer_src tokenizer_tgt = Inr (tdl, vdl, ts', tt')
            \<longrightarrow> (\<forall>order. \<forall>b\<in>set (iterate vdl order). length (batch_encoder_input b) = 1)) \<and>
         (length (batch_encoder_input bad) \<noteq> 1 \<longrightarrow> (n \<le> 0 \<or> int (length good) < n) \<longrightarrow>
            run_validation m good tokenizer_src tokenizer_tgt L n w = Some (Inr (), m', w') \<longrightarrow>
            run_validation m (good @ bad # rest) tokenizer_src tokenizer_tgt L n w
              = Some (Inl AssertionError, m', w'))"
proof (intro conjI impI allI ballI)
  fix order b
  assume "get_ds batch_sz train_ds val_ds tokenizer_src tokenizer_tgt = Inr (tdl, vdl, ts', tt')"
    and b: "b \<in> set (iterate vdl order)"
  then have "loader_batch_size vdl = 1"
    by (auto simp: get_ds_def DataLoader_def split: sum.splits if_splits)
  from iterate_one[OF this b] show "length (batch_encoder_input b) = 1" .
next
  let ?m = "m\<lparr>training := False\<rparr>"
  let ?w = "w\<lparr>grad_enabled := False\<rparr>"
  assume bad: "length (batch_encoder_input bad) \<noteq> 1" and n: "n \<le> 0 \<or> int (length good) < n"
    and run: "run_validation m good tokenizer_src tokenizer_tgt L n w = Some (Inr (), m', w')"
  from run obtain a v where
    l0: "validation_loop ?m good tokenizer_src tokenizer_tgt L n 0 ?w = Some (a, v)"
    and a: "map_sum id (\<lambda>r. ()) a = Inr ()"
    and m': "m' = ?m" and w': "w' = v\<lparr>grad_enabled := grad_enabled w\<rparr>"
    by (auto simp: run_validation_unfold split: option.splits)
  from a obtain r where "a = Inr r" by (cases a) auto
  with l0 have l: "validation_loop ?m good tokenizer_src tokenizer_tgt L n 0 ?w = Some (Inr r, v)"
    by simp
  have n0: "n \<le> 0 \<or> 0 + int (length good) < n" using n by simp
  have "validation_loop ?m (good @ bad # rest) tokenizer_src tokenizer_tgt L n 0 ?w =
        validation_loop ?m (bad # rest) tokenizer_src tokenizer_tgt L n (0 + int (length good)) v"
    by (rule validation_loop_append[OF l n0])
  also have "\<dots> = Some (Inl AssertionError, v)"
    using bad by (simp add: validation_body_assert)
  finally show "run_validation m (good @ bad # rest) tokenizer_src tokenizer_tgt L n w
                  = Some (Inl AssertionError, m', w')"
    using m' w' by (simp add: run_validation_unfold)
qed

theorem validation_batch_size_one_witness:
  "get_ds 8 [toy_example [4, 4] ''x'' ''y'']
      [toy_example [4, 1] ''a'' ''b'', toy_example [4, 4] ''c'' ''d''] toy_tokenizer toy_tokenizer
     = Inr (\<lparr>loader_dataset = [toy_example [4, 4] ''x'' ''y''], loader_batch_size = 8,
              loader_shuffle = True\<rparr>,
            \<lparr>loader_dataset = [toy_example [4, 1] ''a'' ''b'', toy_example [4, 4] ''c'' ''d''],
              loader_batch_size = 1, loader_shuffle = True\<rparr>,
            toy_tokenizer, toy_tokenizer) \<and>
   map batch_encoder_input
     (iterate \<lparr>loader_dataset = [toy_example [4, 1] ''a'' ''b'', toy_example [4, 4] ''c'' ''d''],
               loader_batch_size = 1, loader_shuffle = True\<rparr> rev) = [[[4, 4]], [[4, 1]]] \<and>
   list_all (\<lambda>b. length (batch_encoder_input b) = 1)
     (iterate \<lparr>loader_dataset = [toy_example [4, 1] ''a'' ''b'', toy_example [4, 4] ''c'' ''d''],
               loader_batch_size = 1, loader_shuffle = True\<rparr> rev) \<and>
   batch_encoder_input
     (collate [toy_example [4, 1] ''a'' ''b'', toy_example [4, 4] ''c'' ''d''])
     = [[4, 1], [4, 4]] \<and>
   length (batch_encoder_input
     (collate [toy_example [4, 1] ''a'' ''b'', toy_example [4, 4] ''c'' ''d''])) \<noteq> 1 \<and>
   map_option fst (run_validation (toy_model 1)
      ([toy_batch [4] ''a'' ''b''] @
         collate [toy_example [4, 1] ''a'' ''b'', toy_example [4, 4] ''c'' ''d''] #
         [toy_batch [4] ''e'' ''f''])
      toy_tokenizer toy_tokenizer 10 3 w0) = Some (Inl AssertionError) \<and>
   map_option (encode_calls \<circ> trace \<circ> snd \<circ> snd) (run_validation (toy_model 1)
      ([toy_batch [4] ''a'' ''b''] @
         collate [toy_example [4, 1] ''a'' ''b'', toy_example [4, 4] ''c'' ''d''] #
         [toy_batch [4] ''e'' ''f''])
      toy_tokenizer toy_tokenizer 10 3 w0) = Some [([[4]], [[True]])]"
proof -
  let ?val = "[toy_example [4, 1] ''a'' ''b'', toy_example [4, 4] ''c'' ''d'']"
  let ?vdl = "\<lparr>loader_dataset = ?val, loader_batch_size = 1, loader_shuffle = True\<rparr>"
  let ?tdl = "\<lparr>loader_dataset = [toy_example [4, 4] ''x'' ''y''], loader_batch_size = 8,
               loader_shuffle = True\<rparr>"
  let ?bad = "collate ?val"
  let ?good = "[toy_batch [4] ''a'' ''b'']"
  have g: "get_ds 8 [toy_example [4, 4] ''x'' ''y''] ?val toy_tokenizer toy_tokenizer
             = Inr (?tdl, ?vdl, toy_tokenizer, toy_tokenizer)"
    by (simp add: get_ds_def DataLoader_def)
  have it: "map batch_encoder_input (iterate ?vdl rev) = [[[4, 4]], [[4, 1]]]"
    by (simp add: iterate_def collate_def toy_example_def)
  have rows: "batch_encoder_input ?bad = [[4, 1], [4, 4]]"
    by (simp add: collate_def toy_example_def)
  have bad: "length (batch_encoder_input ?bad) \<noteq> 1" by (simp add: collate_def)
  have "\<exists>w'. run_validation (toy_model 1) ?good toy_tokenizer toy_tokenizer 10 3 w0
          = Some (Inr (), toy_model 1\<lparr>training := False\<rparr>, w') \<and>
          encode_calls (trace w') = [([[4]], [[True]])]"
    by (simp add: run_validation_unfold toy_eval_body emit_def w0_def)
  then obtain w' where
    r: "run_validation (toy_model 1) ?good toy_tokenizer toy_tokenizer 10 3 w0
          = Some (Inr (), toy_model 1\<lparr>training := False\<rparr>, w')"
    and e: "encode_calls (trace w') = [([[4]], [[True]])]" by blast
  have n: "(3::int) \<le> 0 \<or> int (length ?good) < 3" by simp
  note inst = validation_batch_size_one[where batch_sz = 8
      and train_ds = "[toy_example [4, 4] ''x'' ''y'']" and val_ds = ?val
      and tokenizer_src = toy_tokenizer and tokenizer_tgt = toy_tokenizer
      and tdl = ?tdl and vdl = ?vdl and ts' = toy_tokenizer and tt' = toy_tokenizer
      and bad = ?bad and good = ?good and n = 3 and m = "toy_model 1" and L = 10 and w = w0
      and m' = "toy_model 1\<lparr>training := False\<rparr>" and w' = w'
      and rest = "[toy_batch [4] ''e'' ''f'']"]
  from inst g have a: "\<forall>b\<in>set (iterate ?vdl rev). length (batch_encoder_input b) = 1" by blast
  from inst bad n r have b: "run_validation (toy_model 1)
      (?good @ ?bad # [toy_batch [4] ''e'' ''f'']) toy_tokenizer toy_tokenizer 10 3 w0
        = Some (Inl AssertionError, toy_model 1\<lparr>training := False\<rparr>, w')" by blast
  show ?thesis using g it a rows bad b e by (simp add: list_all_iff)
qed


section \<open>Validation leaves the parameters alone\<close>

text \<open>
  C9. A call of \<open>run_validation\<close> that returns, normally or with an exception, leaves
  every parameter of the model as it was: the model it leaves is the one it was given
  with the training flag cleared. Every call of the network and every other event of the
  run happens with the gradient mode switched off, and the gradient mode is afterwards
  what it was before. The optimizer is not among the things that \<open>run_validation\<close> is
  given, so no optimizer step can be part of it.
\<close>

theorem run_validation_keeps_parameters:
  fixes w :: "('e, 'h) world"
  assumes run: "run_validation m validation_ds tokenizer_src tokenizer_tgt L n w
                  = Some (res, m', w')"
  shows "state_dict m' = state_dict m \<and> m' = m\<lparr>training := False\<rparr> \<and>
         grad_enabled w' = grad_enabled w \<and>
         trace w' = trace w @ new_events w w' \<and>
         (\<forall>x\<in>set (new_events w w'). fst x = False)"
proof -
  let ?m = "m\<lparr>training := False\<rparr>"
  let ?w = "w\<lparr>grad_enabled := False\<rparr>"
  from run obtain r v where
    l: "validation_loop ?m validation_ds tokenizer_src tokenizer_tgt L n 0 ?w = Some (r, v)"
    and m': "m' = ?m" and w': "w' = v\<lparr>grad_enabled := grad_enabled w\<rparr>"
    by (auto simp: run_validation_unfold split: option.splits)
  from validation_loop_world[OF l] obtain evs where
    "trace v = trace ?w @ map (Pair (grad_enabled ?w)) evs" by blast
  then have tr: "trace w' = trace w @ map (Pair False) evs" using w' by simp
  then have "new_events w w' = map (Pair False) evs" by (simp add: new_events_def)
  with tr m' w' show ?thesis by auto
qed


theorem run_validation_keeps_parameters_witness:
  "\<exists>w'. run_validation (toy_model 1) toy_batches toy_tokenizer toy_tokenizer 10 2 w0
          = Some (Inr (), toy_model 1\<lparr>training := False\<rparr>, w') \<and>
        state_dict (toy_model 1\<lparr>training := False\<rparr>) = state_dict (toy_model 1) \<and>
        state_dict (toy_model 1) = 1 \<and>
        grad_enabled w' = grad_enabled w0 \<and>
        encode_calls (new_events w0 w') \<noteq> [] \<and>
        list_all (\<lambda>x. fst x = False) (new_events w0 w')"
proof -
  have "\<exists>w'. run_validation (toy_model 1) toy_batches toy_tokenizer toy_tokenizer 10 2 w0
          = Some (Inr (), toy_model 1\<lparr>training := False\<rparr>, w') \<and> encode_calls (trace w') \<noteq> []"
    by (simp add: run_validation_unfold toy_batches_def toy_eval_body emit_def w0_def)
  then obtain w' where
    r: "run_validation (toy_model 1) toy_batches toy_tokenizer toy_tokenizer 10 2 w0
          = Some (Inr (), toy_model 1\<lparr>training := False\<rparr>, w')"
    and e: "encode_calls (trace w') \<noteq> []" by blast
  have "new_events w0 w' = trace w'" by (simp add: new_events_def w0_def)
  with run_validation_keeps_parameters[OF r] r e show ?thesis
    by (auto simp: toy_model_def list_all_iff)
qed

section \<open>Properties of the loss\<close>

lemma filter_zip_agree:
  assumes "length xs = length ys" "length xs' = length ys"
    and "\<forall>i<length ys. P (ys ! i) \<longrightarrow> xs ! i = xs' ! i"
  shows "filter (\<lambda>(x, y). P y) (zip xs ys) = filter (\<lambda>(x, y). P y) (zip xs' ys)"
  using assms
proof (induction ys arbitrary: xs xs')
  case Nil
  then show ?case by simp
next
  case (Cons y ys)
  from Cons.prems obtain x xr x' xr' where xs: "xs = x # xr" "xs' = x' # xr'"
    by (cases xs; cases xs') auto
  have h: "\<forall>i<length ys. P (ys ! i) \<longrightarrow> xr ! i = xr' ! i"
  proof (intro allI impI)
    fix i assume "i < length ys" "P (ys ! i)"
    with Cons.prems(3)[rule_format, of "Suc i"] xs show "xr ! i = xr' ! i" by simp
  qed
  have "P y \<Longrightarrow> x = x'" using Cons.prems(3)[rule_format, of 0] xs by simp
  moreover have "filter (\<lambda>(x, y). P y) (zip xr ys) = filter (\<lambda>(x, y). P y) (zip xr' ys)"
    using Cons.IH[OF _ _ h] Cons.prems(1,2) xs by simp
  ultimately show ?case using xs by auto
qed

lemma CrossEntropyLoss_ignores:
  assumes "length rows = length rows'"
    and "\<forall>i<length label. Some (label ! i) \<noteq> ignore_index \<longrightarrow> rows ! i = rows' ! i"
  shows "CrossEntropyLoss ignore_index eps rows label = CrossEntropyLoss ignore_index eps rows' label"
proof (cases ignore_index)
  case None
  then show ?thesis by (simp add: CrossEntropyLoss_def)
next
  case (Some pad)
  show ?thesis
  proof (cases "length rows = length label")
    case False
    with assms(1) Some show ?thesis by (simp add: CrossEntropyLoss_def)
  next
    case True
    with assms(1) have l': "length rows' = length label" by simp
    have "\<forall>i<length label. label ! i \<noteq> pad \<longrightarrow> rows ! i = rows' ! i"
      using assms(2) Some by simp
    then have "filter (\<lambda>(x, y). y \<noteq> pad) (zip rows label)
                 = filter (\<lambda>(x, y). y \<noteq> pad) (zip rows' label)"
      by (rule filter_zip_agree[OF True l'])
    with True l' Some show ?thesis by (simp add: CrossEntropyLoss_def)
  qed
qed

text \<open>
  The rows that the loss keeps are those of the positions whose label is not the index
  to ignore, in order: its sum and its count run over these positions.
\<close>

lemma kept_positions:
  assumes "length rows = length label"
  shows "filter (\<lambda>(x, y). y \<noteq> pad) (zip rows label) =
         map (\<lambda>i. (rows ! i, label ! i)) (non_pad_positions pad label)"
proof -
  have "zip rows label = map (\<lambda>i. (rows ! i, label ! i)) [0..<length label]"
    using assms by (intro nth_equalityI) simp_all
  then have "filter (\<lambda>(x, y). y \<noteq> pad) (zip rows label) =
             filter (\<lambda>(x, y). y \<noteq> pad) (map (\<lambda>i. (rows ! i, label ! i)) [0..<length label])"
    by simp
  also have "\<dots> = map (\<lambda>i. (rows ! i, label ! i)) (non_pad_positions pad label)"
    by (simp add: filter_map non_pad_positions_def comp_def)
  finally show ?thesis .
qed

lemma CrossEntropyLoss_mean:
  assumes len: "length rows = length label"
    and range: "\<forall>i\<in>set (non_pad_positions pad label).
                  0 \<le> label ! i \<and> label ! i < int (length (rows ! i))"
    and some: "non_pad_positions pad label \<noteq> []"
  shows "CrossEntropyLoss (Some pad) eps rows label =
         Inr (Some ((\<Sum>i\<leftarrow>non_pad_positions pad label. token_loss eps (rows ! i) (nat (label ! i)))
                    / real (length (non_pad_positions pad label))))"
proof -
  let ?kept = "map (\<lambda>i. (rows ! i, label ! i)) (non_pad_positions pad label)"
  have k: "filter (\<lambda>(x, y). y \<noteq> pad) (zip rows label) = ?kept"
    by (rule kept_positions[OF len])
  have ok: "\<not> list_ex (\<lambda>(x, y). y < 0 \<or> int (length x) \<le> y) ?kept"
    using range by (auto simp: list_ex_iff)
  have ne: "?kept \<noteq> []" using some by simp
  have sm: "(\<Sum>(x, y)\<leftarrow>?kept. token_loss eps x (nat y)) =
            (\<Sum>i\<leftarrow>non_pad_positions pad label. token_loss eps (rows ! i) (nat (label ! i)))"
    by (simp add: comp_def)
  show ?thesis
    unfolding CrossEntropyLoss_def using len ok ne sm
    by (simp add: k Let_def del: map_is_Nil_conv)
qed

lemma CrossEntropyLoss_all_pad:
  assumes "length rows = length label" "non_pad_positions pad label = []"
  shows "CrossEntropyLoss (Some pad) eps rows label = Inr None"
  using assms by (simp add: CrossEntropyLoss_def kept_positions Let_def)

lemma toy_pad [simp]: "token_to_id toy_tokenizer ''[PAD]'' = Some 1"
  by (simp add: toy_tokenizer_def)

lemma toy_vocab_size [simp]: "get_vocab_size toy_tokenizer = 5"
  by (simp add: toy_tokenizer_def)

lemma toy_proj_output:
  "proj_output_of (toy_model n) toy_train_batch =
     [map (\<lambda>h. if h < n then [0, 0, 0, 0, 1] else [0, 0, 0, 1, 0]) [1, 2, 3]]"
  by (simp add: proj_output_of_def toy_train_batch_def encode_def decode_def projection_def
      toy_model_def Let_def upt_rec)

lemma toy_view_3:
  "view2 (proj_output_of (toy_model 3) toy_train_batch) 5 =
     Inr [[0, 0, 0, 0, 1], [0, 0, 0, 0, 1], [0, 0, 0, 1, 0]]"
  by (simp add: toy_proj_output view2_def chunks.simps)

lemma toy_view_4:
  "view2 (proj_output_of (toy_model 4) toy_train_batch) 5 =
     Inr [[0, 0, 0, 0, 1], [0, 0, 0, 0, 1], [0, 0, 0, 0, 1]]"
  by (simp add: toy_proj_output view2_def chunks.simps)


section \<open>Names of checkpoint files\<close>

lemma digit_inj:
  assumes "a < 10" "b < 10" "''0123456789'' ! a = ''0123456789'' ! b"
  shows "a = b"
proof -
  have "distinct ''0123456789''" by simp
  moreover have "a < length ''0123456789''" "b < length ''0123456789''" using assms by simp_all
  ultimately show ?thesis using assms(3) nth_eq_iff_index_eq by blast
qed

lemma digit_not_minus: "d < 10 \<Longrightarrow> ''0123456789'' ! d \<noteq> CHR ''-''"
proof -
  assume "d < 10"
  then have "''0123456789'' ! d \<in> set ''0123456789''" by (intro nth_mem) simp
  then show ?thesis by auto
qed

lemma digit_zero: "d < 10 \<Longrightarrow> ''0123456789'' ! d = CHR ''0'' \<Longrightarrow> d = 0"
  using digit_inj[of d 0] by simp

lemma digits_small: "n < 10 \<Longrightarrow> digits n = [''0123456789'' ! n]"
  by (subst digits.simps) simp

lemma digits_large: "10 \<le> n \<Longrightarrow> digits n = digits (n div 10) @ [''0123456789'' ! (n mod 10)]"
  by (subst digits.simps) simp

lemma digits_not_Nil: "digits n \<noteq> []"
  by (cases "n < 10") (simp_all add: digits_small digits_large)

lemma digits_length_large: "10 \<le> n \<Longrightarrow> 2 \<le> length (digits n)"
  using digits_not_Nil[of "n div 10"]
  by (simp add: digits_large Suc_le_eq)

lemma digits_hd:
  "hd (digits n) \<noteq> CHR ''-'' \<and> (0 < n \<longrightarrow> hd (digits n) \<noteq> CHR ''0'')"
proof (induction n rule: digits.induct)
  case (1 n)
  show ?case
  proof (cases "n < 10")
    case True
    then show ?thesis using digit_not_minus[of n] digit_zero[of n] by (auto simp: digits_small)
  next
    case False
    then have "0 < n div 10" by simp
    with 1 False digits_not_Nil[of "n div 10"] show ?thesis
      by (simp add: digits_large)
  qed
qed

lemma digits_inj: "digits a = digits b \<Longrightarrow> a = b"
proof (induction a arbitrary: b rule: digits.induct)
  case (1 a)
  show ?case
  proof (cases "a < 10")
    case True
    have "b < 10"
    proof (rule ccontr)
      assume "\<not> b < 10"
      then have "2 \<le> length (digits b)" by (simp add: digits_length_large)
      moreover have "length (digits a) = 1" using True by (simp add: digits_small)
      ultimately show False using 1(2) by simp
    qed
    with True 1(2) show ?thesis using digit_inj[of a b] by (simp add: digits_small)
  next
    case False
    have nb: "\<not> b < 10"
    proof
      assume "b < 10"
      then have "length (digits b) = 1" by (simp add: digits_small)
      moreover from False have "2 \<le> length (digits a)" by (simp add: digits_length_large)
      ultimately show False using 1(2) by simp
    qed
    with False 1(2) have eq: "digits (a div 10) = digits (b div 10)"
      "''0123456789'' ! (a mod 10) = ''0123456789'' ! (b mod 10)"
      by (simp_all add: digits_large)
    from 1(1)[OF False eq(1)] have "a div 10 = b div 10" .
    moreover from eq(2) have "a mod 10 = b mod 10" by (intro digit_inj) simp_all
    ultimately show ?thesis by (metis div_mult_mod_eq)
  qed
qed

lemma format_02d_inj: "format_02d a = format_02d b \<Longrightarrow> a = b"
proof -
  assume eq: "format_02d a = format_02d b"
  have hd_neg: "hd (format_02d e) = CHR ''-''" if "e < 0" for e
    using that by (simp add: format_02d_def)
  have hd_nonneg: "hd (format_02d e) \<noteq> CHR ''-''" if "0 \<le> e" for e
    using that digits_hd[of "nat e"] by (simp add: format_02d_def)
  have hd_small: "hd (format_02d e) = CHR ''0''" if "0 \<le> e" "e < 10" for e
    using that by (simp add: format_02d_def)
  have hd_large: "hd (format_02d e) \<noteq> CHR ''0''" if "10 \<le> e" for e
    using that digits_hd[of "nat e"] by (simp add: format_02d_def)
  consider "a < 0" | "0 \<le> a" "a < 10" | "10 \<le> a" by linarith
  then show ?thesis
  proof cases
    case 1
    then have "b < 0" using eq hd_neg[of a] hd_nonneg[of b] by force
    with 1 eq have "digits (nat (- a)) = digits (nat (- b))" by (simp add: format_02d_def)
    from digits_inj[OF this] 1 \<open>b < 0\<close> show ?thesis by simp
  next
    case 2
    then have "0 \<le> b" using eq hd_neg[of b] hd_nonneg[of a] by force
    moreover have "b < 10" using eq hd_small[OF 2] hd_large[of b] by force
    ultimately have "digits (nat a) = digits (nat b)" using 2 eq by (simp add: format_02d_def)
    from digits_inj[OF this] 2 \<open>0 \<le> b\<close> show ?thesis by simp
  next
    case 3
    then have "0 \<le> b" using eq hd_neg[of b] hd_nonneg[of a] by force
    moreover have "10 \<le> b" using eq hd_small[of b] hd_large[OF 3] calculation by force
    ultimately have "digits (nat a) = digits (nat b)" using 3 eq by (simp add: format_02d_def)
    from digits_inj[OF this] 3 \<open>0 \<le> b\<close> show ?thesis by simp
  qed
qed

lemma weights_path_inj:
  "get_weights_file_path cfg (format_02d a) = get_weights_file_path cfg (format_02d b) \<Longrightarrow> a = b"
  by (auto simp: get_weights_file_path_def dest: format_02d_inj)

lemma format_02d_examples:
  "format_02d 0 = ''00'' \<and> format_02d 7 = ''07'' \<and> format_02d 12 = ''12'' \<and> format_02d 123 = ''123'' \<and> format_02d (-5) = ''-5''"
  by (simp add: format_02d_def digits.simps)

lemma map_of_torch_save: "map_of (torch_save obj f fs) = (map_of fs)(f \<mapsto> obj)"
proof
  fix g
  have "map_of (filter (\<lambda>entry. fst entry \<noteq> f) fs) g = (if g = f then None else map_of fs g)"
    by (induction fs) auto
  then show "map_of (torch_save obj f fs) g = ((map_of fs)(f \<mapsto> obj)) g"
    by (simp add: torch_save_def)
qed


section \<open>What the training loop writes\<close>

lemma train_step_frame:
  assumes "train_step T lf tt b st = (res, st')"
  shows "s_files st' = s_files st \<and> s_world st' = s_world st"
  using assms
  by (auto simp: train_step_def Let_def split: sum.splits prod.splits)

lemma train_batches_frame:
  assumes "train_batches T lf tt bs st = (res, st')"
  shows "s_files st' = s_files st \<and> s_world st' = s_world st"
  using assms
proof (induction bs arbitrary: st)
  case Nil
  then show ?case by simp
next
  case (Cons b bs)
  obtain r st1 where ts: "train_step T lf tt b st = (r, st1)" by (cases "train_step T lf tt b st")
  from train_step_frame[OF ts] have f1: "s_files st1 = s_files st" "s_world st1 = s_world st"
    by simp_all
  show ?case
  proof (cases r)
    case (Inl e)
    with Cons.prems ts have "st' = st1" by simp
    with f1 show ?thesis by simp
  next
    case (Inr u)
    with Cons.prems ts have "train_batches T lf tt bs st1 = (res, st')" by simp
    from Cons.IH[OF this] f1 show ?thesis by simp
  qed
qed

lemma train_epoch_cases:
  assumes run: "train_epoch T cfg lf ts tt tbs vbs e st = Some (res, st')"
  shows "(\<exists>err. res = Inl err \<and> s_files st' = s_files st) \<or>
         (res = Inr () \<and>
          s_files st' = torch_save
             \<lparr>ckpt_epoch = e, ckpt_model_state_dict = state_dict (s_model st'),
              ckpt_optimizer_state_dict = s_optimizer st',
              ckpt_global_step = s_global_step st'\<rparr>
             (get_weights_file_path cfg (format_02d e)) (s_files st))"
proof -
  obtain r st1 where tb: "train_batches T lf tt tbs (st\<lparr>s_model := (s_model st)\<lparr>training := True\<rparr>\<rparr>)
                            = (r, st1)"
    by (cases "train_batches T lf tt tbs (st\<lparr>s_model := (s_model st)\<lparr>training := True\<rparr>\<rparr>)")
  from train_batches_frame[OF tb] have f1: "s_files st1 = s_files st" by simp
  show ?thesis
  proof (cases r)
    case (Inl err)
    with run tb have "res = Inl err" "st' = st1" by (simp_all add: train_epoch_def)
    with f1 show ?thesis by simp
  next
    case (Inr u)
    with run tb obtain rv m' w' where
      rv: "run_validation (s_model st1) vbs ts tt (seq_len cfg) default_num_examples (s_world st1)
             = Some (rv, m', w')"
      by (auto simp: train_epoch_def split: option.splits)
    show ?thesis
    proof (cases rv)
      case (Inl err)
      with run tb Inr rv have "res = Inl err" "st' = st1\<lparr>s_model := m', s_world := w'\<rparr>"
        by (simp_all add: train_epoch_def)
      with f1 show ?thesis by simp
    next
      case (Inr u')
      with run tb \<open>r = Inr u\<close> rv have
        "res = Inr ()"
        "st' = (st1\<lparr>s_model := m', s_world := w'\<rparr>)\<lparr>s_files :=
                      torch_save
                        \<lparr>ckpt_epoch = e,
                         ckpt_model_state_dict = state_dict (s_model (st1\<lparr>s_model := m', s_world := w'\<rparr>)),
                         ckpt_optimizer_state_dict = s_optimizer (st1\<lparr>s_model := m', s_world := w'\<rparr>),
                         ckpt_global_step = s_global_step (st1\<lparr>s_model := m', s_world := w'\<rparr>)\<rparr>
                        (get_weights_file_path cfg (format_02d e))
                        (s_files (st1\<lparr>s_model := m', s_world := w'\<rparr>))\<rparr>"
        by (simp_all add: train_epoch_def Let_def)
      with f1 show ?thesis by simp
    qed
  qed
qed

lemma train_epoch_other_files:
  assumes run: "train_epoch T cfg lf ts tt tbs vbs e st = Some (res, st')"
    and "f \<noteq> get_weights_file_path cfg (format_02d e)"
  shows "map_of (s_files st') f = map_of (s_files st) f"
  using train_epoch_cases[OF run] assms(2) by (auto simp: map_of_torch_save)

lemma train_epochs_other_files:
  assumes "train_epochs T cfg lf ts tt tdl vdl tord vord e1 st1 = Some (res, st2)"
    and "\<forall>e. e1 \<le> e \<and> e < num_epochs cfg \<longrightarrow> f \<noteq> get_weights_file_path cfg (format_02d e)"
  shows "map_of (s_files st2) f = map_of (s_files st1) f"
  using assms
proof (induction T cfg lf ts tt tdl vdl tord vord e1 st1 rule: train_epochs.induct)
  case (1 T cfg lf ts tt tdl vdl tord vord e1 st1)
  show ?case
  proof (cases "num_epochs cfg \<le> e1")
    case True
    with 1(2) have "st2 = st1" by (subst (asm) train_epochs.simps) simp
    then show ?thesis by simp
  next
    case False
    from 1(2) False obtain r st' where
      te: "train_epoch T cfg lf ts tt (iterate tdl (tord e1)) (iterate vdl (vord e1)) e1 st1
             = Some (r, st')"
      by (subst (asm) train_epochs.simps) (auto split: option.splits)
    from False 1(3) have "f \<noteq> get_weights_file_path cfg (format_02d e1)" by simp
    from train_epoch_other_files[OF te this]
    have f1: "map_of (s_files st') f = map_of (s_files st1) f" .
    show ?thesis
    proof (cases r)
      case (Inl err)
      with 1(2) False te have "st2 = st'" by (subst (asm) train_epochs.simps) simp
      with f1 show ?thesis by simp
    next
      case (Inr u)
      with 1(2) False te have
        rec: "train_epochs T cfg lf ts tt tdl vdl tord vord (e1 + 1) st' = Some (res, st2)"
        by (subst (asm) train_epochs.simps) simp
      have "\<forall>e. e1 + 1 \<le> e \<and> e < num_epochs cfg \<longrightarrow> f \<noteq> get_weights_file_path cfg (format_02d e)"
        using 1(3) by simp
      from 1(1)[OF False te refl Inr rec this] f1 show ?thesis by simp
    qed
  qed
qed


lemma foldr_max_mem: "foldr max xs (x::'a::linorder) \<in> set (x # xs)"
  by (induction xs) (auto simp: max_def)

lemma latest_is_weights_file:
  assumes "latest_weights_file_path cfg fs = Some f"
  shows "is_weights_file cfg f"
proof -
  from assms obtain g rest where
    fl: "filter (is_weights_file cfg) (map fst fs) = g # rest" and f: "f = foldr max rest g"
    by (auto simp: latest_weights_file_path_def split: list.splits)
  have "f \<in> set (g # rest)" unfolding f by (rule foldr_max_mem)
  then have "f \<in> set (filter (is_weights_file cfg) (map fst fs))" using fl by simp
  then show ?thesis by simp
qed

lemma model_filename_not_empty:
  assumes "model_filename_of cfg fs = Some f"
  shows "f \<noteq> []"
proof (cases "preload cfg")
  case None
  with assms show ?thesis by (simp add: model_filename_of_def)
next
  case (Some s)
  show ?thesis
  proof (cases "s = ''latest''")
    case True
    with assms Some have "latest_weights_file_path cfg fs = Some f"
      by (simp add: model_filename_of_def)
    from latest_is_weights_file[OF this] show ?thesis
      by (auto simp: is_weights_file_def Let_def)
  next
    case False
    with assms Some show ?thesis
      by (auto simp: model_filename_of_def get_weights_file_path_def split: if_splits)
  qed
qed

lemma get_ds_cases:
  "get_ds b train_ds val_ds ts tt =
     (if 0 < b \<and> train_ds \<noteq> [] \<and> val_ds \<noteq> []
      then Inr (\<lparr>loader_dataset = train_ds, loader_batch_size = nat b, loader_shuffle = True\<rparr>,
                \<lparr>loader_dataset = val_ds, loader_batch_size = 1, loader_shuffle = True\<rparr>, ts, tt)
      else Inl ValueError)"
  by (simp add: get_ds_def DataLoader_def)

lemma train_model_resumes:
  assumes "get_ds (batch_size cfg) train_ds val_ds tokenizer_src tokenizer_tgt
             = Inr (tdl, vdl, ts', tt')"
    and "model_filename_of cfg fs = Some f" "map_of fs f = Some ck"
  shows "train_model T cfg model0 train_ds val_ds tokenizer_src tokenizer_tgt tord vord fs w =
         train_epochs T cfg (loss_fn_of tokenizer_src) tokenizer_src tokenizer_tgt tdl vdl
           tord vord (ckpt_epoch ck + 1)
           \<lparr>s_model = model0\<lparr>state_dict := ckpt_model_state_dict ck\<rparr>,
            s_optimizer = ckpt_optimizer_state_dict ck,
            s_global_step = ckpt_global_step ck, s_files = fs, s_world = w\<rparr>"
proof -
  from assms(1) have "ts' = tokenizer_src" "tt' = tokenizer_tgt"
    by (simp_all add: get_ds_cases split: if_splits)
  with assms model_filename_not_empty[OF assms(2)] show ?thesis
    by (simp add: train_model_def load_session_def torch_load_def Let_def)
qed

lemma train_model_from_scratch:
  assumes "get_ds (batch_size cfg) train_ds val_ds tokenizer_src tokenizer_tgt
             = Inr (tdl, vdl, ts', tt')"
    and "model_filename_of cfg fs = None"
  shows "train_model T cfg model0 train_ds val_ds tokenizer_src tokenizer_tgt tord vord fs w =
         train_epochs T cfg (loss_fn_of tokenizer_src) tokenizer_src tokenizer_tgt tdl vdl
           tord vord 0
           \<lparr>s_model = model0, s_optimizer = Adam T (state_dict model0) (lr cfg),
            s_global_step = 0, s_files = fs, s_world = w\<rparr>"
proof -
  from assms(1) have "ts' = tokenizer_src" "tt' = tokenizer_tgt"
    by (simp_all add: get_ds_cases split: if_splits)
  with assms show ?thesis
    by (simp add: train_model_def load_session_def Let_def)
qed

text \<open>
  A run of several epochs. The number of epochs of the configuration is read by the
  \<open>range\<close> of line 193 only, so the run with a smaller number is the run cut short:
  after a run that completes, the file of every epoch of the run holds the checkpoint of
  the state in which the run was at the end of that epoch.
\<close>

lemma train_epoch_num_epochs [simp]:
  "train_epoch T (cfg\<lparr>num_epochs := k\<rparr>) lf ts tt tbs vbs e st
     = train_epoch T cfg lf ts tt tbs vbs e st"
proof -
  have a: "seq_len (cfg\<lparr>num_epochs := k\<rparr>) = seq_len cfg" by simp
  have b: "get_weights_file_path (cfg\<lparr>num_epochs := k\<rparr>) = get_weights_file_path cfg"
    by (rule ext) (simp add: get_weights_file_path_def)
  show ?thesis unfolding train_epoch_def a b by (rule refl)
qed

lemma train_epochs_leaves:
  assumes "train_epochs T cfg lf ts tt tdl vdl tord vord e1 st1 = Some (Inr (), st2)"
    and "e1 \<le> e" "e < num_epochs cfg"
  shows "\<exists>st_e. train_epochs T (cfg\<lparr>num_epochs := e + 1\<rparr>) lf ts tt tdl vdl tord vord e1 st1
                  = Some (Inr (), st_e) \<and>
                saved (get_weights_file_path cfg (format_02d e)) st2 =
                  Some \<lparr>ckpt_epoch = e, ckpt_model_state_dict = state_dict (s_model st_e),
                        ckpt_optimizer_state_dict = s_optimizer st_e,
                        ckpt_global_step = s_global_step st_e\<rparr>"
  using assms
proof (induction T cfg lf ts tt tdl vdl tord vord e1 st1 rule: train_epochs.induct)
  case (1 T cfg lf ts tt tdl vdl tord vord e1 st1)
  let ?cfg' = "cfg\<lparr>num_epochs := e + 1\<rparr>"
  let ?f = "get_weights_file_path cfg (format_02d e)"
  from 1(3,4) have False: "\<not> num_epochs cfg \<le> e1" by simp
  from 1(2) False obtain r st' where
    te: "train_epoch T cfg lf ts tt (iterate tdl (tord e1)) (iterate vdl (vord e1)) e1 st1
           = Some (r, st')"
    by (subst (asm) train_epochs.simps) (auto split: option.splits)
  have r: "r = Inr ()"
  proof (cases r)
    case (Inl err)
    with 1(2) False te show ?thesis by (subst (asm) train_epochs.simps) simp
  next
    case (Inr u)
    then show ?thesis by simp
  qed
  with 1(2) False te have
    rec: "train_epochs T cfg lf ts tt tdl vdl tord vord (e1 + 1) st' = Some (Inr (), st2)"
    by (subst (asm) train_epochs.simps) simp
  have unfold': "train_epochs T ?cfg' lf ts tt tdl vdl tord vord e1 st1 =
                 train_epochs T ?cfg' lf ts tt tdl vdl tord vord (e1 + 1) st'"
    using 1(3) te r by (subst train_epochs.simps) simp
  show ?case
  proof (cases "e1 = e")
    case True
    have stop: "train_epochs T ?cfg' lf ts tt tdl vdl tord vord (e1 + 1) st' = Some (Inr (), st')"
      using True by (subst train_epochs.simps) simp
    from train_epoch_cases[OF te] r True
    have "saved ?f st' =
            Some \<lparr>ckpt_epoch = e, ckpt_model_state_dict = state_dict (s_model st'),
                  ckpt_optimizer_state_dict = s_optimizer st',
                  ckpt_global_step = s_global_step st'\<rparr>"
      by (simp add: saved_def map_of_torch_save)
    moreover have "\<forall>e'. e1 + 1 \<le> e' \<and> e' < num_epochs cfg \<longrightarrow>
                     ?f \<noteq> get_weights_file_path cfg (format_02d e')"
      using True weights_path_inj by fastforce
    from train_epochs_other_files[OF rec this] have "saved ?f st2 = saved ?f st'"
      by (simp add: saved_def)
    ultimately show ?thesis using unfold' stop by simp
  next
    case ne: False
    with 1(3) have "e1 + 1 \<le> e" by simp
    from 1(1)[OF False te refl r rec this 1(4)] unfold' show ?thesis by simp
  qed
qed

section \<open>Training runs on the concrete inputs\<close>

lemma toy_set_parameter [simp]:
  "(toy_model n\<lparr>training := f\<rparr>)\<lparr>state_dict := k\<rparr> = toy_model k\<lparr>training := f\<rparr>"
  by (simp add: toy_model_def)

lemma toy_state_dict [simp]: "state_dict (toy_model n\<lparr>training := f\<rparr>) = n"
  by (simp add: toy_model_def)

lemma toy_forward_loss:
  "\<exists>l. forward_loss (toy_model n\<lparr>training := f\<rparr>) (loss_fn_of toy_tokenizer) toy_tokenizer
          (collate [toy_example src s t]) = Inr (Some l)"
  by (simp add: forward_loss_def proj_output_of_def collate_def toy_example_def encode_def
      decode_def projection_def toy_model_def view2_def chunks.simps loss_fn_of_def
      CrossEntropyLoss_def Let_def)

lemma toy_train_step:
  "train_step toy_torch (loss_fn_of toy_tokenizer) toy_tokenizer (collate [toy_example src s t])
     \<lparr>s_model = toy_model n\<lparr>training := f\<rparr>, s_optimizer = k, s_global_step = g,
      s_files = fs, s_world = w\<rparr> =
   (Inr (), \<lparr>s_model = toy_model (Suc n)\<lparr>training := f\<rparr>, s_optimizer = Suc k,
             s_global_step = g + 1, s_files = fs, s_world = w\<rparr>)"
proof -
  from toy_forward_loss[where n = n and f = f and src = src and s = s and t = t] obtain l where
    "forward_loss (toy_model n\<lparr>training := f\<rparr>) (loss_fn_of toy_tokenizer) toy_tokenizer
          (collate [toy_example src s t]) = Inr (Some l)" by blast
  then show ?thesis by (simp add: train_step_def toy_torch_def)
qed

lemma toy_validation_4:
  "\<exists>w'. run_validation (toy_model 4\<lparr>training := f\<rparr>) [collate [toy_example [4, 4] s t]]
           toy_tokenizer toy_tokenizer 10 default_num_examples w
         = Some (Inr (), toy_model 4\<lparr>training := False\<rparr>, w')"
  by (simp add: run_validation_unfold validation_body_def collate_def toy_example_def
      greedy_decode_unfold fill_float32_exact greedy_loop.simps toy_eval_step Let_def
      default_num_examples_def)

lemma toy_validation_8:
  "\<exists>w'. run_validation (toy_model 8\<lparr>training := f\<rparr>) [collate [toy_example [4, 4] s t]]
           toy_tokenizer toy_tokenizer 10 default_num_examples w
         = Some (Inr (), toy_model 8\<lparr>training := False\<rparr>, w')"
  by (simp add: run_validation_unfold validation_body_def collate_def toy_example_def
      greedy_decode_unfold fill_float32_exact greedy_loop.simps toy_eval_step Let_def
      default_num_examples_def)

lemma toy_iterate:
  "0 < k \<Longrightarrow> iterate \<lparr>loader_dataset = [x], loader_batch_size = k, loader_shuffle = True\<rparr>
     (no_shuffle e) = [collate [x]]"
  by (simp add: iterate_def no_shuffle_def chunks.simps)


lemma toy_set_parameter_plain [simp]: "toy_model n\<lparr>state_dict := k\<rparr> = toy_model k"
  by (simp add: toy_model_def)

lemma toy_epoch:
  assumes val: "\<And>f w. \<exists>w'. run_validation (toy_model (Suc n)\<lparr>training := f\<rparr>) vbs toy_tokenizer
                  toy_tokenizer (seq_len cfg) default_num_examples w
                = Some (Inr (), toy_model (Suc n)\<lparr>training := False\<rparr>, w')"
  shows "\<exists>w'. train_epoch toy_torch cfg (loss_fn_of toy_tokenizer) toy_tokenizer toy_tokenizer
           [collate [toy_example src s t]] vbs e
           \<lparr>s_model = toy_model n\<lparr>training := f\<rparr>, s_optimizer = k, s_global_step = g,
            s_files = fs, s_world = w\<rparr>
         = Some (Inr (),
             \<lparr>s_model = toy_model (Suc n)\<lparr>training := False\<rparr>, s_optimizer = Suc k,
              s_global_step = g + 1,
              s_files = torch_save
                 \<lparr>ckpt_epoch = e, ckpt_model_state_dict = Suc n,
                  ckpt_optimizer_state_dict = Suc k, ckpt_global_step = g + 1\<rparr>
                 (get_weights_file_path cfg (format_02d e)) fs,
              s_world = w'\<rparr>)"
proof -
  from val[of True w] obtain w' where
    v: "run_validation (toy_model (Suc n)\<lparr>training := True\<rparr>) vbs toy_tokenizer
          toy_tokenizer (seq_len cfg) default_num_examples w
        = Some (Inr (), toy_model (Suc n)\<lparr>training := False\<rparr>, w')" by blast
  have tb: "train_batches toy_torch (loss_fn_of toy_tokenizer) toy_tokenizer
              [collate [toy_example src s t]]
              \<lparr>s_model = toy_model n\<lparr>training := True\<rparr>, s_optimizer = k, s_global_step = g,
               s_files = fs, s_world = w\<rparr>
            = (Inr (), \<lparr>s_model = toy_model (Suc n)\<lparr>training := True\<rparr>, s_optimizer = Suc k,
                 s_global_step = g + 1, s_files = fs, s_world = w\<rparr>)"
    by (simp add: toy_train_step del: toy_training)
  show ?thesis
    using tb v by (intro exI[of _ w']) (simp add: train_epoch_def Let_def del: toy_training)
qed

lemma toy_path_0: "get_weights_file_path cfg (format_02d 0) =
    datasource cfg @ ''_'' @ model_folder cfg @ ''/'' @ model_basename cfg @ ''00.'' @ model_ext cfg"
  by (simp add: get_weights_file_path_def format_02d_def digits.simps)

lemma toy_path_1: "get_weights_file_path cfg (format_02d 1) =
    datasource cfg @ ''_'' @ model_folder cfg @ ''/'' @ model_basename cfg @ ''01.'' @ model_ext cfg"
  by (simp add: get_weights_file_path_def format_02d_def digits.simps)

section \<open>Padding and the loss\<close>

text \<open>
  C1. In the training loop the loss of a batch leaves out every position whose label is
  the id of \<open>[PAD]\<close> in the target vocabulary, provided the two vocabularies give
  \<open>[PAD]\<close> the same id \<open>pad\<close> (the loss function ignores the id that the source
  vocabulary gives it). With \<open>rows\<close> the logits of the batch, one row for each
  position, and \<open>label\<close> its labels:

  \<^item> two networks whose logits differ at positions of label \<open>pad\<close> only have the same
    loss on the batch;
  \<^item> the loss is the sum of the losses of the positions whose label is not \<open>pad\<close>,
    divided by the number of these positions (the labels being class indices): neither
    the sum nor the count has a term for a position of label \<open>pad\<close>; with no other
    position the loss is 0/0;
  \<^item> the derivative of the loss with respect to any logit of a position of label
    \<open>pad\<close> is 0 everywhere: such a position adds nothing to the gradient.
\<close>

theorem training_loss_ignores_pad:
  assumes pad_src: "token_to_id tokenizer_src ''[PAD]'' = Some pad"
    and pad_tgt: "token_to_id tokenizer_tgt ''[PAD]'' = Some pad"
    and v: "view2 (proj_output_of m b) (get_vocab_size tokenizer_tgt) = Inr rows"
    and lab: "concat (batch_label b) = label"
  shows "(\<forall>m' rows'.
            view2 (proj_output_of m' b) (get_vocab_size tokenizer_tgt) = Inr rows' \<and>
            length rows' = length rows \<and>
            (\<forall>i<length label. label ! i \<noteq> pad \<longrightarrow> rows' ! i = rows ! i) \<longrightarrow>
            forward_loss m' (loss_fn_of tokenizer_src) tokenizer_tgt b =
            forward_loss m (loss_fn_of tokenizer_src) tokenizer_tgt b) \<and>
         (length rows = length label \<and> non_pad_positions pad label \<noteq> [] \<and>
            (\<forall>i\<in>set (non_pad_positions pad label).
               0 \<le> label ! i \<and> label ! i < int (length (rows ! i))) \<longrightarrow>
            forward_loss m (loss_fn_of tokenizer_src) tokenizer_tgt b =
              Inr (Some ((\<Sum>i\<leftarrow>non_pad_positions pad label.
                            token_loss (1 / 10) (rows ! i) (nat (label ! i)))
                         / real (length (non_pad_positions pad label))))) \<and>
         (length rows = length label \<and> non_pad_positions pad label = [] \<longrightarrow>
            forward_loss m (loss_fn_of tokenizer_src) tokenizer_tgt b = Inr None) \<and>
         (\<forall>i j x. i < length label \<and> label ! i = pad \<longrightarrow>
            ((\<lambda>z. loss_value (loss_fn_of tokenizer_src (rows[i := (rows ! i)[j := z]]) label))
               has_real_derivative 0) (at x))"
proof (intro conjI allI impI)
  fix m' rows'
  assume h: "view2 (proj_output_of m' b) (get_vocab_size tokenizer_tgt) = Inr rows' \<and>
            length rows' = length rows \<and>
            (\<forall>i<length label. label ! i \<noteq> pad \<longrightarrow> rows' ! i = rows ! i)"
  then have "CrossEntropyLoss (Some pad) (1 / 10) rows' label
               = CrossEntropyLoss (Some pad) (1 / 10) rows label"
    by (intro CrossEntropyLoss_ignores) simp_all
  with h v lab pad_src
  show "forward_loss m' (loss_fn_of tokenizer_src) tokenizer_tgt b =
        forward_loss m (loss_fn_of tokenizer_src) tokenizer_tgt b"
    by (simp add: forward_loss_def loss_fn_of_def Let_def)
next
  assume h: "length rows = length label \<and> non_pad_positions pad label \<noteq> [] \<and>
            (\<forall>i\<in>set (non_pad_positions pad label).
               0 \<le> label ! i \<and> label ! i < int (length (rows ! i)))"
  then have "CrossEntropyLoss (Some pad) (1 / 10) rows label =
        Inr (Some ((\<Sum>i\<leftarrow>non_pad_positions pad label.
                       token_loss (1 / 10) (rows ! i) (nat (label ! i)))
                    / real (length (non_pad_positions pad label))))"
    by (intro CrossEntropyLoss_mean) simp_all
  with v lab pad_src
  show "forward_loss m (loss_fn_of tokenizer_src) tokenizer_tgt b =
          Inr (Some ((\<Sum>i\<leftarrow>non_pad_positions pad label.
                        token_loss (1 / 10) (rows ! i) (nat (label ! i)))
                     / real (length (non_pad_positions pad label))))"
    by (simp add: forward_loss_def loss_fn_of_def Let_def)
next
  assume h: "length rows = length label \<and> non_pad_positions pad label = []"
  then have "CrossEntropyLoss (Some pad) (1 / 10) rows label = Inr None"
    by (intro CrossEntropyLoss_all_pad) simp_all
  with v lab pad_src
  show "forward_loss m (loss_fn_of tokenizer_src) tokenizer_tgt b = Inr None"
    by (simp add: forward_loss_def loss_fn_of_def Let_def)
next
  fix i j and x :: real
  assume h: "i < length label \<and> label ! i = pad"
  have "loss_fn_of tokenizer_src (rows[i := (rows ! i)[j := z]]) label
          = loss_fn_of tokenizer_src rows label" for z
    unfolding loss_fn_of_def pad_src
  proof (rule CrossEntropyLoss_ignores)
    show "length (rows[i := (rows ! i)[j := z]]) = length rows" by simp
    show "\<forall>k<length label. Some (label ! k) \<noteq> Some pad \<longrightarrow>
            rows[i := (rows ! i)[j := z]] ! k = rows ! k"
    proof (intro allI impI)
      fix k assume "Some (label ! k) \<noteq> Some pad"
      with h have "k \<noteq> i" by auto
      then show "rows[i := (rows ! i)[j := z]] ! k = rows ! k" by simp
    qed
  qed
  then have "(\<lambda>z. loss_value (loss_fn_of tokenizer_src (rows[i := (rows ! i)[j := z]]) label))
               = (\<lambda>z. loss_value (loss_fn_of tokenizer_src rows label))"
    by simp
  then show "((\<lambda>z. loss_value (loss_fn_of tokenizer_src (rows[i := (rows ! i)[j := z]]) label))
               has_real_derivative 0) (at x)"
    by simp
qed

theorem training_loss_ignores_pad_witness:
  "token_to_id toy_tokenizer ''[PAD]'' = Some 1 \<and>
   view2 (proj_output_of (toy_model 3) toy_train_batch) (get_vocab_size toy_tokenizer) =
     Inr [[0, 0, 0, 0, 1], [0, 0, 0, 0, 1], [0, 0, 0, 1, 0]] \<and>
   view2 (proj_output_of (toy_model 4) toy_train_batch) (get_vocab_size toy_tokenizer) =
     Inr [[0, 0, 0, 0, 1], [0, 0, 0, 0, 1], [0, 0, 0, 0, 1]] \<and>
   concat (batch_label toy_train_batch) = [4, 3, 1] \<and>
   non_pad_positions 1 [4, 3, 1] = [0, 1] \<and>
   forward_loss (toy_model 4) (loss_fn_of toy_tokenizer) toy_tokenizer toy_train_batch =
   forward_loss (toy_model 3) (loss_fn_of toy_tokenizer) toy_tokenizer toy_train_batch \<and>
   forward_loss (toy_model 3) (loss_fn_of toy_tokenizer) toy_tokenizer toy_train_batch =
     Inr (Some ((token_loss (1 / 10) [0, 0, 0, 0, 1] 4 + token_loss (1 / 10) [0, 0, 0, 0, 1] 3)
                / 2)) \<and>
   ((\<lambda>z. loss_value (loss_fn_of toy_tokenizer
            [[0, 0, 0, 0, 1], [0, 0, 0, 0, 1], [z, 0, 0, 1, 0]] [4, 3, 1]))
      has_real_derivative 0) (at 5)"
proof -
  let ?rows = "[[0, 0, 0, 0, 1], [0, 0, 0, 0, 1], [0, 0, 0, 1, 0 :: real]]"
  let ?rows' = "[[0, 0, 0, 0, 1], [0, 0, 0, 0, 1], [0, 0, 0, 0, 1 :: real]]"
  let ?label = "[4, 3, 1 :: token]"
  have v3: "view2 (proj_output_of (toy_model 3) toy_train_batch) (get_vocab_size toy_tokenizer) =
     Inr ?rows"
    by (simp add: toy_view_3)
  have v4: "view2 (proj_output_of (toy_model 4) toy_train_batch) (get_vocab_size toy_tokenizer) =
     Inr ?rows'"
    by (simp add: toy_view_4)
  have lb: "concat (batch_label toy_train_batch) = ?label"
    by (simp add: toy_train_batch_def)
  have np: "non_pad_positions 1 ?label = [0, 1]"
    by (simp add: non_pad_positions_def upt_rec)
  note inst = training_loss_ignores_pad[OF toy_pad toy_pad v3 lb]
  have ag: "view2 (proj_output_of (toy_model 4) toy_train_batch) (get_vocab_size toy_tokenizer)
              = Inr ?rows' \<and> length ?rows' = length ?rows \<and>
            (\<forall>i<length ?label. ?label ! i \<noteq> 1 \<longrightarrow> ?rows' ! i = ?rows ! i)"
    using v4 by (auto simp: nth_Cons' less_Suc_eq eval_nat_numeral)
  from inst[THEN conjunct1, rule_format, OF ag]
  have a: "forward_loss (toy_model 4) (loss_fn_of toy_tokenizer) toy_tokenizer toy_train_batch =
           forward_loss (toy_model 3) (loss_fn_of toy_tokenizer) toy_tokenizer toy_train_batch" .
  have rg: "length ?rows = length ?label \<and> non_pad_positions 1 ?label \<noteq> [] \<and>
            (\<forall>i\<in>set (non_pad_positions 1 ?label).
               0 \<le> ?label ! i \<and> ?label ! i < int (length (?rows ! i)))"
    by (simp add: np)
  from inst[THEN conjunct2, THEN conjunct1, rule_format, OF rg]
  have b: "forward_loss (toy_model 3) (loss_fn_of toy_tokenizer) toy_tokenizer toy_train_batch =
     Inr (Some ((token_loss (1 / 10) [0, 0, 0, 0, 1] 4 + token_loss (1 / 10) [0, 0, 0, 0, 1] 3)
                / 2))"
    by (simp add: np)
  have pd: "2 < length ?label \<and> ?label ! 2 = 1" by simp
  from inst[THEN conjunct2, THEN conjunct2, THEN conjunct2, rule_format, OF pd, of 0 5]
  have c: "((\<lambda>z. loss_value (loss_fn_of toy_tokenizer
            [[0, 0, 0, 0, 1], [0, 0, 0, 0, 1], [z, 0, 0, 1, 0]] ?label))
      has_real_derivative 0) (at 5)"
    by (simp add: eval_nat_numeral)
  show ?thesis
    by (intro conjI) (fact toy_pad v3 v4 lb np a b c)+
qed

text \<open>
  Where the two ids differ, the positions are not left out. With 1 as the index to
  ignore and 0 the id of \<open>[PAD]\<close> in the target vocabulary, the loss of a batch whose
  only label is 0 is the loss of that position; and labels 1, which are words of the
  target language then, are left out. And a mean that counted the position of label
  \<open>pad\<close> would differ: on two equal rows with the labels 0 and \<open>pad = 1\<close> the loss is
  the loss of the first row, not the half of it.
\<close>

lemma CrossEntropyLoss_counts_other_pad:
  "CrossEntropyLoss (Some 1) eps [[a, b]] [0] = Inr (Some (token_loss eps [a, b] 0))"
  by (simp add: CrossEntropyLoss_def)

lemma CrossEntropyLoss_all_ignored:
  "CrossEntropyLoss (Some 1) eps [[a, b], [c, d]] [1, 1] = Inr None"
  by (simp add: CrossEntropyLoss_def)

lemma CrossEntropyLoss_count_without_pad:
  "CrossEntropyLoss (Some 1) eps [[a, b], [a, b]] [0, 1] = Inr (Some (token_loss eps [a, b] 0))"
  by (simp add: CrossEntropyLoss_def)

text \<open>
  With no \<open>[PAD]\<close> in the source vocabulary, line 191 builds the loss function all the
  same, and its first call raises TypeError.
\<close>

lemma loss_fn_without_pad:
  "token_to_id tokenizer_src ''[PAD]'' = None \<Longrightarrow>
     loss_fn_of tokenizer_src rows label = Inl TypeError"
  by (simp add: loss_fn_of_def CrossEntropyLoss_def)

section \<open>Checkpoints\<close>

text \<open>
  A run that starts from scratch in a folder where an earlier run has left the checkpoint
  of epoch 0 writes its own checkpoint of epoch 0 to the same path: the file that was
  there is replaced.
\<close>

theorem checkpoint_overwritten:
  "get_weights_file_path toy_config (format_02d 0) = ''opus_books_weights/tmodel_00.pt'' \<and>
   map_of old_files ''opus_books_weights/tmodel_00.pt'' = Some old_checkpoint \<and>
   map_option (saved ''opus_books_weights/tmodel_00.pt'' \<circ> snd)
     (train_model toy_torch toy_config (toy_model 3) [toy_example [4] ''a'' ''b'']
        [toy_example [4, 4] ''c'' ''d''] toy_tokenizer toy_tokenizer no_shuffle no_shuffle
        old_files w0)
     = Some (Some \<lparr>ckpt_epoch = 0, ckpt_model_state_dict = 4, ckpt_optimizer_state_dict = 1,
                   ckpt_global_step = 1\<rparr>) \<and>
   old_checkpoint \<noteq> \<lparr>ckpt_epoch = 0, ckpt_model_state_dict = 4, ckpt_optimizer_state_dict = 1,
                      ckpt_global_step = 1\<rparr>"
proof -
  let ?tdl = "\<lparr>loader_dataset = [toy_example [4] ''a'' ''b''],
               loader_batch_size = nat (batch_size toy_config), loader_shuffle = True\<rparr>"
  let ?vdl = "\<lparr>loader_dataset = [toy_example [4, 4] ''c'' ''d''], loader_batch_size = 1,
               loader_shuffle = True\<rparr>"
  let ?st0 = "\<lparr>s_model = toy_model 3, s_optimizer = Adam toy_torch (state_dict (toy_model 3))
                 (lr toy_config), s_global_step = 0, s_files = old_files, s_world = w0\<rparr>"
  have p0: "get_weights_file_path toy_config (format_02d 0) = ''opus_books_weights/tmodel_00.pt''"
    by (simp add: toy_path_0) (simp add: toy_config_def)
  have tm: "train_model toy_torch toy_config (toy_model 3) [toy_example [4] ''a'' ''b'']
        [toy_example [4, 4] ''c'' ''d''] toy_tokenizer toy_tokenizer no_shuffle no_shuffle
        old_files w0 =
      train_epochs toy_torch toy_config (loss_fn_of toy_tokenizer) toy_tokenizer toy_tokenizer
        ?tdl ?vdl no_shuffle no_shuffle 0 ?st0"
    by (rule train_model_from_scratch)
       (simp_all add: toy_config_def model_filename_of_def get_ds_cases)
  have st0: "?st0 = \<lparr>s_model = toy_model 3\<lparr>training := True\<rparr>, s_optimizer = 0,
                 s_global_step = 0, s_files = old_files, s_world = w0\<rparr>"
    by (simp add: toy_torch_def)
  have sl: "seq_len toy_config = 10" by (simp add: toy_config_def)
  from toy_epoch[of 3 "[collate [toy_example [4, 4] ''c'' ''d'']]" toy_config
      "[4]" "''a''" "''b''" 0 True 0 0 old_files w0] toy_validation_4
  obtain w' where
    ep: "train_epoch toy_torch toy_config (loss_fn_of toy_tokenizer) toy_tokenizer toy_tokenizer
           [collate [toy_example [4] ''a'' ''b'']] [collate [toy_example [4, 4] ''c'' ''d'']] 0
           \<lparr>s_model = toy_model 3\<lparr>training := True\<rparr>, s_optimizer = 0, s_global_step = 0,
            s_files = old_files, s_world = w0\<rparr>
         = Some (Inr (),
             \<lparr>s_model = toy_model 4\<lparr>training := False\<rparr>, s_optimizer = 1,
              s_global_step = 1,
              s_files = torch_save
                 \<lparr>ckpt_epoch = 0, ckpt_model_state_dict = 4,
                  ckpt_optimizer_state_dict = 1, ckpt_global_step = 1\<rparr>
                 (get_weights_file_path toy_config (format_02d 0)) old_files,
              s_world = w'\<rparr>)"
    by (auto simp: sl eval_nat_numeral simp del: toy_training)
  have ne: "num_epochs toy_config = 1" "nat (batch_size toy_config) = 8"
    by (simp_all add: toy_config_def)
  have "train_epochs toy_torch toy_config (loss_fn_of toy_tokenizer) toy_tokenizer toy_tokenizer
        ?tdl ?vdl no_shuffle no_shuffle 0 ?st0
      = Some (Inr (),
             \<lparr>s_model = toy_model 4\<lparr>training := False\<rparr>, s_optimizer = 1,
              s_global_step = 1,
              s_files = torch_save
                 \<lparr>ckpt_epoch = 0, ckpt_model_state_dict = 4,
                  ckpt_optimizer_state_dict = 1, ckpt_global_step = 1\<rparr>
                 (get_weights_file_path toy_config (format_02d 0)) old_files,
              s_world = w'\<rparr>)"
    unfolding st0
    apply (subst train_epochs.simps)
    apply (simp add: ne toy_iterate ep del: toy_training)
    apply (subst train_epochs.simps)
    apply (simp add: ne)
    done
  with tm have "map_option (saved ''opus_books_weights/tmodel_00.pt'' \<circ> snd)
     (train_model toy_torch toy_config (toy_model 3) [toy_example [4] ''a'' ''b'']
        [toy_example [4, 4] ''c'' ''d''] toy_tokenizer toy_tokenizer no_shuffle no_shuffle
        old_files w0)
     = Some (Some \<lparr>ckpt_epoch = 0, ckpt_model_state_dict = 4, ckpt_optimizer_state_dict = 1,
                   ckpt_global_step = 1\<rparr>)"
    by (simp add: saved_def map_of_torch_save p0)
  moreover have "map_of old_files ''opus_books_weights/tmodel_00.pt'' = Some old_checkpoint"
    by (simp add: old_files_def)
  moreover have "old_checkpoint \<noteq> \<lparr>ckpt_epoch = 0, ckpt_model_state_dict = 4,
      ckpt_optimizer_state_dict = 1, ckpt_global_step = 1\<rparr>"
    by (simp add: old_checkpoint_def)
  ultimately show ?thesis using p0 by simp
qed

text \<open>
  C8, amended. At the end of every training epoch that completes, a checkpoint holding
  the epoch index, the parameters of the model, the state of the optimizer and the
  global step counter, as they are at that moment, is written to the file named after
  the epoch index, and no other file is changed. Different epochs have different files,
  and the epochs that follow leave the file of an earlier epoch as it is: within a run no
  checkpoint is written twice. (A file of that name from an earlier run is replaced.)
  After a run of several epochs that completes, the file of every epoch of the run holds
  the checkpoint of that epoch, with the state in which the run was at the end of that
  epoch (the state in which the run with that epoch as its last one ends), and the files
  that are not named after an epoch of the run are as they were. And when the two data
  loaders have been built and the preload selector names a checkpoint that exists, the
  loop starts at the epoch after the saved one, with the saved global step, the saved
  state of the optimizer and the saved parameters.
\<close>

theorem checkpoint_per_epoch_and_resume:
  "(train_epoch T cfg lf tokenizer_src tokenizer_tgt tbs vbs e st = Some (Inr (), st') \<longrightarrow>
      saved (get_weights_file_path cfg (format_02d e)) st' =
        Some \<lparr>ckpt_epoch = e, ckpt_model_state_dict = state_dict (s_model st'),
              ckpt_optimizer_state_dict = s_optimizer st',
              ckpt_global_step = s_global_step st'\<rparr> \<and>
      (\<forall>f. f \<noteq> get_weights_file_path cfg (format_02d e) \<longrightarrow> saved f st' = saved f st)) \<and>
   (a \<noteq> b \<longrightarrow> get_weights_file_path cfg (format_02d a) \<noteq> get_weights_file_path cfg (format_02d b)) \<and>
   (train_epochs T cfg lf tokenizer_src tokenizer_tgt tdl vdl tord vord e1 st1 = Some (res, st2) \<and>
      e < e1 \<longrightarrow>
      saved (get_weights_file_path cfg (format_02d e)) st2 =
      saved (get_weights_file_path cfg (format_02d e)) st1) \<and>
   (train_epochs T cfg lf tokenizer_src tokenizer_tgt tdl vdl tord vord e1 st1
      = Some (Inr (), st3) \<longrightarrow>
      (\<forall>k. e1 \<le> k \<and> k < num_epochs cfg \<longrightarrow>
         (\<exists>st_k. train_epochs T (cfg\<lparr>num_epochs := k + 1\<rparr>) lf tokenizer_src tokenizer_tgt tdl vdl
                    tord vord e1 st1 = Some (Inr (), st_k) \<and>
                 saved (get_weights_file_path cfg (format_02d k)) st3 =
                   Some \<lparr>ckpt_epoch = k, ckpt_model_state_dict = state_dict (s_model st_k),
                         ckpt_optimizer_state_dict = s_optimizer st_k,
                         ckpt_global_step = s_global_step st_k\<rparr>)) \<and>
      (\<forall>f. (\<forall>k. e1 \<le> k \<and> k < num_epochs cfg \<longrightarrow> f \<noteq> get_weights_file_path cfg (format_02d k))
           \<longrightarrow> saved f st3 = saved f st1)) \<and>
   (get_ds (batch_size cfg) train_ds val_ds tokenizer_src tokenizer_tgt
      = Inr (train_dl, val_dl, ts', tt') \<and>
      model_filename_of cfg fs = Some f \<and> map_of fs f = Some ck \<longrightarrow>
      train_model T cfg model0 train_ds val_ds tokenizer_src tokenizer_tgt tord vord fs w =
      train_epochs T cfg (loss_fn_of tokenizer_src) tokenizer_src tokenizer_tgt train_dl val_dl
        tord vord (ckpt_epoch ck + 1)
        \<lparr>s_model = model0\<lparr>state_dict := ckpt_model_state_dict ck\<rparr>,
         s_optimizer = ckpt_optimizer_state_dict ck,
         s_global_step = ckpt_global_step ck, s_files = fs, s_world = w\<rparr>)"
proof (intro conjI impI allI)
  assume run: "train_epoch T cfg lf tokenizer_src tokenizer_tgt tbs vbs e st = Some (Inr (), st')"
  from train_epoch_cases[OF run]
  have fs': "s_files st' = torch_save
             \<lparr>ckpt_epoch = e, ckpt_model_state_dict = state_dict (s_model st'),
              ckpt_optimizer_state_dict = s_optimizer st',
              ckpt_global_step = s_global_step st'\<rparr>
             (get_weights_file_path cfg (format_02d e)) (s_files st)" by simp
  then show "saved (get_weights_file_path cfg (format_02d e)) st' =
        Some \<lparr>ckpt_epoch = e, ckpt_model_state_dict = state_dict (s_model st'),
              ckpt_optimizer_state_dict = s_optimizer st',
              ckpt_global_step = s_global_step st'\<rparr>"
    by (simp add: saved_def map_of_torch_save)
  fix f assume "f \<noteq> get_weights_file_path cfg (format_02d e)"
  from train_epoch_other_files[OF run this] show "saved f st' = saved f st"
    by (simp add: saved_def)
next
  assume "a \<noteq> b"
  then show "get_weights_file_path cfg (format_02d a) \<noteq> get_weights_file_path cfg (format_02d b)"
    using weights_path_inj by blast
next
  assume h: "train_epochs T cfg lf tokenizer_src tokenizer_tgt tdl vdl tord vord e1 st1
               = Some (res, st2) \<and> e < e1"
  have "\<forall>e'. e1 \<le> e' \<and> e' < num_epochs cfg \<longrightarrow>
          get_weights_file_path cfg (format_02d e) \<noteq> get_weights_file_path cfg (format_02d e')"
    using h weights_path_inj by fastforce
  from train_epochs_other_files[OF conjunct1[OF h] this]
  show "saved (get_weights_file_path cfg (format_02d e)) st2 =
        saved (get_weights_file_path cfg (format_02d e)) st1"
    by (simp add: saved_def)
next
  fix k
  assume run: "train_epochs T cfg lf tokenizer_src tokenizer_tgt tdl vdl tord vord e1 st1
                 = Some (Inr (), st3)"
    and k: "e1 \<le> k \<and> k < num_epochs cfg"
  from k have k1: "e1 \<le> k" and k2: "k < num_epochs cfg" by simp_all
  show "\<exists>st_k. train_epochs T (cfg\<lparr>num_epochs := k + 1\<rparr>) lf tokenizer_src tokenizer_tgt tdl vdl
                    tord vord e1 st1 = Some (Inr (), st_k) \<and>
                 saved (get_weights_file_path cfg (format_02d k)) st3 =
                   Some \<lparr>ckpt_epoch = k, ckpt_model_state_dict = state_dict (s_model st_k),
                         ckpt_optimizer_state_dict = s_optimizer st_k,
                         ckpt_global_step = s_global_step st_k\<rparr>"
    by (rule train_epochs_leaves[OF run k1 k2])
next
  fix f
  assume run: "train_epochs T cfg lf tokenizer_src tokenizer_tgt tdl vdl tord vord e1 st1
                 = Some (Inr (), st3)"
    and f: "\<forall>k. e1 \<le> k \<and> k < num_epochs cfg \<longrightarrow> f \<noteq> get_weights_file_path cfg (format_02d k)"
  from train_epochs_other_files[OF run f] show "saved f st3 = saved f st1"
    by (simp add: saved_def)
next
  assume "get_ds (batch_size cfg) train_ds val_ds tokenizer_src tokenizer_tgt
            = Inr (train_dl, val_dl, ts', tt') \<and>
          model_filename_of cfg fs = Some f \<and> map_of fs f = Some ck"
  then have h: "get_ds (batch_size cfg) train_ds val_ds tokenizer_src tokenizer_tgt
                  = Inr (train_dl, val_dl, ts', tt')"
    "model_filename_of cfg fs = Some f" "map_of fs f = Some ck" by simp_all
  show "train_model T cfg model0 train_ds val_ds tokenizer_src tokenizer_tgt tord vord fs w =
      train_epochs T cfg (loss_fn_of tokenizer_src) tokenizer_src tokenizer_tgt train_dl val_dl
        tord vord (ckpt_epoch ck + 1)
        \<lparr>s_model = model0\<lparr>state_dict := ckpt_model_state_dict ck\<rparr>,
         s_optimizer = ckpt_optimizer_state_dict ck,
         s_global_step = ckpt_global_step ck, s_files = fs, s_world = w\<rparr>"
    by (rule train_model_resumes[OF h])
qed

theorem checkpoint_per_epoch_and_resume_witness:
  "get_ds (batch_size (toy_config\<lparr>num_epochs := 2, preload := Some ''00''\<rparr>))
     [toy_example [4] ''a'' ''b''] [toy_example [4, 4] ''c'' ''d''] toy_tokenizer toy_tokenizer
     = Inr (\<lparr>loader_dataset = [toy_example [4] ''a'' ''b''], loader_batch_size = 8,
              loader_shuffle = True\<rparr>,
            \<lparr>loader_dataset = [toy_example [4, 4] ''c'' ''d''], loader_batch_size = 1,
              loader_shuffle = True\<rparr>, toy_tokenizer, toy_tokenizer) \<and>
   model_filename_of (toy_config\<lparr>num_epochs := 2, preload := Some ''00''\<rparr>) old_files
     = Some ''opus_books_weights/tmodel_00.pt'' \<and>
   map_of old_files ''opus_books_weights/tmodel_00.pt'' = Some old_checkpoint \<and>
   ckpt_epoch old_checkpoint + 1 = 1 \<and>
   map_option (saved ''opus_books_weights/tmodel_01.pt'' \<circ> snd)
     (train_model toy_torch (toy_config\<lparr>num_epochs := 2, preload := Some ''00''\<rparr>) (toy_model 3)
        [toy_example [4] ''a'' ''b''] [toy_example [4, 4] ''c'' ''d''] toy_tokenizer toy_tokenizer
        no_shuffle no_shuffle old_files w0)
     = Some (Some \<lparr>ckpt_epoch = 1, ckpt_model_state_dict = 8, ckpt_optimizer_state_dict = 6,
                   ckpt_global_step = 41\<rparr>) \<and>
   map_option (saved ''opus_books_weights/tmodel_00.pt'' \<circ> snd)
     (train_model toy_torch (toy_config\<lparr>num_epochs := 2, preload := Some ''00''\<rparr>) (toy_model 3)
        [toy_example [4] ''a'' ''b''] [toy_example [4, 4] ''c'' ''d''] toy_tokenizer toy_tokenizer
        no_shuffle no_shuffle old_files w0)
     = Some (Some old_checkpoint)"
proof -
  let ?cfg = "toy_config\<lparr>num_epochs := 2, preload := Some ''00''\<rparr>"
  let ?f0 = "''opus_books_weights/tmodel_00.pt''"
  let ?f1 = "''opus_books_weights/tmodel_01.pt''"
  let ?tdl = "\<lparr>loader_dataset = [toy_example [4] ''a'' ''b''],
               loader_batch_size = 8, loader_shuffle = True\<rparr>"
  let ?vdl = "\<lparr>loader_dataset = [toy_example [4, 4] ''c'' ''d''], loader_batch_size = 1,
               loader_shuffle = True\<rparr>"
  let ?ck1 = "\<lparr>ckpt_epoch = 1, ckpt_model_state_dict = 8, ckpt_optimizer_state_dict = 6,
                 ckpt_global_step = 41\<rparr> :: (nat, nat) checkpoint"
  have h1: "get_ds (batch_size ?cfg) [toy_example [4] ''a'' ''b''] [toy_example [4, 4] ''c'' ''d'']
              toy_tokenizer toy_tokenizer = Inr (?tdl, ?vdl, toy_tokenizer, toy_tokenizer)"
    by (simp add: get_ds_cases toy_config_def)
  have h3: "model_filename_of ?cfg old_files = Some ?f0"
    by (simp add: model_filename_of_def get_weights_file_path_def toy_config_def)
  have h4: "map_of old_files ?f0 = Some old_checkpoint" by (simp add: old_files_def)
  have p1: "get_weights_file_path ?cfg (format_02d 1) = ?f1"
    by (simp add: toy_path_1) (simp add: toy_config_def)
  have sl: "seq_len ?cfg = 10" "num_epochs ?cfg = 2" "nat (batch_size ?cfg) = 8"
    "batch_size toy_config = 8" "seq_len toy_config = 10"
    by (simp_all add: toy_config_def)
  note inst = checkpoint_per_epoch_and_resume[where cfg = ?cfg and tokenizer_src = toy_tokenizer
      and fs = old_files and f = ?f0 and ck = old_checkpoint and T = toy_torch
      and ?model0.0 = "toy_model 3" and train_ds = "[toy_example [4] ''a'' ''b'']"
      and val_ds = "[toy_example [4, 4] ''c'' ''d'']" and tokenizer_tgt = toy_tokenizer
      and train_dl = ?tdl and val_dl = ?vdl and ts' = toy_tokenizer and tt' = toy_tokenizer
      and tord = no_shuffle and vord = no_shuffle and w = w0]
  from inst h1 h3 h4
  have tm: "train_model toy_torch ?cfg (toy_model 3) [toy_example [4] ''a'' ''b'']
        [toy_example [4, 4] ''c'' ''d''] toy_tokenizer toy_tokenizer no_shuffle no_shuffle
        old_files w0 =
      train_epochs toy_torch ?cfg (loss_fn_of toy_tokenizer) toy_tokenizer toy_tokenizer
        ?tdl ?vdl no_shuffle no_shuffle (ckpt_epoch old_checkpoint + 1)
        \<lparr>s_model = toy_model 3\<lparr>state_dict := ckpt_model_state_dict old_checkpoint\<rparr>,
         s_optimizer = ckpt_optimizer_state_dict old_checkpoint,
         s_global_step = ckpt_global_step old_checkpoint, s_files = old_files, s_world = w0\<rparr>"
    by blast
  have st1: "\<lparr>s_model = toy_model 3\<lparr>state_dict := ckpt_model_state_dict old_checkpoint\<rparr>,
         s_optimizer = ckpt_optimizer_state_dict old_checkpoint,
         s_global_step = ckpt_global_step old_checkpoint, s_files = old_files, s_world = w0\<rparr>
       = \<lparr>s_model = toy_model 7\<lparr>training := True\<rparr>, s_optimizer = 5,
          s_global_step = 40, s_files = old_files, s_world = w0\<rparr>"
    by (simp add: old_checkpoint_def)
  from toy_epoch[of 7 "[collate [toy_example [4, 4] ''c'' ''d'']]" ?cfg
      "[4]" "''a''" "''b''" 1 True 5 40 old_files w0] toy_validation_8
  obtain w' where
    ep: "train_epoch toy_torch ?cfg (loss_fn_of toy_tokenizer) toy_tokenizer toy_tokenizer
           [collate [toy_example [4] ''a'' ''b'']] [collate [toy_example [4, 4] ''c'' ''d'']] 1
           \<lparr>s_model = toy_model 7\<lparr>training := True\<rparr>, s_optimizer = 5, s_global_step = 40,
            s_files = old_files, s_world = w0\<rparr>
         = Some (Inr (),
             \<lparr>s_model = toy_model 8\<lparr>training := False\<rparr>, s_optimizer = 6,
              s_global_step = 41,
              s_files = torch_save ?ck1 (get_weights_file_path ?cfg (format_02d 1)) old_files,
              s_world = w'\<rparr>)"
    by (auto simp: sl eval_nat_numeral simp del: toy_training)
  have "train_epochs toy_torch ?cfg (loss_fn_of toy_tokenizer) toy_tokenizer toy_tokenizer
        ?tdl ?vdl no_shuffle no_shuffle (ckpt_epoch old_checkpoint + 1)
        \<lparr>s_model = toy_model 3\<lparr>state_dict := ckpt_model_state_dict old_checkpoint\<rparr>,
         s_optimizer = ckpt_optimizer_state_dict old_checkpoint,
         s_global_step = ckpt_global_step old_checkpoint, s_files = old_files, s_world = w0\<rparr>
      = Some (Inr (),
             \<lparr>s_model = toy_model 8\<lparr>training := False\<rparr>, s_optimizer = 6,
              s_global_step = 41,
              s_files = torch_save ?ck1 (get_weights_file_path ?cfg (format_02d 1)) old_files,
              s_world = w'\<rparr>)"
    unfolding st1
    apply (subst train_epochs.simps)
    apply (simp add: sl toy_iterate ep old_checkpoint_def del: toy_training)
    apply (subst train_epochs.simps)
    apply (simp add: sl)
    done
  with tm have res: "train_model toy_torch ?cfg (toy_model 3) [toy_example [4] ''a'' ''b'']
        [toy_example [4, 4] ''c'' ''d''] toy_tokenizer toy_tokenizer no_shuffle no_shuffle
        old_files w0 = Some (Inr (),
             \<lparr>s_model = toy_model 8\<lparr>training := False\<rparr>, s_optimizer = 6,
              s_global_step = 41,
              s_files = torch_save ?ck1 ?f1 old_files,
              s_world = w'\<rparr>)"
    by (simp add: p1)
  have "ckpt_epoch old_checkpoint + 1 = 1" by (simp add: old_checkpoint_def)
  with res h1 h3 h4 show ?thesis
    by (simp add: saved_def map_of_torch_save)
qed

end
